(* ===== verification/Etp_Prelude.thy ===== *)
theory Etp_Prelude
  imports Main "HOL-Library.Word"
begin

text \<open>
  Shared vocabulary of the development: machine integers at their Go widths, byte
  slices, Go strings, error values and panics, the big-endian accessors of
  \<open>encoding/binary\<close>, and the buffer-writing discipline of the encoders.

  \<^item> A Go \<open>uint8/16/32/64\<close> is a word of that width. A Go \<open>int\<close> that counts bytes of
    a slice is a \<open>nat\<close>: the platform's \<open>int\<close> has 64 bits and a slice never reaches
    \<open>2^63\<close> bytes, so sums of lengths do not wrap; sizes that the code keeps in
    \<open>uint64\<close> stay words.
  \<^item> A Go string is a byte string, modelled by HOL's \<open>string\<close> (whose characters are
    exactly the bytes); \<open>[]byte(s)\<close> and \<open>string(b)\<close> are the two conversions below.
  \<^item> A call that may return an error or panic has a result in \<open>go_error + 'a\<close>. A run-time
    panic (index or slice bounds) is the error value \<open>GoPanic\<close>; returned errors carry the
    message of the source, with the numbers of a format string as a list.
  \<^item> A destination buffer \<open>dst\<close> is given by its backing array up to its capacity, so that
    re-slicing it exposes the stale bytes it really has.
\<close>

unbundle bit_operations_syntax

named_theorems wire_simps "lengths and accessors of encoded fields"
named_theorems etp_consts "defining equations of the protocol's numeric constants"

section \<open>Machine integers, byte slices and results\<close>

type_synonym u8 = "8 word"
type_synonym u16 = "16 word"
type_synonym u32 = "32 word"
type_synonym u64 = "64 word"
type_synonym bytes = "u8 list"

datatype go_error = GoPanic | Err string | Errf string "int list"

type_synonym 'a go = "go_error + 'a"

definition go_try :: "'a go \<Rightarrow> ('a \<Rightarrow> 'b go) \<Rightarrow> 'b go" where
  "go_try m f = (case m of Inl e \<Rightarrow> Inl e | Inr x \<Rightarrow> f x)"

text \<open>\<open>out, _ := f(...)\<close>: the error is dropped and the nil slice kept; a panic propagates.\<close>

definition ignore_err :: "bytes go \<Rightarrow> bytes go" where
  "ignore_err m = (case m of Inl e \<Rightarrow> (if e = GoPanic then Inl GoPanic else Inr []) | Inr x \<Rightarrow> Inr x)"

definition bytes_of_string :: "string \<Rightarrow> bytes" where
  "bytes_of_string s = map (\<lambda>c. word_of_nat (of_char c)) s"

definition string_of_bytes :: "bytes \<Rightarrow> string" where
  "string_of_bytes b = map (\<lambda>w. char_of (unat w)) b"

text \<open>\<open>p[a:b]\<close>. Go checks the upper bound against the capacity; checking it against the
  length instead makes every read past the end of the data a panic of the model.\<close>

definition sl :: "'a list \<Rightarrow> nat \<Rightarrow> nat \<Rightarrow> 'a list" where
  "sl xs a b = take (b - a) (drop a xs)"

definition slice :: "'a list \<Rightarrow> nat \<Rightarrow> nat \<Rightarrow> 'a list go" where
  "slice xs a b = (if a \<le> b \<and> b \<le> length xs then Inr (sl xs a b) else Inl GoPanic)"

definition index_byte :: "bytes \<Rightarrow> nat \<Rightarrow> u8 go" where
  "index_byte xs i = (if i < length xs then Inr (xs ! i) else Inl GoPanic)"

section \<open>Big-endian integers\<close>

definition be16 :: "u16 \<Rightarrow> bytes" where
  "be16 v = [ucast (drop_bit 8 v), ucast v]"

definition be32 :: "u32 \<Rightarrow> bytes" where
  "be32 v = [ucast (drop_bit 24 v), ucast (drop_bit 16 v), ucast (drop_bit 8 v), ucast v]"

definition be64 :: "u64 \<Rightarrow> bytes" where
  "be64 v = [ucast (drop_bit 56 v), ucast (drop_bit 48 v), ucast (drop_bit 40 v),
     ucast (drop_bit 32 v), ucast (drop_bit 24 v), ucast (drop_bit 16 v),
     ucast (drop_bit 8 v), ucast v]"

definition rd16 :: "bytes \<Rightarrow> u16" where
  "rd16 b = ucast (b ! 1) OR push_bit 8 (ucast (b ! 0))"

definition rd32 :: "bytes \<Rightarrow> u32" where
  "rd32 b = ucast (b ! 3) OR push_bit 8 (ucast (b ! 2)) OR push_bit 16 (ucast (b ! 1))
     OR push_bit 24 (ucast (b ! 0))"

definition rd64 :: "bytes \<Rightarrow> u64" where
  "rd64 b = ucast (b ! 7) OR push_bit 8 (ucast (b ! 6)) OR push_bit 16 (ucast (b ! 5))
     OR push_bit 24 (ucast (b ! 4)) OR push_bit 32 (ucast (b ! 3)) OR push_bit 40 (ucast (b ! 2))
     OR push_bit 48 (ucast (b ! 1)) OR push_bit 56 (ucast (b ! 0))"

text \<open>\<open>binary.BigEndian.Uint16(p[a:b])\<close> and its kin: the slice expression may panic, and
  so may the accessor when the slice is too short.\<close>

definition Uint16 :: "bytes \<Rightarrow> nat \<Rightarrow> nat \<Rightarrow> u16 go" where
  "Uint16 p a b = go_try (slice p a b) (\<lambda>s. if 2 \<le> length s then Inr (rd16 s) else Inl GoPanic)"

definition Uint32 :: "bytes \<Rightarrow> nat \<Rightarrow> nat \<Rightarrow> u32 go" where
  "Uint32 p a b = go_try (slice p a b) (\<lambda>s. if 4 \<le> length s then Inr (rd32 s) else Inl GoPanic)"

definition Uint64 :: "bytes \<Rightarrow> nat \<Rightarrow> nat \<Rightarrow> u64 go" where
  "Uint64 p a b = go_try (slice p a b) (\<lambda>s. if 8 \<le> length s then Inr (rd64 s) else Inl GoPanic)"

section \<open>Writing into a buffer\<close>

text \<open>
  The statements an encoder runs on its buffer. \<open>Put o b\<close> stores all of \<open>b\<close> at offset \<open>o\<close>
  (\<open>out[o] = x\<close>, \<open>PutUint32(out[o:o+4], v)\<close>, \<open>copy(out[o:o+len(b)], b)\<close>, \<open>clear(out[o:o'])\<close>) and
  panics when it does not fit; \<open>Copy o b\<close> is \<open>copy(out[o:], b)\<close>, which stores the prefix that fits.
\<close>

datatype buf_write = Put nat bytes | Copy nat bytes

fun write1 :: "bytes \<Rightarrow> buf_write \<Rightarrow> bytes go" where
  "write1 out (Put off bs) =
     (if off + length bs \<le> length out
      then Inr (take off out @ bs @ drop (off + length bs) out) else Inl GoPanic)"
| "write1 out (Copy off bs) =
     (if off \<le> length out
      then let n = min (length bs) (length out - off)
           in Inr (take off out @ take n bs @ drop (off + n) out)
      else Inl GoPanic)"

fun run_writes :: "bytes \<Rightarrow> buf_write list \<Rightarrow> bytes go" where
  "run_writes out [] = Inr out"
| "run_writes out (w # ws) = go_try (write1 out w) (\<lambda>out'. run_writes out' ws)"

text \<open>\<open>if cap(dst) < size { dst = make([]byte, size) } else { dst = dst[:size] }\<close>\<close>

definition grow :: "bytes \<Rightarrow> nat \<Rightarrow> bytes" where
  "grow dst n = (if length dst < n then replicate n 0 else take n dst)"

section \<open>Lemmas\<close>

lemma go_try_simps [simp]:
  "go_try (Inl e) f = Inl e"
  "go_try (Inr x) f = f x"
  by (simp_all add: go_try_def)

lemma go_try_assoc: "go_try (go_try m f) g = go_try m (\<lambda>x. go_try (f x) g)"
  by (cases m) simp_all

lemma go_try_eq_Inr: "go_try m f = Inr y \<longleftrightarrow> (\<exists>x. m = Inr x \<and> f x = Inr y)"
  by (cases m) simp_all

lemma go_try_no_panic:
  "go_try m f \<noteq> Inl GoPanic \<longleftrightarrow> m \<noteq> Inl GoPanic \<and> (\<forall>x. m = Inr x \<longrightarrow> f x \<noteq> Inl GoPanic)"
  by (cases m) simp_all

lemma ignore_err_simps [simp]:
  "ignore_err (Inr x) = Inr x"
  "ignore_err (Inl (Err s)) = Inr []"
  "ignore_err (Inl GoPanic) = Inl GoPanic"
  by (simp_all add: ignore_err_def)

subsection \<open>Strings and slices\<close>

lemma length_bytes_of_string [simp]: "length (bytes_of_string s) = length s"
  by (simp add: bytes_of_string_def)

lemma length_string_of_bytes [simp]: "length (string_of_bytes b) = length b"
  by (simp add: string_of_bytes_def)

lemma of_char_less_256: "(of_char c :: nat) < 256"
  by simp

lemma string_of_bytes_of_string [simp]: "string_of_bytes (bytes_of_string s) = s"
proof -
  have "char_of (unat (word_of_nat (of_char c) :: u8)) = c" for c
    by (simp add: unat_of_nat)
  then show ?thesis
    by (simp add: string_of_bytes_def bytes_of_string_def comp_def)
qed

lemma bytes_of_string_of_bytes [simp]: "bytes_of_string (string_of_bytes b) = b"
proof -
  have "word_of_nat (of_char (char_of (unat w))) = w" for w :: u8
    using unsigned_less [of w, where 'a = nat] by simp
  then show ?thesis
    by (simp add: string_of_bytes_def bytes_of_string_def comp_def)
qed

lemma bytes_of_string_inj [simp]: "bytes_of_string s = bytes_of_string t \<longleftrightarrow> s = t"
  by (metis string_of_bytes_of_string)

lemma bytes_of_string_Nil [simp]: "bytes_of_string s = [] \<longleftrightarrow> s = []"
  by (simp add: bytes_of_string_def)

lemma length_sl [simp]: "length (sl xs a b) = min (b - a) (length xs - a)"
  by (simp add: sl_def min.commute)

lemma sl_empty [simp]: "sl xs a a = []"
  by (simp add: sl_def)

lemma sl_whole [simp]: "sl xs 0 (length xs) = xs"
  by (simp add: sl_def)

lemma sl_join: "a \<le> b \<Longrightarrow> b \<le> c \<Longrightarrow> sl xs a b @ sl xs b c = sl xs a c"
proof -
  assume "a \<le> b" "b \<le> c"
  then have "c - a = (b - a) + (c - b)" and "drop b xs = drop (b - a) (drop a xs)"
    by simp_all
  then show ?thesis
    by (simp add: sl_def take_add)
qed

lemma sl_join_append: "a \<le> b \<Longrightarrow> b \<le> c \<Longrightarrow> sl xs a b @ sl xs b c @ ys = sl xs a c @ ys"
  by (metis append_assoc sl_join)

lemma sl_append: "sl (xs @ ys) a b = sl xs a b @ sl ys (a - length xs) (b - length xs)"
proof -
  have "b - a - (length xs - a) = (b - length xs) - (a - length xs)"
    by arith
  then show ?thesis
    by (simp add: sl_def min_def)
qed

lemma sl_skip [simp]: "length xs \<le> a \<Longrightarrow> sl (xs @ ys) a b = sl ys (a - length xs) (b - length xs)"
  by (simp add: sl_append sl_def)

lemma sl_take [simp]: "n = length xs \<Longrightarrow> sl (xs @ ys) 0 n = xs"
  by (simp add: sl_def)

lemma sl_take_all [simp]: "n = length xs \<Longrightarrow> sl xs 0 n = xs"
  by (simp add: sl_def)

lemma sl_Cons [simp]: "0 < a \<Longrightarrow> sl (x # xs) a b = sl xs (a - 1) (b - 1)"
  by (cases a; cases b) (simp_all add: sl_def)

lemma slice_ok [simp]: "a \<le> b \<Longrightarrow> b \<le> length xs \<Longrightarrow> slice xs a b = Inr (sl xs a b)"
  by (simp add: slice_def)

lemma slice_eq_Inr: "slice xs a b = Inr ys \<longleftrightarrow> a \<le> b \<and> b \<le> length xs \<and> ys = sl xs a b"
  by (auto simp: slice_def)

lemma index_byte_ok [simp]: "i < length xs \<Longrightarrow> index_byte xs i = Inr (xs ! i)"
  by (simp add: index_byte_def)

lemma sl_single: "i < length xs \<Longrightarrow> sl xs i (Suc i) = [xs ! i]"
  by (simp add: sl_def take_Suc_conv_app_nth hd_drop_conv_nth take_Suc)

subsection \<open>Big-endian accessors\<close>

lemma length_be [simp]: "length (be16 v) = 2" "length (be32 w) = 4" "length (be64 x) = 8"
  by (simp_all add: be16_def be32_def be64_def)

lemma bit_shifted_byte:
  "bit (push_bit k (ucast (b :: u8) :: 'a::len word)) n \<longleftrightarrow>
     k \<le> n \<and> n < LENGTH('a) \<and> n < k + 8 \<and> bit b (n - k)"
  by (auto simp: bit_simps dest: bit_imp_le_length)

lemma bit_byte_of:
  "bit (ucast (drop_bit k (v :: 'a::len word)) :: u8) m \<longleftrightarrow> m < 8 \<and> bit v (k + m)"
  by (auto simp: bit_simps dest: bit_imp_le_length)

lemma bit_low_byte:
  "bit (ucast (b :: u8) :: 'a::len word) n \<longleftrightarrow> n < LENGTH('a) \<and> n < 8 \<and> bit b n"
  by (auto simp: bit_simps dest: bit_imp_le_length)

lemma bit_low_byte_of: "bit (ucast (v :: 'a::len word) :: u8) m \<longleftrightarrow> m < 8 \<and> bit v m"
  by (auto simp: bit_simps dest: bit_imp_le_length)

lemmas byte_bits = bit_shifted_byte bit_byte_of bit_low_byte bit_low_byte_of bit_or_iff bit_drop_bit_eq comp_def

lemma rd16_be16 [simp]: "rd16 (be16 v) = v"
  by (rule bit_word_eqI) (auto simp: rd16_def be16_def byte_bits)

lemma rd32_be32 [simp]: "rd32 (be32 v) = v"
proof (rule bit_word_eqI)
  fix n assume "n < LENGTH(32)"
  then consider "n < 8" | "8 \<le> n" "n < 16" | "16 \<le> n" "n < 24" | "24 \<le> n" "n < 32"
    by fastforce
  then show "bit (rd32 (be32 v)) n \<longleftrightarrow> bit v n"
    by cases (simp_all add: rd32_def be32_def byte_bits less_diff_conv2)
qed

lemma rd64_be64 [simp]: "rd64 (be64 v) = v"
proof (rule bit_word_eqI)
  fix n assume "n < LENGTH(64)"
  then consider "n < 8" | "8 \<le> n" "n < 16" | "16 \<le> n" "n < 24" | "24 \<le> n" "n < 32"
    | "32 \<le> n" "n < 40" | "40 \<le> n" "n < 48" | "48 \<le> n" "n < 56" | "56 \<le> n" "n < 64"
    by fastforce
  then show "bit (rd64 (be64 v)) n \<longleftrightarrow> bit v n"
    by cases (simp_all add: rd64_def be64_def byte_bits less_diff_conv2)
qed

lemma byte_eqI: "(\<And>n. n < 8 \<Longrightarrow> bit (a :: u8) n \<longleftrightarrow> bit b n) \<Longrightarrow> a = b"
  by (rule bit_word_eqI) simp

lemma be16_rd16 [simp]:
  assumes "length b = 2" shows "be16 (rd16 b) = b"
proof -
  from assms obtain x y where "b = [x, y]"
    by (auto simp: length_Suc_conv numeral_2_eq_2)
  then show ?thesis
    by (auto simp: be16_def rd16_def byte_bits intro!: byte_eqI)
qed

lemma be32_rd32_list: "be32 (rd32 [b0, b1, b2, b3]) = [b0, b1, b2, b3]"
  by (auto simp: be32_def rd32_def byte_bits intro!: byte_eqI)

lemma be64_rd64_list:
  "be64 (rd64 [b0, b1, b2, b3, b4, b5, b6, b7]) = [b0, b1, b2, b3, b4, b5, b6, b7]"
  by (auto simp: be64_def rd64_def byte_bits intro!: byte_eqI)

lemma be32_rd32 [simp]: "length b = 4 \<Longrightarrow> be32 (rd32 b) = b"
  by (auto simp: length_Suc_conv eval_nat_numeral be32_rd32_list)

lemma be64_rd64 [simp]: "length b = 8 \<Longrightarrow> be64 (rd64 b) = b"
  by (auto simp: length_Suc_conv eval_nat_numeral be64_rd64_list)

lemma Uint16_ok [simp]: "b = a + 2 \<Longrightarrow> b \<le> length p \<Longrightarrow> Uint16 p a b = Inr (rd16 (sl p a b))"
  by (simp add: Uint16_def)

lemma Uint32_ok [simp]: "b = a + 4 \<Longrightarrow> b \<le> length p \<Longrightarrow> Uint32 p a b = Inr (rd32 (sl p a b))"
  by (simp add: Uint32_def)

lemma Uint64_ok [simp]: "b = a + 8 \<Longrightarrow> b \<le> length p \<Longrightarrow> Uint64 p a b = Inr (rd64 (sl p a b))"
  by (simp add: Uint64_def)

lemma Uint16_eq_Inr: "Uint16 p a b = Inr v \<Longrightarrow> v = rd16 (sl p a b) \<and> b \<le> length p"
  by (auto simp: Uint16_def go_try_eq_Inr slice_eq_Inr split: if_splits)

lemma Uint32_eq_Inr: "Uint32 p a b = Inr v \<Longrightarrow> v = rd32 (sl p a b) \<and> b \<le> length p"
  by (auto simp: Uint32_def go_try_eq_Inr slice_eq_Inr split: if_splits)

lemma Uint64_eq_Inr: "Uint64 p a b = Inr v \<Longrightarrow> v = rd64 (sl p a b) \<and> b \<le> length p"
  by (auto simp: Uint64_def go_try_eq_Inr slice_eq_Inr split: if_splits)

lemma rd16_eq_iff: "length b = 2 \<Longrightarrow> rd16 b = v \<longleftrightarrow> b = be16 v"
  using be16_rd16 by auto

lemma one_le_word_iff [simp]: "1 \<le> (w :: 'a::len word) \<longleftrightarrow> w \<noteq> 0"
  by (simp add: word_le_sub1 linorder_not_less [symmetric])

subsection \<open>Buffers\<close>

lemma length_grow [simp]: "length (grow dst n) = n"
  by (simp add: grow_def)

text \<open>
  Encoders fill their buffer from left to right. \<open>fill w rest ws\<close> is a run whose first
  \<open>length w\<close> bytes are final; its rules move one write from the program to the final part,
  so an encoder's output is read off its writes, whatever the buffer held before.
\<close>

definition fill :: "bytes \<Rightarrow> bytes \<Rightarrow> buf_write list \<Rightarrow> bytes go" where
  "fill w rest ws = run_writes (w @ rest) ws"

lemma run_writes_fill: "run_writes out ws = fill [] out ws"
  by (simp add: fill_def)

lemma fill_Nil [simp]: "fill w rest [] = Inr (w @ rest)"
  by (simp add: fill_def)

lemma fill_Put [simp]:
  "off = length w \<Longrightarrow> length bs \<le> length rest \<Longrightarrow>
     fill w rest (Put off bs # ws) = fill (w @ bs) (drop (length bs) rest) ws"
  by (simp add: fill_def)

lemma fill_Copy [simp]:
  "off = length w \<Longrightarrow> length bs \<le> length rest \<Longrightarrow>
     fill w rest (Copy off bs # ws) = fill (w @ bs) (drop (length bs) rest) ws"
  by (simp add: fill_def Let_def)

text \<open>A write that leaves a gap keeps the bytes the buffer had there.\<close>

lemma fill_Put_gap:
  "length w < off \<Longrightarrow> off + length bs \<le> length w + length rest \<Longrightarrow>
     fill w rest (Put off bs # ws) =
       fill (w @ take (off - length w) rest @ bs) (drop (off - length w + length bs) rest) ws"
  by (simp add: fill_def)

section \<open>Wire codecs\<close>

text \<open>
  What a client of a message format relies on. \<open>enc\<close> may return an error or panic, \<open>dec\<close>
  reads bytes a peer chose; \<open>wf\<close> are the messages the format carries. The laws: a
  well-formed message is encoded and decodes to itself, and no input makes the decoder
  panic. A canonical codec also accepts no byte string but the encodings of well-formed
  messages.
\<close>

locale wire_codec =
  fixes enc :: "'m \<Rightarrow> bytes go" and dec :: "bytes \<Rightarrow> 'm go" and wf :: "'m \<Rightarrow> bool"
  assumes enc_dec: "wf m \<Longrightarrow> \<exists>p. enc m = Inr p \<and> dec p = Inr m"
    and dec_no_panic: "dec p \<noteq> Inl GoPanic"
begin

lemma enc_Inr_dec: "wf m \<Longrightarrow> enc m = Inr p \<Longrightarrow> dec p = Inr m"
  using enc_dec by fastforce

lemma enc_injective: "wf m \<Longrightarrow> wf m' \<Longrightarrow> enc m = enc m' \<Longrightarrow> m = m'"
  using enc_dec by (metis Inr_inject)

lemma wf_enc_succeeds: "wf m \<Longrightarrow> \<exists>p. enc m = Inr p"
  using enc_dec by blast

lemma dec_try_enc: "wf m \<Longrightarrow> go_try (enc m) dec = Inr m"
  using enc_dec by fastforce

end

locale canonical_codec = wire_codec +
  assumes dec_canonical: "dec p = Inr m \<Longrightarrow> wf m \<and> enc m = Inr p"
begin

lemma dec_iff_enc: "dec p = Inr m \<longleftrightarrow> wf m \<and> enc m = Inr p"
  using dec_canonical enc_Inr_dec by blast

lemma dec_injective: "dec p = Inr m \<Longrightarrow> dec q = Inr m \<Longrightarrow> p = q"
  using dec_canonical by (metis Inr_inject)

end

text \<open>A format with a trailing text has no length limit of its own on the decoding side: the frame
  around it bounds the payload by \<open>limit\<close>, and up to that length the decoder is exact.\<close>

locale framed_codec = wire_codec +
  fixes limit :: nat
  assumes dec_framed: "length p \<le> limit \<Longrightarrow> dec p = Inr m \<Longrightarrow> wf m \<and> enc m = Inr p"
begin

lemma dec_framed_iff: "length p \<le> limit \<Longrightarrow> dec p = Inr m \<longleftrightarrow> wf m \<and> enc m = Inr p"
  using dec_framed enc_Inr_dec by blast

end

sublocale canonical_codec \<subseteq> exact: framed_codec enc dec wf n for n
  by unfold_locales (rule dec_canonical)

end
