(* ===== verification/Etp_Frame.thy ===== *)
theory Etp_Frame
  imports Etp_Prelude
begin

text \<open>
  The frame layer, \<open>internal/etp/frame.go\<close>: frame and header types, header validation, the
  encoder with its destination buffer, the header encoder used by the writer's fast path,
  and the decoders. The lemmas show that encoding and decoding are inverse to each other in
  both directions, that the decoder never panics on bytes a peer chose, and that no stale
  byte of a reused buffer reaches the wire.
\<close>

section \<open>Constants\<close>

definition WireVersion :: u8 where [simp]: "WireVersion = 1"
definition HeaderSize :: nat where [simp]: "HeaderSize = 40"
definition MaxFrameBytes :: nat where [simp]: "MaxFrameBytes = 8388608"
definition MaxPooledFrameBytes :: nat where [simp]: "MaxPooledFrameBytes = 262144"
definition DefaultChunkSize :: nat where [simp]: "DefaultChunkSize = 16384"

definition FrameData :: u8 where [simp]: "FrameData = 1"
definition FrameAck :: u8 where [simp]: "FrameAck = 2"
definition FrameNack :: u8 where [simp]: "FrameNack = 3"
definition FramePing :: u8 where [simp]: "FramePing = 4"
definition FramePong :: u8 where [simp]: "FramePong = 5"
definition FrameWindow :: u8 where [simp]: "FrameWindow = 6"
definition FrameCancel :: u8 where [simp]: "FrameCancel = 7"
definition FrameCancelAck :: u8 where [simp]: "FrameCancelAck = 8"
definition FrameHello :: u8 where [simp]: "FrameHello = 9"
definition FrameHelloAck :: u8 where [simp]: "FrameHelloAck = 10"
definition FrameClose :: u8 where [simp]: "FrameClose = 11"
definition FrameTransferBegin :: u8 where [simp]: "FrameTransferBegin = 12"
definition FrameTransferEnd :: u8 where [simp]: "FrameTransferEnd = 13"
definition FrameTransferState :: u8 where [simp]: "FrameTransferState = 14"
definition FrameAuth :: u8 where [simp]: "FrameAuth = 15"
definition FrameAuthAccept :: u8 where [simp]: "FrameAuthAccept = 16"
definition FrameAuthReject :: u8 where [simp]: "FrameAuthReject = 17"
definition FrameRequest :: u8 where [simp]: "FrameRequest = 18"
definition FrameResponse :: u8 where [simp]: "FrameResponse = 19"
definition FrameError :: u8 where [simp]: "FrameError = 20"
definition FrameGoAway :: u8 where [simp]: "FrameGoAway = 21"
definition FrameCloseAck :: u8 where [simp]: "FrameCloseAck = 22"
definition FrameTransferResume :: u8 where [simp]: "FrameTransferResume = 23"

definition FlagFirst :: u16 where [simp]: "FlagFirst = 1"
definition FlagLast :: u16 where [simp]: "FlagLast = 2"
definition FlagAckRequest :: u16 where [simp]: "FlagAckRequest = 4"
definition FlagEncrypted :: u16 where [simp]: "FlagEncrypted = 8"
definition FlagCompressed :: u16 where [simp]: "FlagCompressed = 16"
definition FlagControl :: u16 where [simp]: "FlagControl = 32"

definition knownFrameFlags :: u16 where
  "knownFrameFlags = FlagFirst OR FlagLast OR FlagAckRequest OR FlagEncrypted OR FlagCompressed
     OR FlagControl"

definition PriorityCritical :: u8 where [simp]: "PriorityCritical = 0"
definition PriorityHigh :: u8 where [simp]: "PriorityHigh = 1"
definition PriorityNormal :: u8 where [simp]: "PriorityNormal = 2"
definition PriorityLow :: u8 where [simp]: "PriorityLow = 3"
definition PriorityIdle :: u8 where [simp]: "PriorityIdle = 4"

definition ChannelControl :: u16 where [simp]: "ChannelControl = 0"
definition ChannelRealtime :: u16 where [simp]: "ChannelRealtime = 1"
definition ChannelBulk :: u16 where [simp]: "ChannelBulk = 2"
definition ChannelSync :: u16 where [simp]: "ChannelSync = 3"
definition ChannelBackground :: u16 where [simp]: "ChannelBackground = 4"

definition SchemaHello :: u32 where [simp]: "SchemaHello = 1"
definition SchemaTextMessage :: u32 where [simp]: "SchemaTextMessage = 100"
definition SchemaTransferBegin :: u32 where [simp]: "SchemaTransferBegin = 200"
definition SchemaAck :: u32 where [simp]: "SchemaAck = 201"
definition SchemaCancel :: u32 where [simp]: "SchemaCancel = 202"
definition SchemaNack :: u32 where [simp]: "SchemaNack = 203"
definition SchemaAuth :: u32 where [simp]: "SchemaAuth = 204"
definition SchemaAuthResult :: u32 where [simp]: "SchemaAuthResult = 205"
definition SchemaEvent :: u32 where [simp]: "SchemaEvent = 300"
definition SchemaError :: u32 where [simp]: "SchemaError = 400"
definition SchemaGoAway :: u32 where [simp]: "SchemaGoAway = 401"
definition SchemaClose :: u32 where [simp]: "SchemaClose = 402"
definition SchemaWindow :: u32 where [simp]: "SchemaWindow = 500"
definition SchemaTransferState :: u32 where [simp]: "SchemaTransferState = 501"

section \<open>Headers and frames\<close>

record Header =
  hVersion :: u8
  hFrameType :: u8
  hFlags :: u16
  hPriority :: u8
  hHeaderLength :: u8
  hChannelID :: u16
  hPayloadOffset :: u16
  hHeaderFlags :: u16
  hPayloadLength :: u32
  hSchemaID :: u32
  hRequestID :: u64
  hTransferID :: u64
  hChunkID :: u32

text \<open>The lease of a frame is a pointer: the address of the lease object, \<open>None\<close> for nil.\<close>

record Frame =
  fHeader :: Header
  fPayload :: bytes
  fLease :: "nat option"

definition emptyHeader :: Header where
  "emptyHeader = \<lparr>hVersion = 0, hFrameType = 0, hFlags = 0, hPriority = 0, hHeaderLength = 0,
     hChannelID = 0, hPayloadOffset = 0, hHeaderFlags = 0, hPayloadLength = 0, hSchemaID = 0,
     hRequestID = 0, hTransferID = 0, hChunkID = 0\<rparr>"

definition NewFrame :: "u8 \<Rightarrow> u32 \<Rightarrow> bytes \<Rightarrow> Frame" where
  "NewFrame frameType schemaID payload =
     \<lparr>fHeader = emptyHeader\<lparr>hVersion := WireVersion, hFrameType := frameType, hHeaderLength := 40,
        hPayloadOffset := 40, hPayloadLength := of_nat (length payload), hSchemaID := schemaID\<rparr>,
      fPayload = payload, fLease = None\<rparr>"

definition EncodedFrameSize :: "Frame \<Rightarrow> nat" where
  "EncodedFrameSize frame =
     (if length (fPayload frame) > MaxFrameBytes - HeaderSize then MaxFrameBytes + 1
      else HeaderSize + length (fPayload frame))"

definition validateHeaderValues :: "Header \<Rightarrow> unit go" where
  "validateHeaderValues h =
     (if hFrameType h < FrameData \<or> hFrameType h > FrameTransferResume
      then Inl (Errf ''unknown frame type'' [uint (hFrameType h)])
      else if hPriority h > PriorityIdle
      then Inl (Errf ''invalid frame priority'' [uint (hPriority h)])
      else if hChannelID h > ChannelBackground
      then Inl (Errf ''invalid frame channel'' [uint (hChannelID h)])
      else if hHeaderFlags h \<noteq> 0
      then Inl (Errf ''unsupported header flags'' [uint (hHeaderFlags h)])
      else if hFlags h AND NOT knownFrameFlags \<noteq> 0
      then Inl (Errf ''unsupported frame flags'' [uint (hFlags h)])
      else if hFlags h AND (FlagEncrypted OR FlagCompressed) \<noteq> 0
      then Inl (Err ''encrypted and compressed frame flags are not implemented'')
      else Inr ())"

definition headerWrites :: "Header \<Rightarrow> buf_write list" where
  "headerWrites h =
     [Put 0 [hVersion h], Put 1 [hFrameType h], Put 2 (be16 (hFlags h)), Put 4 [hPriority h],
      Put 5 [hHeaderLength h], Put 6 (be16 (hChannelID h)), Put 8 (be16 (hPayloadOffset h)),
      Put 10 (be16 (hHeaderFlags h)), Put 12 (be32 (hPayloadLength h)), Put 16 (be32 (hSchemaID h)),
      Put 20 (be64 (hRequestID h)), Put 28 (be64 (hTransferID h)), Put 36 (be32 (hChunkID h))]"

definition stampHeader :: "Header \<Rightarrow> nat \<Rightarrow> Header" where
  "stampHeader h payloadLength =
     h\<lparr>hVersion := WireVersion, hHeaderLength := 40, hPayloadOffset := 40,
       hPayloadLength := of_nat payloadLength\<rparr>"

definition EncodeFrameInto :: "bytes \<Rightarrow> Frame \<Rightarrow> bytes go" where
  "EncodeFrameInto dst frame =
     (if length (fPayload frame) > MaxFrameBytes - HeaderSize
      then Inl (Err ''frame exceeds max size'')
      else let h = stampHeader (fHeader frame) (length (fPayload frame));
               n = EncodedFrameSize (frame\<lparr>fHeader := h\<rparr>)
           in if n > MaxFrameBytes then Inl (Err ''frame exceeds max size'')
              else go_try (validateHeaderValues h) (\<lambda>_.
                run_writes (grow dst n) (headerWrites h @ [Copy HeaderSize (fPayload frame)])))"

definition EncodeFrame :: "Frame \<Rightarrow> bytes go" where
  "EncodeFrame frame = EncodeFrameInto [] frame"

definition encodeFrameHeaderInto :: "bytes \<Rightarrow> Header \<Rightarrow> nat \<Rightarrow> bytes go" where
  "encodeFrameHeaderInto out h payloadLength =
     run_writes out (headerWrites (stampHeader h payloadLength))"

definition DecodeHeader :: "bytes \<Rightarrow> Header go" where
  "DecodeHeader data =
     (if length data < HeaderSize
      then Inl (Errf ''frame header too small'' [int (length data)])
      else
        go_try (index_byte data 0) (\<lambda>version.
        go_try (index_byte data 1) (\<lambda>frameType.
        go_try (Uint16 data 2 4) (\<lambda>flags.
        go_try (index_byte data 4) (\<lambda>priority.
        go_try (index_byte data 5) (\<lambda>headerLength.
        go_try (Uint16 data 6 8) (\<lambda>channelID.
        go_try (Uint16 data 8 10) (\<lambda>payloadOffset.
        go_try (Uint16 data 10 12) (\<lambda>headerFlags.
        go_try (Uint32 data 12 16) (\<lambda>payloadLength.
        go_try (Uint32 data 16 20) (\<lambda>schemaID.
        go_try (Uint64 data 20 28) (\<lambda>requestID.
        go_try (Uint64 data 28 36) (\<lambda>transferID.
        go_try (Uint32 data 36 40) (\<lambda>chunkID.
          let h = \<lparr>hVersion = version, hFrameType = frameType, hFlags = flags,
                   hPriority = priority, hHeaderLength = headerLength, hChannelID = channelID,
                   hPayloadOffset = payloadOffset, hHeaderFlags = headerFlags,
                   hPayloadLength = payloadLength, hSchemaID = schemaID, hRequestID = requestID,
                   hTransferID = transferID, hChunkID = chunkID\<rparr>
          in if hVersion h \<noteq> WireVersion
             then Inl (Errf ''unsupported wire version'' [uint (hVersion h)])
             else if unat (hHeaderLength h) \<noteq> HeaderSize \<or> unat (hPayloadOffset h) \<noteq> HeaderSize
             then Inl (Err ''invalid fixed header length or payload offset'')
             else go_try (validateHeaderValues h) (\<lambda>_. Inr h)))))))))))))))"

definition decodeFrameView :: "bytes \<Rightarrow> nat option \<Rightarrow> Frame go" where
  "decodeFrameView data lease =
     (if length data > MaxFrameBytes then Inl (Err ''frame exceeds max size'')
      else go_try (DecodeHeader data) (\<lambda>h.
        let payloadOffset = unat (hPayloadOffset h)
        in if unat (hPayloadLength h) > length data - payloadOffset
           then Inl (Err ''payload exceeds frame length'')
           else let end' = payloadOffset + unat (hPayloadLength h)
                in if end' \<noteq> length data then Inl (Err ''frame has trailing bytes'')
                   else go_try (slice data payloadOffset end') (\<lambda>payload.
                     Inr \<lparr>fHeader = h, fPayload = payload, fLease = lease\<rparr>)))"

definition DecodeFrameView :: "bytes \<Rightarrow> Frame go" where
  "DecodeFrameView data = decodeFrameView data None"

definition DecodeFrame :: "bytes \<Rightarrow> Frame go" where
  "DecodeFrame data = DecodeFrameView data"

text \<open>The copy is made with \<open>make\<close> and \<open>copy\<close>; slices are values here, so it has the same bytes.\<close>

definition DecodeFrameCopy :: "bytes \<Rightarrow> Frame go" where
  "DecodeFrameCopy data =
     go_try (DecodeFrameView data) (\<lambda>frame.
       go_try (run_writes (replicate (length (fPayload frame)) 0) [Copy 0 (fPayload frame)]) (\<lambda>payload.
         Inr (frame\<lparr>fPayload := payload\<rparr>)))"

section \<open>The header codec\<close>

text \<open>Reference layout of the 40-byte header, RFC section 4.\<close>

definition headerBytes :: "Header \<Rightarrow> bytes" where
  "headerBytes h =
     [hVersion h, hFrameType h] @ be16 (hFlags h) @ [hPriority h, hHeaderLength h] @
     be16 (hChannelID h) @ be16 (hPayloadOffset h) @ be16 (hHeaderFlags h) @
     be32 (hPayloadLength h) @ be32 (hSchemaID h) @ be64 (hRequestID h) @ be64 (hTransferID h) @
     be32 (hChunkID h)"

lemma length_headerBytes [simp]: "length (headerBytes h) = 40"
  by (simp add: headerBytes_def)

lemma headerWrites_fill:
  "40 \<le> length out \<Longrightarrow>
     fill [] out (headerWrites h @ ws) = fill (headerBytes h) (drop 40 out) ws"
  by (simp add: headerWrites_def headerBytes_def)

lemma run_headerWrites:
  "40 \<le> length out \<Longrightarrow> run_writes out (headerWrites h) = Inr (headerBytes h @ drop 40 out)"
  using headerWrites_fill [of out h "[]"] by (simp add: run_writes_fill)

definition headerOk :: "Header \<Rightarrow> bool" where
  "headerOk h \<longleftrightarrow> hVersion h = WireVersion \<and> hHeaderLength h = 40 \<and> hPayloadOffset h = 40 \<and>
     validateHeaderValues h = Inr ()"

lemma unat_eq_40 [simp]:
  "unat (x :: u8) = 40 \<longleftrightarrow> x = 40" "unat (y :: u16) = 40 \<longleftrightarrow> y = 40"
  by (unat_arith; simp)+

lemma validateHeaderValues_no_panic [simp]: "validateHeaderValues h \<noteq> Inl GoPanic"
  by (simp add: validateHeaderValues_def)

text \<open>The header fields read off 40 bytes, without the checks.\<close>

definition rawHeader :: "bytes \<Rightarrow> Header" where
  "rawHeader data =
     \<lparr>hVersion = data ! 0, hFrameType = data ! 1, hFlags = rd16 (sl data 2 4),
      hPriority = data ! 4, hHeaderLength = data ! 5, hChannelID = rd16 (sl data 6 8),
      hPayloadOffset = rd16 (sl data 8 10), hHeaderFlags = rd16 (sl data 10 12),
      hPayloadLength = rd32 (sl data 12 16), hSchemaID = rd32 (sl data 16 20),
      hRequestID = rd64 (sl data 20 28), hTransferID = rd64 (sl data 28 36),
      hChunkID = rd32 (sl data 36 40)\<rparr>"

lemma DecodeHeader_eq:
  assumes "40 \<le> length data"
  shows "DecodeHeader data =
     (let h = rawHeader data
      in if hVersion h \<noteq> 1 then Inl (Errf ''unsupported wire version'' [uint (hVersion h)])
         else if hHeaderLength h \<noteq> 40 \<or> hPayloadOffset h \<noteq> 40
         then Inl (Err ''invalid fixed header length or payload offset'')
         else go_try (validateHeaderValues h) (\<lambda>_. Inr h))"
proof -
  have "data \<noteq> []" using assms by auto
  with assms show ?thesis by (simp add: DecodeHeader_def rawHeader_def Let_def)
qed

lemma rawHeader_headerBytes: "rawHeader (headerBytes h @ p) = h"
  by (cases h) (simp add: rawHeader_def headerBytes_def nth_append)

lemma headerBytes_rawHeader:
  assumes "40 \<le> length data" shows "headerBytes (rawHeader data) = take 40 data"
proof -
  have one: "sl data i (Suc i) = [data ! i]" if "i < 40" for i
    using assms that by (simp add: sl_single)
  have "headerBytes (rawHeader data) =
      [data ! 0] @ [data ! 1] @ sl data 2 4 @ [data ! 4] @ [data ! 5] @ sl data 6 40"
    using assms by (simp add: headerBytes_def rawHeader_def sl_join sl_join_append)
  also have "\<dots> = sl data 0 (Suc 0) @ sl data 1 (Suc 1) @ sl data 2 4 @ sl data 4 (Suc 4)
      @ sl data 5 (Suc 5) @ sl data 6 40"
    using one [of 0] one [of 1] one [of 4] one [of 5] by (simp only:)
  also have "\<dots> = sl data 0 40"
    by (simp add: sl_join sl_join_append numeral_2_eq_2)
  finally show ?thesis by (simp add: sl_def)
qed

lemma DecodeHeader_headerBytes: "headerOk h \<Longrightarrow> DecodeHeader (headerBytes h @ p) = Inr h"
  by (simp add: DecodeHeader_eq rawHeader_headerBytes headerOk_def)

lemma DecodeHeader_short: "length data < 40 \<Longrightarrow> \<exists>e. DecodeHeader data = Inl e \<and> e \<noteq> GoPanic"
  by (simp add: DecodeHeader_def)

lemma DecodeHeader_canonical:
  assumes "DecodeHeader data = Inr h"
  shows "headerOk h \<and> 40 \<le> length data \<and> headerBytes h = take 40 data"
proof -
  have "40 \<le> length data"
    using assms by (auto simp: DecodeHeader_def split: if_splits)
  with assms show ?thesis
    by (auto simp: DecodeHeader_eq headerBytes_rawHeader headerOk_def Let_def go_try_eq_Inr
        split: if_splits)
qed

lemma DecodeHeader_no_panic: "DecodeHeader data \<noteq> Inl GoPanic"
proof (cases "length data < 40")
  case True
  then show ?thesis by (simp add: DecodeHeader_def)
next
  case False
  then show ?thesis by (simp add: DecodeHeader_eq Let_def go_try_no_panic)
qed

section \<open>The frame codec\<close>

text \<open>The frame an encoder really sends: its header restamped, its lease left behind.\<close>

definition wireFrame :: "Frame \<Rightarrow> Frame" where
  "wireFrame f = f\<lparr>fHeader := stampHeader (fHeader f) (length (fPayload f)), fLease := None\<rparr>"

definition frameEncodable :: "Frame \<Rightarrow> bool" where
  "frameEncodable f \<longleftrightarrow> length (fPayload f) \<le> MaxFrameBytes - HeaderSize \<and>
     validateHeaderValues (stampHeader (fHeader f) (length (fPayload f))) = Inr ()"

definition frameWf :: "Frame \<Rightarrow> bool" where
  "frameWf f \<longleftrightarrow> frameEncodable f \<and> wireFrame f = f"

lemma hPayloadLength_stamp [simp]: "hPayloadLength (stampHeader h n) = word_of_nat n"
  by (simp add: stampHeader_def)

lemma headerOk_stamp:
  "headerOk (stampHeader h n) \<longleftrightarrow> validateHeaderValues (stampHeader h n) = Inr ()"
  by (simp add: headerOk_def stampHeader_def)

lemma unat_small_length: "n \<le> 8388608 \<Longrightarrow> unat (word_of_nat n :: u32) = n"
  by (simp add: unat_of_nat)

lemma EncodeFrameInto_eq:
  "frameEncodable f \<Longrightarrow>
     EncodeFrameInto dst f =
       Inr (headerBytes (stampHeader (fHeader f) (length (fPayload f))) @ fPayload f)"
  by (simp add: EncodeFrameInto_def frameEncodable_def EncodedFrameSize_def Let_def
      run_writes_fill headerWrites_fill)

lemma EncodeFrameInto_Inr_encodable: "EncodeFrameInto dst f = Inr d \<Longrightarrow> frameEncodable f"
  by (auto simp: EncodeFrameInto_def frameEncodable_def Let_def go_try_eq_Inr split: if_splits)

lemma decodeFrameView_headerBytes:
  assumes "headerOk h" "unat (hPayloadLength h) = length p" "length p \<le> 8388568"
  shows "decodeFrameView (headerBytes h @ p) l = Inr \<lparr>fHeader = h, fPayload = p, fLease = l\<rparr>"
  using assms by (simp add: decodeFrameView_def DecodeHeader_headerBytes Let_def headerOk_def)

lemma decodeFrameView_canonical:
  assumes "decodeFrameView data l = Inr f"
  shows "headerOk (fHeader f) \<and> unat (hPayloadLength (fHeader f)) = length (fPayload f) \<and>
    data = headerBytes (fHeader f) @ fPayload f \<and> length (fPayload f) \<le> 8388568 \<and> fLease f = l"
proof -
  from assms obtain h where h: "DecodeHeader data = Inr h"
    by (auto simp: decodeFrameView_def go_try_eq_Inr split: if_splits)
  note c = DecodeHeader_canonical [OF h]
  then have "hPayloadOffset h = 40" by (simp add: headerOk_def)
  then have "fHeader f = h" "fPayload f = drop 40 data" "fLease f = l"
      "40 + unat (hPayloadLength h) = length data" "length data \<le> 8388608"
    using assms h by (auto simp: decodeFrameView_def Let_def go_try_eq_Inr slice_eq_Inr sl_def split: if_splits)
  with c show ?thesis by (auto simp: append_take_drop_id)
qed

lemma decodeFrameView_no_panic: "decodeFrameView data l \<noteq> Inl GoPanic"
proof -
  have "40 \<le> length data \<and> hPayloadOffset h = 40" if "DecodeHeader data = Inr h" for h
    using DecodeHeader_canonical [OF that] by (simp add: headerOk_def)
  then show ?thesis
    by (auto simp: decodeFrameView_def go_try_no_panic DecodeHeader_no_panic Let_def)
qed

interpretation frame_codec: canonical_codec EncodeFrame DecodeFrameView frameWf
proof
  fix m assume wf: "frameWf m"
  then have "stampHeader (fHeader m) (length (fPayload m)) = fHeader m" "fLease m = None"
    by (cases m, simp add: frameWf_def wireFrame_def)+
  moreover from this(1) have "hPayloadLength (fHeader m) = word_of_nat (length (fPayload m))"
    by (metis (no_types) Header.select_convs(9) Header.surjective Header.update_convs(9) stampHeader_def)
  moreover from calculation(1) wf have "headerOk (fHeader m)" "length (fPayload m) \<le> 8388568"
    by (metis frameEncodable_def frameWf_def headerOk_stamp) (use wf in \<open>simp add: frameWf_def frameEncodable_def\<close>)
  ultimately show "\<exists>p. EncodeFrame m = Inr p \<and> DecodeFrameView p = Inr m"
    using wf
    by (cases m) (simp add: EncodeFrame_def EncodeFrameInto_eq frameWf_def DecodeFrameView_def
        decodeFrameView_headerBytes unat_small_length)
next
  show "DecodeFrameView p \<noteq> Inl GoPanic" for p
    by (simp add: DecodeFrameView_def decodeFrameView_no_panic)
next
  fix p m assume "DecodeFrameView p = Inr m"
  then have c: "headerOk (fHeader m)" "unat (hPayloadLength (fHeader m)) = length (fPayload m)"
      "p = headerBytes (fHeader m) @ fPayload m" "length (fPayload m) \<le> 8388568" "fLease m = None"
    using decodeFrameView_canonical by (auto simp: DecodeFrameView_def)
  then have "word_of_nat (length (fPayload m)) = hPayloadLength (fHeader m)"
    by (metis of_nat_unat ucast_id)
  with c have s: "stampHeader (fHeader m) (length (fPayload m)) = fHeader m"
    by (cases "fHeader m") (simp add: stampHeader_def headerOk_def)
  with c have "frameEncodable m"
    by (simp add: frameEncodable_def headerOk_def)
  with c s show "frameWf m \<and> EncodeFrame m = Inr p"
    by (cases m) (simp add: EncodeFrame_def EncodeFrameInto_eq frameWf_def wireFrame_def)
qed

section \<open>Properties\<close>

lemma EncodeFrameInto_no_panic: "EncodeFrameInto dst f \<noteq> Inl GoPanic"
  by (auto simp: EncodeFrameInto_def EncodedFrameSize_def Let_def go_try_no_panic
      run_writes_fill headerWrites_fill)

lemma EncodeFrameInto_buffer: "EncodeFrameInto dst f = EncodeFrameInto dst' f"
  by (simp add: EncodeFrameInto_def EncodedFrameSize_def Let_def run_writes_fill headerWrites_fill)

lemma DecodeFrame_wire:
  assumes "frameEncodable f"
  shows "DecodeFrame (headerBytes (stampHeader (fHeader f) (length (fPayload f))) @ fPayload f)
    = Inr (wireFrame f)"
  using assms
  by (cases f) (simp add: DecodeFrame_def DecodeFrameView_def decodeFrameView_headerBytes
      frameEncodable_def headerOk_stamp wireFrame_def unat_small_length)

text \<open>C26: A frame the encoder accepts, written into any reused buffer, decodes to the same frame
  with its header restamped (version 1, header length and payload offset 40, the payload's length).\<close>

theorem frame_encode_decode:
  assumes "frameEncodable f"
  shows "go_try (EncodeFrameInto dst f) DecodeFrame = Inr (wireFrame f)"
  using assms by (simp add: EncodeFrameInto_eq DecodeFrame_wire)

theorem frame_encode_decode_witness:
  "go_try (EncodeFrameInto [9, 9, 9] (NewFrame FrameNack SchemaNack [1, 2, 3])) DecodeFrame
     = Inr (wireFrame (NewFrame FrameNack SchemaNack [1, 2, 3]))"
  by (rule frame_encode_decode)
    (simp add: frameEncodable_def NewFrame_def stampHeader_def emptyHeader_def
      validateHeaderValues_def)

text \<open>C25: The decoder is exact and total: whatever bytes a peer sends it never panics, and it
  accepts a byte string precisely when that string is the encoding of a well-formed frame, which
  it returns. So two different byte strings never decode to the same frame.\<close>

theorem frame_decode_exact:
  "DecodeFrame d \<noteq> Inl GoPanic \<and> (DecodeFrame d = Inr f \<longleftrightarrow> frameWf f \<and> EncodeFrame f = Inr d)"
  using frame_codec.dec_no_panic [of d] frame_codec.dec_iff_enc [of d f]
  by (simp add: DecodeFrame_def)

text \<open>Encoding never panics, does not depend on what the destination buffer held (no stale byte
  reaches the wire), succeeds exactly on the encodable frames, and then produces
  \<open>EncodedFrameSize\<close> bytes, at most \<open>MaxFrameBytes\<close>.\<close>

theorem frame_encode_total:
  "EncodeFrameInto dst f \<noteq> Inl GoPanic \<and> EncodeFrameInto dst f = EncodeFrame f \<and>
   (if frameEncodable f
    then \<exists>d. EncodeFrameInto dst f = Inr d \<and> length d = EncodedFrameSize f \<and> length d \<le> MaxFrameBytes
    else \<exists>e. EncodeFrameInto dst f = Inl e)"
proof (cases "frameEncodable f")
  case True
  then show ?thesis
    by (simp add: EncodeFrameInto_eq EncodeFrame_def frameEncodable_def EncodedFrameSize_def)
next
  case False
  then have "\<exists>e. EncodeFrameInto dst f = Inl e"
    using EncodeFrameInto_Inr_encodable by (metis sum.exhaust_sel)
  with False show ?thesis
    using EncodeFrameInto_no_panic EncodeFrameInto_buffer by (auto simp: EncodeFrame_def)
qed

text \<open>The fast path of the senders, which lays the payload into the frame buffer first and then
  stamps the header over its first 40 bytes, yields the bytes of \<open>EncodeFrame\<close>.\<close>

theorem frame_fast_path_equivalent:
  assumes "frameEncodable \<lparr>fHeader = h, fPayload = p, fLease = l\<rparr>" and "length buf = HeaderSize"
  shows "go_try (encodeFrameHeaderInto buf h (length p)) (\<lambda>hd. Inr (hd @ p))
    = EncodeFrame \<lparr>fHeader = h, fPayload = p, fLease = l\<rparr>"
  using assms
  by (simp add: encodeFrameHeaderInto_def EncodeFrame_def EncodeFrameInto_eq run_headerWrites)

theorem frame_fast_path_equivalent_witness:
  "go_try (encodeFrameHeaderInto (replicate 40 7) (emptyHeader\<lparr>hFrameType := FramePing\<rparr>) (length [5 :: u8]))
      (\<lambda>hd. Inr (hd @ [5]))
    = EncodeFrame \<lparr>fHeader = emptyHeader\<lparr>hFrameType := FramePing\<rparr>, fPayload = [5], fLease = None\<rparr>"
  by (rule frame_fast_path_equivalent)
    (simp_all add: frameEncodable_def stampHeader_def emptyHeader_def validateHeaderValues_def)

end
