(* ===== verification/Etp_Lease.thy ===== *)
theory Etp_Lease
  imports Etp_Frame "HOL-Library.Multiset"
begin

text \<open>
  The buffer pools and frame leases of \<open>frame.go\<close>. A lease is shared by the goroutines a frame passes through; its
  count is an atomic \<open>int32\<close> changed by compare-and-swap loops, modelled as a step relation cut at the atomic
  operations.
\<close>

section \<open>Buffer pools\<close>

text \<open>A pooled \<open>*[]byte\<close>: its backing array up to the capacity, and the length of the slice. \<open>sync.Pool\<close> may give
  any buffer that was put into it or a new one, so what \<open>Get\<close> returns is an argument, \<open>None\<close> for a new one;
  the result of a put is what enters the pool.\<close>

record Buffer =
  bufArray :: bytes
  bufLen :: nat

definition bufData :: "Buffer \<Rightarrow> bytes" where
  "bufData b = take (bufLen b) (bufArray b)"

definition frameBufferPool_Get :: "Buffer option \<Rightarrow> Buffer" where
  "frameBufferPool_Get pooled =
     (case pooled of Some b \<Rightarrow> b | None \<Rightarrow> \<lparr>bufArray = replicate (HeaderSize + DefaultChunkSize) 0, bufLen = 0\<rparr>)"

definition chunkBufferPool_Get :: "Buffer option \<Rightarrow> Buffer" where
  "chunkBufferPool_Get pooled =
     (case pooled of Some b \<Rightarrow> b | None \<Rightarrow> \<lparr>bufArray = replicate DefaultChunkSize 0, bufLen = DefaultChunkSize\<rparr>)"

definition getFrameBuffer :: "nat \<Rightarrow> Buffer option \<Rightarrow> Buffer" where
  "getFrameBuffer n pooled =
     (let b = frameBufferPool_Get pooled
      in if length (bufArray b) < n then \<lparr>bufArray = replicate n 0, bufLen = 0\<rparr> else b)"

definition putFrameBuffer :: "Buffer option \<Rightarrow> Buffer option" where
  "putFrameBuffer bufp =
     (case bufp of
        None \<Rightarrow> None
      | Some b \<Rightarrow> if length (bufArray b) > MaxPooledFrameBytes then None else Some (b\<lparr>bufLen := 0\<rparr>))"

definition getChunkBuffer :: "nat \<Rightarrow> Buffer option \<Rightarrow> Buffer" where
  "getChunkBuffer n pooled =
     (let b = chunkBufferPool_Get pooled
      in if length (bufArray b) < n then \<lparr>bufArray = replicate n 0, bufLen = n\<rparr> else b\<lparr>bufLen := n\<rparr>)"

definition putChunkBuffer :: "Buffer option \<Rightarrow> Buffer option" where
  "putChunkBuffer bufp =
     (case bufp of
        None \<Rightarrow> None
      | Some b \<Rightarrow> if length (bufArray b) > MaxFrameBytes then None else Some (b\<lparr>bufLen := length (bufArray b)\<rparr>))"

section \<open>Frame leases\<close>

text \<open>The callback \<open>release\<close> and the object \<open>releaser\<close> are known by a number only. What the last release does
  is an effect: it puts the buffer into the pool, or hands the data back.\<close>

record FrameLease =
  flData :: bytes
  flRefs :: "32 word"
  flRelease :: "nat option"
  flReleaser :: "nat option"
  flBufp :: "Buffer option"

datatype leaseEffect = PutBuffer "Buffer option" | CallReleaser nat bytes | CallRelease nat bytes | NoEffect

definition NewFrameLease :: "bytes \<Rightarrow> nat option \<Rightarrow> FrameLease" where
  "NewFrameLease data release = \<lparr>flData = data, flRefs = 1, flRelease = release, flReleaser = None, flBufp = None\<rparr>"

definition InitFrameLease :: "FrameLease option \<Rightarrow> bytes \<Rightarrow> nat option \<Rightarrow> FrameLease go" where
  "InitFrameLease lease data releaser =
     (case lease of
        None \<Rightarrow> Inl GoPanic
      | Some l \<Rightarrow>
          if flRefs l \<noteq> 0 then Inl GoPanic
          else Inr (l\<lparr>flData := data, flRelease := None, flReleaser := releaser, flBufp := None, flRefs := 1\<rparr>))"

definition newPooledFrameLease :: "Buffer \<Rightarrow> FrameLease" where
  "newPooledFrameLease b = \<lparr>flData = bufData b, flRefs = 1, flRelease = None, flReleaser = None, flBufp = Some b\<rparr>"

text \<open>\<open>Retain\<close> and \<open>Release\<close> load the count, check it and try to replace it. Their loop is cut at the
  two atomic operations: \<open>leaseLoad\<close> is the load with the check for a count that is not positive (a panic), and the
  two swaps succeed when the count is still the one loaded; otherwise the loop starts again.\<close>

definition leaseLoad :: "FrameLease \<Rightarrow> (32 word) go" where
  "leaseLoad l = (let refs = flRefs l in if refs \<le>s 0 then Inl GoPanic else Inr refs)"

definition retainSwap :: "32 word \<Rightarrow> FrameLease \<Rightarrow> FrameLease option" where
  "retainSwap refs l = (if flRefs l = refs then Some (l\<lparr>flRefs := refs + 1\<rparr>) else None)"

definition releaseSwap :: "32 word \<Rightarrow> FrameLease \<Rightarrow> FrameLease option" where
  "releaseSwap refs l = (if flRefs l = refs then Some (l\<lparr>flRefs := refs - 1\<rparr>) else None)"

definition releaseLast :: "FrameLease \<Rightarrow> leaseEffect \<times> FrameLease" where
  "releaseLast l =
     (if flBufp l \<noteq> None then (PutBuffer (putFrameBuffer (flBufp l)), l)
      else case flReleaser l of
             Some r \<Rightarrow> (CallReleaser r (flData l), l\<lparr>flData := [], flReleaser := None\<rparr>)
           | None \<Rightarrow> (case flRelease l of Some r \<Rightarrow> (CallRelease r (flData l), l) | None \<Rightarrow> (NoEffect, l)))"

text \<open>A call that is not disturbed: \<open>lease.Retain()\<close> and \<open>lease.Release()\<close> on a pointer that may be nil.\<close>

definition Retain :: "FrameLease option \<Rightarrow> (FrameLease option) go" where
  "Retain lease =
     (case lease of
        None \<Rightarrow> Inr None
      | Some l \<Rightarrow> go_try (leaseLoad l) (\<lambda>refs. Inr (retainSwap refs l)))"

definition Release :: "FrameLease option \<Rightarrow> (leaseEffect option \<times> FrameLease option) go" where
  "Release lease =
     (case lease of
        None \<Rightarrow> Inr (None, None)
      | Some l \<Rightarrow> go_try (leaseLoad l) (\<lambda>refs.
          case releaseSwap refs l of
            None \<Rightarrow> Inr (None, Some l)
          | Some l \<Rightarrow> if refs \<noteq> 1 then Inr (None, Some l)
                      else (case releaseLast l of (e, l) \<Rightarrow> Inr (Some e, Some l))))"

section \<open>Goroutines that share a lease\<close>

text \<open>
  Every reference belongs to a goroutine (\<open>lsHeld\<close>, a bookkeeping multiset the program does not have): the one that
  created the lease or that retained it, until it releases it or passes it on with the frame through a
  channel. A goroutine is between two calls, has loaded the count in \<open>Retain\<close> or in \<open>Release\<close>, or has swapped the
  count to zero and is about to run the last release.
\<close>

datatype leasePc = Between | Retaining "32 word" | Releasing "32 word" | Last

record leaseSys =
  lsLease :: FrameLease
  lsHeld :: "nat multiset"
  lsPc :: "nat \<Rightarrow> leasePc"
  lsEffects :: "leaseEffect list"
  lsPanic :: bool

definition leaseStart :: "FrameLease \<Rightarrow> nat \<Rightarrow> leaseSys" where
  "leaseStart l g = \<lparr>lsLease = l, lsHeld = {#g#}, lsPc = (\<lambda>_. Between), lsEffects = [], lsPanic = False\<rparr>"

inductive lease_step :: "leaseSys \<Rightarrow> leaseSys \<Rightarrow> bool" where
  pass_on: "g \<in># lsHeld y \<Longrightarrow> lsPc y g = Between \<Longrightarrow>
     lease_step y (y\<lparr>lsHeld := add_mset g' (lsHeld y - {#g#})\<rparr>)"
| retain_load: "g \<in># lsHeld y \<Longrightarrow> lsPc y g = Between \<Longrightarrow> leaseLoad (lsLease y) = Inr refs \<Longrightarrow>
     lease_step y (y\<lparr>lsPc := (lsPc y)(g := Retaining refs)\<rparr>)"
| release_load: "g \<in># lsHeld y \<Longrightarrow> lsPc y g = Between \<Longrightarrow> leaseLoad (lsLease y) = Inr refs \<Longrightarrow>
     lease_step y (y\<lparr>lsPc := (lsPc y)(g := Releasing refs)\<rparr>)"
| load_panic: "g \<in># lsHeld y \<Longrightarrow> lsPc y g = Between \<Longrightarrow> leaseLoad (lsLease y) = Inl GoPanic \<Longrightarrow>
     lease_step y (y\<lparr>lsPanic := True\<rparr>)"
| retain_swap: "lsPc y g = Retaining refs \<Longrightarrow> retainSwap refs (lsLease y) = Some l \<Longrightarrow> size (lsHeld y) < 2 ^ 31 - 1 \<Longrightarrow>
     lease_step y (y\<lparr>lsLease := l, lsHeld := add_mset g (lsHeld y), lsPc := (lsPc y)(g := Between)\<rparr>)"
| release_swap: "lsPc y g = Releasing refs \<Longrightarrow> releaseSwap refs (lsLease y) = Some l \<Longrightarrow>
     lease_step y (y\<lparr>lsLease := l, lsHeld := lsHeld y - {#g#}, lsPc := (lsPc y)(g := if refs \<noteq> 1 then Between else Last)\<rparr>)"
| swap_failed: "lsPc y g = Retaining refs \<and> retainSwap refs (lsLease y) = None
       \<or> lsPc y g = Releasing refs \<and> releaseSwap refs (lsLease y) = None \<Longrightarrow>
     lease_step y (y\<lparr>lsPc := (lsPc y)(g := Between)\<rparr>)"
| last_release: "lsPc y g = Last \<Longrightarrow> releaseLast (lsLease y) = (e, l) \<Longrightarrow>
     lease_step y (y\<lparr>lsLease := l, lsEffects := lsEffects y @ [e], lsPc := (lsPc y)(g := Between)\<rparr>)"

inductive lease_reachable :: "FrameLease \<Rightarrow> leaseSys \<Rightarrow> bool" for l0 where
  lease_new: "lease_reachable l0 (leaseStart l0 g)"
| lease_next: "lease_reachable l0 y \<Longrightarrow> lease_step y y' \<Longrightarrow> lease_reachable l0 y'"

text \<open>The count is exact; who is inside a call holds a reference; the last release happens when nobody does.\<close>

definition leaseInv :: "leaseSys \<Rightarrow> bool" where
  "leaseInv y \<longleftrightarrow> \<not> lsPanic y \<and> flRefs (lsLease y) = of_nat (size (lsHeld y)) \<and> size (lsHeld y) < 2 ^ 31
     \<and> (\<forall>g. lsPc y g \<noteq> Between \<and> lsPc y g \<noteq> Last \<longrightarrow> g \<in># lsHeld y)
     \<and> (lsHeld y \<noteq> {#} \<longrightarrow> lsEffects y = [] \<and> (\<forall>g. lsPc y g \<noteq> Last))
     \<and> (lsHeld y = {#} \<longrightarrow> (\<exists>g. lsPc y = (\<lambda>_. Between)(g := Last)) \<and> lsEffects y = []
          \<or> lsPc y = (\<lambda>_. Between) \<and> length (lsEffects y) = 1)"

lemma count_sless:
  assumes "n < 2 ^ 31"
  shows "(of_nat n :: 32 word) \<le>s 0 \<longleftrightarrow> n = 0" "(of_nat n :: 32 word) = 0 \<longleftrightarrow> n = 0" "(of_nat n :: 32 word) = 1 \<longleftrightarrow> n = 1"
proof -
  have s: "sint (of_nat n :: 32 word) = int n"
    using assms by (simp add: signed_of_nat signed_take_bit_int_eq_self)
  show "(of_nat n :: 32 word) \<le>s 0 \<longleftrightarrow> n = 0" unfolding word_sle_eq s by simp
  have u: "unat (of_nat n :: 32 word) = n"
    using assms by (simp add: unat_of_nat take_bit_nat_eq_self)
  show "(of_nat n :: 32 word) = 0 \<longleftrightarrow> n = 0" "(of_nat n :: 32 word) = 1 \<longleftrightarrow> n = 1"
    unfolding word_unat_eq_iff u by simp_all
qed

lemma leaseInv_start: "flRefs l = 1 \<Longrightarrow> leaseInv (leaseStart l g)"
  by (simp add: leaseInv_def leaseStart_def)

lemma leaseInv_held: "leaseInv y \<Longrightarrow> lsPc y g = Retaining r \<or> lsPc y g = Releasing r \<Longrightarrow> \<exists>H. lsHeld y = add_mset g H"
  unfolding leaseInv_def by (metis leasePc.distinct(1,3,9,11) multi_member_split)

lemma lease_step_inv: "lease_step y y' \<Longrightarrow> leaseInv y \<Longrightarrow> leaseInv y'"
proof (induction rule: lease_step.induct)
  case (pass_on g y g')
  then obtain H where "lsHeld y = add_mset g H" by (meson multi_member_split)
  then show ?case using pass_on unfolding leaseInv_def by auto
next
  case (retain_load g y refs)
  then have "lsHeld y \<noteq> {#}" by auto
  then show ?case using retain_load unfolding leaseInv_def by auto
next
  case (release_load g y refs)
  then have "lsHeld y \<noteq> {#}" by auto
  then show ?case using release_load unfolding leaseInv_def by auto
next
  case (load_panic g y)
  then show ?case by (auto simp: leaseInv_def leaseLoad_def count_sless split: if_splits)
next
  case (retain_swap y g refs l)
  then obtain H where h: "lsHeld y = add_mset g H" using leaseInv_held by blast
  from retain_swap have "l = (lsLease y)\<lparr>flRefs := flRefs (lsLease y) + 1\<rparr>" by (auto simp: retainSwap_def split: if_splits)
  then show ?case using retain_swap h unfolding leaseInv_def by (auto simp: add.commute)
next
  case (release_swap y g refs l)
  then obtain H where H: "lsHeld y = add_mset g H" using leaseInv_held by blast
  have l: "l = (lsLease y)\<lparr>flRefs := of_nat (size H)\<rparr>" and r: "refs = of_nat (Suc (size H))" and n: "Suc (size H) < 2 ^ 31"
    using release_swap H by (auto simp: releaseSwap_def leaseInv_def split: if_splits)
  show ?case
  proof (cases "H = {#}")
    case True
    then have "refs = 1" by (simp add: r)
    moreover have "lsPc y h = Between" if "h \<noteq> g" for h
      using that release_swap(3) H True by (auto simp: leaseInv_def)
    then have pc: "(lsPc y)(g := Last) = (\<lambda>_. Between)(g := Last)" by (simp add: fun_eq_iff)
    have "\<exists>g'. (\<lambda>_. Between)(g := Last) = (\<lambda>_. Between)(g' := Last)" by blast
    ultimately show ?thesis
      using release_swap(3) H True l by (simp add: leaseInv_def pc)
  next
    case False
    then have "refs \<noteq> 1" using count_sless(3) [OF n] by (simp add: r)
    then show ?thesis
      using release_swap(3) H False l n by (auto simp: leaseInv_def)
  qed
next
  case (swap_failed y g refs)
  then obtain H where "lsHeld y = add_mset g H" using leaseInv_held by blast
  then show ?case using swap_failed unfolding leaseInv_def by auto
next
  case (last_release y g e l)
  then have h: "lsHeld y = {#}" "lsPc y = (\<lambda>_. Between)(g := Last)" "lsEffects y = []"
    by (auto simp: leaseInv_def) (metis fun_upd_apply leasePc.distinct(5))+
  have "flRefs l = flRefs (lsLease y)"
    using last_release(2) by (auto simp: releaseLast_def split: if_splits option.splits)
  with h last_release(3) show ?case by (auto simp: leaseInv_def)
qed


lemma lease_reachable_inv: "lease_reachable l0 y \<Longrightarrow> flRefs l0 = 1 \<Longrightarrow> leaseInv y"
  by (induction rule: lease_reachable.induct) (simp_all add: leaseInv_start lease_step_inv)

lemma lease_reachable_content:
  "lease_reachable l0 y \<Longrightarrow> flRefs l0 = 1 \<Longrightarrow>
   (lsEffects y = [] \<longrightarrow> (\<exists>r. lsLease y = l0\<lparr>flRefs := r\<rparr>)) \<and> (lsEffects y \<noteq> [] \<longrightarrow> lsEffects y = [fst (releaseLast l0)])"
proof (induction rule: lease_reachable.induct)
  case (lease_new g)
  show ?case by (auto simp: leaseStart_def intro: exI [of _ "flRefs l0"])
next
  case (lease_next y y')
  have inv: "leaseInv y" using lease_next by (simp add: lease_reachable_inv)
  from lease_next(2) show ?case
  proof cases
    case (last_release g e l)
    then have h: "lsEffects y = []" using inv by (auto simp: leaseInv_def)
    then obtain r where "lsLease y = l0\<lparr>flRefs := r\<rparr>" using lease_next by auto
    then have "e = fst (releaseLast l0)"
      using last_release(3) by (auto simp: releaseLast_def split: if_splits option.splits)
    then show ?thesis using last_release h by simp
  qed (use lease_next in \<open>auto simp: retainSwap_def releaseSwap_def split: if_splits\<close>)
qed

text \<open>C20: The references of a frame lease are counted exactly under every interleaving of goroutines that
  retain, release and pass on references they hold (fewer than \<open>2^31\<close> of them): no call panics, the lease keeps
  its data as long as anyone holds it, and the buffer is returned once, by the last release only.\<close>

theorem lease_released_once:
  assumes "lease_reachable l0 y" "flRefs l0 = 1"
  shows "\<not> lsPanic y \<and> unat (flRefs (lsLease y)) = size (lsHeld y)
    \<and> (lsHeld y \<noteq> {#} \<longrightarrow> lsEffects y = [] \<and> flData (lsLease y) = flData l0)
    \<and> (lsHeld y = {#} \<and> (\<forall>g. lsPc y g = Between) \<longrightarrow> lsEffects y = [fst (releaseLast l0)])"
proof -
  have inv: "leaseInv y" using assms by (simp add: lease_reachable_inv)
  then have "\<not> lsPanic y" "unat (flRefs (lsLease y)) = size (lsHeld y)"
    by (auto simp: leaseInv_def unat_of_nat take_bit_nat_eq_self)
  moreover have "lsEffects y = [] \<and> flData (lsLease y) = flData l0" if "lsHeld y \<noteq> {#}"
    using inv that lease_reachable_content [OF assms] by (auto simp: leaseInv_def)
  moreover have "lsEffects y = [fst (releaseLast l0)]" if "lsHeld y = {#}" "\<forall>g. lsPc y g = Between"
    using inv that lease_reachable_content [OF assms] by (auto simp: leaseInv_def split: if_splits)
  ultimately show ?thesis by blast
qed

theorem lease_released_once_witness:
  defines "l \<equiv> newPooledFrameLease \<lparr>bufArray = [1, 2, 3], bufLen = 2\<rparr>"
  defines "y \<equiv> (leaseStart l 7)\<lparr>lsPc := (\<lambda>_. Between)(7 := Releasing 1)\<rparr>"
  defines "y' \<equiv> y\<lparr>lsLease := l\<lparr>flRefs := 0\<rparr>, lsHeld := {#}, lsPc := (\<lambda>_. Between)(7 := Last)\<rparr>"
  defines "y'' \<equiv> y'\<lparr>lsEffects := [PutBuffer (Some \<lparr>bufArray = [1, 2, 3], bufLen = 0\<rparr>)], lsPc := (\<lambda>_. Between)(7 := Between)\<rparr>"
  shows "lease_reachable l y'' \<and> \<not> lsPanic y'' \<and> lsEffects y'' = [fst (releaseLast l)]"
proof -
  have f: "flRefs l = 1" "flBufp l = Some \<lparr>bufArray = [1, 2, 3], bufLen = 2\<rparr>" by (simp_all add: l_def newPooledFrameLease_def)
  have "lease_step (leaseStart l 7) y"
    unfolding y_def using lease_step.release_load [of 7 "leaseStart l 7" 1]
    by (simp add: leaseStart_def leaseLoad_def f word_sle_eq)
  moreover have "lease_step y y'"
    using lease_step.release_swap [of y 7 1 "l\<lparr>flRefs := 0\<rparr>"]
    by (simp add: y_def y'_def leaseStart_def releaseSwap_def f)
  moreover have "lease_step y' y''"
    using lease_step.last_release [of y' 7 "PutBuffer (Some \<lparr>bufArray = [1, 2, 3], bufLen = 0\<rparr>)" "l\<lparr>flRefs := 0\<rparr>"]
    by (simp add: y'_def y_def y''_def leaseStart_def releaseLast_def putFrameBuffer_def f)
  ultimately have r: "lease_reachable l y''" by (meson lease_new lease_next)
  have "lsHeld y'' = {#}" "\<forall>g. lsPc y'' g = Between" by (simp_all add: y''_def y'_def)
  then show ?thesis using r lease_released_once [OF r f(1)] by simp
qed

end
