(* ===== verification/Etp_Control.thy ===== *)
theory Etp_Control
  imports Etp_Frame
begin

text \<open>
  The helpers of \<open>internal/etp/payload.go\<close> and its fixed-size control payloads: acknowledgements,
  negative acknowledgements, cancellation, windows, transfer states and close messages. Every
  format is shown to be a canonical codec: the decoder accepts exactly the encodings of
  well-formed messages and never panics.
\<close>

section \<open>Helpers\<close>

definition checkedPayloadEnd :: "bytes \<Rightarrow> nat \<Rightarrow> u32 \<Rightarrow> nat \<times> bool" where
  "checkedPayloadEnd payload start n =
     (if start > length payload \<or> unat n > length payload - start then (0, False)
      else (start + unat n, True))"

definition saturatedInt :: "u64 \<Rightarrow> int" where
  "saturatedInt v = (let maxInt = drop_bit 1 (NOT 0 :: u64) in if v > maxInt then uint maxInt else uint v)"

fun zeroBytes :: "bytes \<Rightarrow> bool" where
  "zeroBytes [] = True"
| "zeroBytes (b # bs) = (if b \<noteq> 0 then False else zeroBytes bs)"

definition encodeString :: "string \<Rightarrow> bytes go" where
  "encodeString s =
     (let b = bytes_of_string s
      in if length b > MaxFrameBytes - HeaderSize - 4 then Inr []
         else run_writes (replicate (4 + length b) 0) [Put 0 (be32 (of_nat (length b))), Copy 4 b])"

definition decodeString :: "bytes \<Rightarrow> string go" where
  "decodeString payload =
     (if length payload < 4 then Inl (Err ''string payload too small'')
      else go_try (Uint32 payload 0 4) (\<lambda>n.
        let (end', ok) = checkedPayloadEnd payload 4 n
        in if \<not> ok \<or> end' \<noteq> length payload then Inl (Err ''invalid string length'')
           else go_try (slice payload 4 end') (\<lambda>b. Inr (string_of_bytes b))))"

definition EncodeTextMessage :: "string \<Rightarrow> bytes go" where
  "EncodeTextMessage text' = encodeString text'"

definition EncodeTextMessageInto :: "bytes \<Rightarrow> string \<Rightarrow> bytes go" where
  "EncodeTextMessageInto dst text' =
     (if length text' > MaxFrameBytes - HeaderSize - 4 then Inr []
      else run_writes (grow dst (4 + length text'))
        [Put 0 (be32 (of_nat (length text'))), Copy 4 (bytes_of_string text')])"

definition DecodeTextMessage :: "bytes \<Rightarrow> string go" where
  "DecodeTextMessage payload = decodeString payload"

section \<open>Acknowledgements\<close>

record Ack =
  ackTransferID :: u64
  ackChunkFrom :: u32
  ackChunkTo :: u32
  ackReceivedBytes :: u64

definition EncodeAck :: "Ack \<Rightarrow> bytes go" where
  "EncodeAck v =
     run_writes (replicate 24 0)
       [Put 0 (be64 (ackTransferID v)), Put 8 (be32 (ackChunkFrom v)), Put 12 (be32 (ackChunkTo v)),
        Put 16 (be64 (ackReceivedBytes v))]"

definition DecodeAck :: "bytes \<Rightarrow> Ack go" where
  "DecodeAck payload =
     (if length payload \<noteq> 24 then Inl (Err ''invalid ack payload length'')
      else
        go_try (Uint64 payload 0 8) (\<lambda>transferID.
        go_try (Uint32 payload 8 12) (\<lambda>chunkFrom.
        go_try (Uint32 payload 12 16) (\<lambda>chunkTo.
        go_try (Uint64 payload 16 24) (\<lambda>receivedBytes.
          Inr \<lparr>ackTransferID = transferID, ackChunkFrom = chunkFrom, ackChunkTo = chunkTo,
               ackReceivedBytes = receivedBytes\<rparr>)))))"

section \<open>Negative acknowledgements\<close>

definition NackMissingChunk :: u16 where [simp]: "NackMissingChunk = 1"
definition NackInvalidChunk :: u16 where [simp]: "NackInvalidChunk = 2"
definition NackTransferUnknown :: u16 where [simp]: "NackTransferUnknown = 3"
definition NackTransferCanceled :: u16 where [simp]: "NackTransferCanceled = 4"
definition NackWriteFailed :: u16 where [simp]: "NackWriteFailed = 5"
definition NackProtocolError :: u16 where [simp]: "NackProtocolError = 6"
definition NackFlowControl :: u16 where [simp]: "NackFlowControl = 7"

record Nack =
  nackTransferID :: u64
  nackChunkFrom :: u32
  nackChunkTo :: u32
  nackReasonCode :: u16
  nackFlags :: u16

definition EncodeNack :: "Nack \<Rightarrow> bytes go" where
  "EncodeNack v =
     run_writes (replicate 20 0)
       [Put 0 (be64 (nackTransferID v)), Put 8 (be32 (nackChunkFrom v)),
        Put 12 (be32 (nackChunkTo v)), Put 16 (be16 (nackReasonCode v)), Put 18 (be16 (nackFlags v))]"

definition DecodeNack :: "bytes \<Rightarrow> Nack go" where
  "DecodeNack payload =
     (if length payload \<noteq> 20 then Inl (Err ''invalid nack payload length'')
      else
        go_try (Uint16 payload 16 18) (\<lambda>reason.
        go_try (Uint16 payload 18 20) (\<lambda>flags.
          if reason < NackMissingChunk \<or> reason > NackFlowControl \<or> flags \<noteq> 0
          then Inl (Err ''invalid nack reason or flags'')
          else
            go_try (Uint64 payload 0 8) (\<lambda>transferID.
            go_try (Uint32 payload 8 12) (\<lambda>chunkFrom.
            go_try (Uint32 payload 12 16) (\<lambda>chunkTo.
              Inr \<lparr>nackTransferID = transferID, nackChunkFrom = chunkFrom, nackChunkTo = chunkTo,
                   nackReasonCode = reason, nackFlags = 0\<rparr>))))))"

section \<open>Cancellation\<close>

definition CancelUser :: u16 where [simp]: "CancelUser = 1"
definition CancelTimeout :: u16 where [simp]: "CancelTimeout = 2"
definition CancelNetwork :: u16 where [simp]: "CancelNetwork = 3"
definition CancelRejected :: u16 where [simp]: "CancelRejected = 4"
definition CancelProtocol :: u16 where [simp]: "CancelProtocol = 5"
definition CancelDeletePartial :: u16 where [simp]: "CancelDeletePartial = 1"
definition CancelSilent :: u16 where [simp]: "CancelSilent = 2"
definition CancelAckOK :: u8 where [simp]: "CancelAckOK = 1"
definition CancelAckNotFound :: u8 where [simp]: "CancelAckNotFound = 2"
definition CancelAckCompleted :: u8 where [simp]: "CancelAckCompleted = 3"

record Cancel =
  cancelTransferID :: u64
  cancelReasonCode :: u16
  cancelFlags :: u16

definition EncodeCancel :: "Cancel \<Rightarrow> bytes go" where
  "EncodeCancel v =
     run_writes (replicate 12 0)
       [Put 0 (be64 (cancelTransferID v)), Put 8 (be16 (cancelReasonCode v)),
        Put 10 (be16 (cancelFlags v))]"

definition DecodeCancel :: "bytes \<Rightarrow> Cancel go" where
  "DecodeCancel payload =
     (if length payload \<noteq> 12 then Inl (Err ''invalid cancel payload length'')
      else
        go_try (Uint16 payload 8 10) (\<lambda>reason.
        go_try (Uint16 payload 10 12) (\<lambda>flags.
          if reason < CancelUser \<or> reason > CancelProtocol \<or>
             flags AND NOT (CancelDeletePartial OR CancelSilent) \<noteq> 0
          then Inl (Err ''invalid cancel reason or flags'')
          else
            go_try (Uint64 payload 0 8) (\<lambda>transferID.
              Inr \<lparr>cancelTransferID = transferID, cancelReasonCode = reason, cancelFlags = flags\<rparr>))))"

text \<open>\<open>EncodeCancelAck(transferID, status)\<close>; the decoder returns the same pair.\<close>

definition EncodeCancelAck :: "u64 \<times> u8 \<Rightarrow> bytes go" where
  "EncodeCancelAck v = run_writes (replicate 16 0) [Put 0 (be64 (fst v)), Put 8 [snd v]]"

definition DecodeCancelAck :: "bytes \<Rightarrow> (u64 \<times> u8) go" where
  "DecodeCancelAck payload =
     (if length payload \<noteq> 16 then Inl (Err ''invalid cancel ack payload length'')
      else
        go_try (index_byte payload 8) (\<lambda>status.
        go_try (slice payload 9 16) (\<lambda>reserved.
          if status < CancelAckOK \<or> status > CancelAckCompleted \<or> \<not> zeroBytes reserved
          then Inl (Err ''invalid cancel ack status or reserved bytes'')
          else go_try (Uint64 payload 0 8) (\<lambda>transferID. Inr (transferID, status)))))"

section \<open>Windows and transfer states\<close>

definition WindowFlagConnection :: u16 where [simp]: "WindowFlagConnection = 1"
definition WindowFlagTransfer :: u16 where [simp]: "WindowFlagTransfer = 2"

record Window =
  winTransferID :: u64
  winWindowBytes :: u64
  winWindowChunks :: u32
  winFlags :: u16

definition EncodeWindowInto :: "bytes \<Rightarrow> Window \<Rightarrow> bytes go" where
  "EncodeWindowInto dst v =
     run_writes (grow dst 24)
       [Put 0 (be64 (winTransferID v)), Put 8 (be64 (winWindowBytes v)),
        Put 16 (be32 (winWindowChunks v)), Put 20 (be16 (winFlags v)), Put 22 (replicate 2 0)]"

definition EncodeWindow :: "Window \<Rightarrow> bytes go" where
  "EncodeWindow v = EncodeWindowInto [] v"

definition DecodeWindow :: "bytes \<Rightarrow> Window go" where
  "DecodeWindow payload =
     (if length payload \<noteq> 24 then Inl (Err ''invalid window payload length'')
      else
        go_try (Uint16 payload 20 22) (\<lambda>flags.
        go_try (slice payload 22 24) (\<lambda>reserved.
          if (flags \<noteq> WindowFlagConnection \<and> flags \<noteq> WindowFlagTransfer) \<or> \<not> zeroBytes reserved
          then Inl (Err ''invalid window flags or reserved bytes'')
          else
            go_try (Uint64 payload 0 8) (\<lambda>transferID.
            go_try (Uint64 payload 8 16) (\<lambda>windowBytes.
            go_try (Uint32 payload 16 20) (\<lambda>windowChunks.
              Inr \<lparr>winTransferID = transferID, winWindowBytes = windowBytes,
                   winWindowChunks = windowChunks, winFlags = flags\<rparr>))))))"

definition TransferStateFlagResumeAccepted :: u16 where [simp]: "TransferStateFlagResumeAccepted = 1"
definition TransferStateFlagResumeRejected :: u16 where [simp]: "TransferStateFlagResumeRejected = 2"
definition TransferStateFlagCompleted :: u16 where [simp]: "TransferStateFlagCompleted = 4"
definition TransferStateFlagFailed :: u16 where [simp]: "TransferStateFlagFailed = 8"

record TransferStateMessage =
  tsmTransferID :: u64
  tsmReceivedBytes :: u64
  tsmNextChunk :: u32
  tsmFlags :: u16
  tsmReasonCode :: u16

definition EncodeTransferStateMessageInto :: "bytes \<Rightarrow> TransferStateMessage \<Rightarrow> bytes go" where
  "EncodeTransferStateMessageInto dst v =
     run_writes (grow dst 24)
       [Put 0 (be64 (tsmTransferID v)), Put 8 (be64 (tsmReceivedBytes v)),
        Put 16 (be32 (tsmNextChunk v)), Put 20 (be16 (tsmFlags v)), Put 22 (be16 (tsmReasonCode v))]"

definition EncodeTransferStateMessage :: "TransferStateMessage \<Rightarrow> bytes go" where
  "EncodeTransferStateMessage v = EncodeTransferStateMessageInto [] v"

definition DecodeTransferStateMessage :: "bytes \<Rightarrow> TransferStateMessage go" where
  "DecodeTransferStateMessage payload =
     (if length payload \<noteq> 24 then Inl (Err ''invalid transfer state payload length'')
      else
        go_try (Uint64 payload 0 8) (\<lambda>transferID.
        go_try (Uint64 payload 8 16) (\<lambda>receivedBytes.
        go_try (Uint32 payload 16 20) (\<lambda>nextChunk.
        go_try (Uint16 payload 20 22) (\<lambda>flags.
        go_try (Uint16 payload 22 24) (\<lambda>reason.
          Inr \<lparr>tsmTransferID = transferID, tsmReceivedBytes = receivedBytes,
               tsmNextChunk = nextChunk, tsmFlags = flags, tsmReasonCode = reason\<rparr>))))))"

section \<open>Close messages\<close>

definition CloseFlagImmediate :: u16 where [simp]: "CloseFlagImmediate = 1"
definition CloseFlagDrain :: u16 where [simp]: "CloseFlagDrain = 2"
definition CloseFlagNoNewRequests :: u16 where [simp]: "CloseFlagNoNewRequests = 4"
definition CloseFlagNoNewTransfers :: u16 where [simp]: "CloseFlagNoNewTransfers = 8"

text \<open>The condition \<open>flags&^(...) != 0 || flags&(Immediate|Drain) == Immediate|Drain\<close>, which the
  close and goaway decoders and \<open>CloseWith\<close> repeat.\<close>

definition closeFlagsInvalid :: "u16 \<Rightarrow> bool" where
  "closeFlagsInvalid flags \<longleftrightarrow>
     flags AND NOT (CloseFlagImmediate OR CloseFlagDrain OR CloseFlagNoNewRequests
       OR CloseFlagNoNewTransfers) \<noteq> 0 \<or>
     flags AND (CloseFlagImmediate OR CloseFlagDrain) = CloseFlagImmediate OR CloseFlagDrain"

record CloseMessage =
  closeReasonCode :: u32
  closeFlags :: u16
  closeDrainTimeoutMillis :: u32

definition EncodeCloseMessage :: "CloseMessage \<Rightarrow> bytes go" where
  "EncodeCloseMessage v =
     run_writes (replicate 12 0)
       [Put 0 (be32 (closeReasonCode v)), Put 4 (be16 (closeFlags v)),
        Put 8 (be32 (closeDrainTimeoutMillis v))]"

definition DecodeCloseMessage :: "bytes \<Rightarrow> CloseMessage go" where
  "DecodeCloseMessage payload =
     (if length payload \<noteq> 12 then Inl (Err ''invalid close payload length'')
      else
        go_try (Uint16 payload 4 6) (\<lambda>flags.
        go_try (slice payload 6 8) (\<lambda>reserved.
          if closeFlagsInvalid flags \<or> \<not> zeroBytes reserved
          then Inl (Err ''invalid close flags or reserved bytes'')
          else
            go_try (Uint32 payload 0 4) (\<lambda>reason.
            go_try (Uint32 payload 8 12) (\<lambda>timeout.
              Inr \<lparr>closeReasonCode = reason, closeFlags = flags, closeDrainTimeoutMillis = timeout\<rparr>)))))"

section \<open>Lemmas on the helpers\<close>

lemma checkedPayloadEnd_ok [simp]:
  "start + unat n \<le> length p \<Longrightarrow> checkedPayloadEnd p start n = (start + unat n, True)"
  by (auto simp: checkedPayloadEnd_def)

lemma checkedPayloadEnd_True:
  "checkedPayloadEnd p start n = (e, True) \<longleftrightarrow> start + unat n \<le> length p \<and> e = start + unat n"
  by (auto simp: checkedPayloadEnd_def)

lemma zeroBytes_iff [simp]: "zeroBytes xs \<longleftrightarrow> xs = replicate (length xs) 0"
  by (induction xs) auto

lemma saturatedInt_eq: "saturatedInt v = min (uint v) (2 ^ 63 - 1)"
proof -
  have "drop_bit 1 (NOT 0 :: u64) = 9223372036854775807"
    by (simp add: mask_eq_exp_minus_1)
  then show ?thesis
    by (simp add: saturatedInt_def word_less_def min_def)
qed

section \<open>The control payloads are canonical codecs\<close>

subsection \<open>What each format carries\<close>

definition nackWf :: "Nack \<Rightarrow> bool" where
  "nackWf v \<longleftrightarrow> NackMissingChunk \<le> nackReasonCode v \<and> nackReasonCode v \<le> NackFlowControl \<and> nackFlags v = 0"

definition cancelWf :: "Cancel \<Rightarrow> bool" where
  "cancelWf v \<longleftrightarrow> CancelUser \<le> cancelReasonCode v \<and> cancelReasonCode v \<le> CancelProtocol \<and>
     cancelFlags v AND NOT (CancelDeletePartial OR CancelSilent) = 0"

definition cancelAckWf :: "u64 \<times> u8 \<Rightarrow> bool" where
  "cancelAckWf v \<longleftrightarrow> CancelAckOK \<le> snd v \<and> snd v \<le> CancelAckCompleted"

definition windowWf :: "Window \<Rightarrow> bool" where
  "windowWf v \<longleftrightarrow> winFlags v = WindowFlagConnection \<or> winFlags v = WindowFlagTransfer"

definition closeWf :: "CloseMessage \<Rightarrow> bool" where
  "closeWf v \<longleftrightarrow> \<not> closeFlagsInvalid (closeFlags v)"

subsection \<open>Encoders write exactly these bytes\<close>

definition ackBytes :: "Ack \<Rightarrow> bytes" where
  "ackBytes v = be64 (ackTransferID v) @ be32 (ackChunkFrom v) @ be32 (ackChunkTo v) @ be64 (ackReceivedBytes v)"

definition nackBytes :: "Nack \<Rightarrow> bytes" where
  "nackBytes v = be64 (nackTransferID v) @ be32 (nackChunkFrom v) @ be32 (nackChunkTo v)
     @ be16 (nackReasonCode v) @ be16 (nackFlags v)"

definition cancelBytes :: "Cancel \<Rightarrow> bytes" where
  "cancelBytes v = be64 (cancelTransferID v) @ be16 (cancelReasonCode v) @ be16 (cancelFlags v)"

definition cancelAckBytes :: "u64 \<times> u8 \<Rightarrow> bytes" where
  "cancelAckBytes v = be64 (fst v) @ [snd v] @ replicate 7 0"

definition windowBytes :: "Window \<Rightarrow> bytes" where
  "windowBytes v = be64 (winTransferID v) @ be64 (winWindowBytes v) @ be32 (winWindowChunks v)
     @ be16 (winFlags v) @ replicate 2 0"

definition transferStateBytes :: "TransferStateMessage \<Rightarrow> bytes" where
  "transferStateBytes v = be64 (tsmTransferID v) @ be64 (tsmReceivedBytes v) @ be32 (tsmNextChunk v)
     @ be16 (tsmFlags v) @ be16 (tsmReasonCode v)"

definition closeBytes :: "CloseMessage \<Rightarrow> bytes" where
  "closeBytes v = be32 (closeReasonCode v) @ be16 (closeFlags v) @ replicate 2 0
     @ be32 (closeDrainTimeoutMillis v)"

definition textBytes :: "string \<Rightarrow> bytes" where
  "textBytes s = be32 (of_nat (length s)) @ bytes_of_string s"

lemmas control_bytes = ackBytes_def nackBytes_def cancelBytes_def cancelAckBytes_def windowBytes_def
  transferStateBytes_def closeBytes_def textBytes_def

lemma EncodeAck_eq: "EncodeAck v = Inr (ackBytes v)"
  by (simp add: EncodeAck_def ackBytes_def run_writes_fill)

lemma EncodeNack_eq: "EncodeNack v = Inr (nackBytes v)"
  by (simp add: EncodeNack_def nackBytes_def run_writes_fill)

lemma EncodeCancel_eq: "EncodeCancel v = Inr (cancelBytes v)"
  by (simp add: EncodeCancel_def cancelBytes_def run_writes_fill)

lemma EncodeCancelAck_eq: "EncodeCancelAck v = Inr (cancelAckBytes v)"
  by (simp add: EncodeCancelAck_def cancelAckBytes_def run_writes_fill)

lemma EncodeWindowInto_eq: "EncodeWindowInto dst v = Inr (windowBytes v)"
  by (simp add: EncodeWindowInto_def windowBytes_def run_writes_fill)

lemma EncodeTransferStateMessageInto_eq:
  "EncodeTransferStateMessageInto dst v = Inr (transferStateBytes v)"
  by (simp add: EncodeTransferStateMessageInto_def transferStateBytes_def run_writes_fill)

lemma EncodeCloseMessage_eq: "EncodeCloseMessage v = Inr (closeBytes v)"
  by (simp add: EncodeCloseMessage_def closeBytes_def run_writes_fill fill_Put_gap)

lemma EncodeTextMessageInto_eq:
  "length s \<le> MaxFrameBytes - HeaderSize - 4 \<Longrightarrow> EncodeTextMessageInto dst s = Inr (textBytes s)"
  by (simp add: EncodeTextMessageInto_def textBytes_def run_writes_fill)

lemma EncodeTextMessage_eq:
  "length s \<le> MaxFrameBytes - HeaderSize - 4 \<Longrightarrow> EncodeTextMessage s = Inr (textBytes s)"
  by (simp add: EncodeTextMessage_def encodeString_def textBytes_def run_writes_fill)

lemmas control_encoders = EncodeAck_eq EncodeNack_eq EncodeCancel_eq EncodeCancelAck_eq
  EncodeWindow_def EncodeWindowInto_eq EncodeTransferStateMessage_def
  EncodeTransferStateMessageInto_eq EncodeCloseMessage_eq EncodeTextMessage_eq


subsection \<open>Decoders accept exactly the encodings\<close>

text \<open>A byte string is the concatenation of its consecutive slices; each format cuts it at its
  field boundaries.\<close>

lemma cut: "a \<le> b \<Longrightarrow> b \<le> length p \<Longrightarrow> sl p a (length p) = sl p a b @ sl p b (length p)"
  by (simp add: sl_join)

lemma DecodeAck_iff: "DecodeAck p = Inr v \<longleftrightarrow> p = ackBytes v"
proof
  assume "DecodeAck p = Inr v"
  then show "p = ackBytes v"
    using sl_whole [of p]
    by (auto simp: DecodeAck_def ackBytes_def sl_join split: if_splits)
next
  assume "p = ackBytes v"
  then show "DecodeAck p = Inr v"
    by (cases v) (simp add: DecodeAck_def ackBytes_def)
qed

lemma DecodeNack_iff: "DecodeNack p = Inr v \<longleftrightarrow> nackWf v \<and> p = nackBytes v"
proof
  assume *: "DecodeNack p = Inr v"
  then have "sl p 0 8 @ sl p 8 12 @ sl p 12 16 @ sl p 16 18 @ sl p 18 20 = p"
    using sl_whole [of p] by (auto simp: DecodeNack_def sl_join split: if_splits)
  with * show "nackWf v \<and> p = nackBytes v"
    by (auto simp: DecodeNack_def nackBytes_def nackWf_def rd16_eq_iff split: if_splits)
next
  assume "nackWf v \<and> p = nackBytes v"
  then show "DecodeNack p = Inr v"
    by (cases v) (auto simp: DecodeNack_def nackBytes_def nackWf_def not_less)
qed

lemma DecodeCancel_iff: "DecodeCancel p = Inr v \<longleftrightarrow> cancelWf v \<and> p = cancelBytes v"
proof
  assume "DecodeCancel p = Inr v"
  then show "cancelWf v \<and> p = cancelBytes v"
    using sl_whole [of p]
    by (auto simp: DecodeCancel_def cancelBytes_def cancelWf_def sl_join split: if_splits)
next
  assume "cancelWf v \<and> p = cancelBytes v"
  then show "DecodeCancel p = Inr v"
    by (cases v) (auto simp: DecodeCancel_def cancelBytes_def cancelWf_def not_less)
qed

lemma DecodeTransferStateMessage_iff: "DecodeTransferStateMessage p = Inr v \<longleftrightarrow> p = transferStateBytes v"
proof
  assume "DecodeTransferStateMessage p = Inr v"
  then show "p = transferStateBytes v"
    using sl_whole [of p]
    by (auto simp: DecodeTransferStateMessage_def transferStateBytes_def sl_join split: if_splits)
next
  assume "p = transferStateBytes v"
  then show "DecodeTransferStateMessage p = Inr v"
    by (cases v) (simp add: DecodeTransferStateMessage_def transferStateBytes_def)
qed

lemma DecodeCancelAck_iff: "DecodeCancelAck p = Inr v \<longleftrightarrow> cancelAckWf v \<and> p = cancelAckBytes v"
proof
  assume *: "DecodeCancelAck p = Inr v"
  then have len: "length p = 16"
    by (auto simp: DecodeCancelAck_def split: if_splits)
  then have "[p ! 8] = sl p 8 9"
    using sl_single [of 8 p] by simp
  then have "sl p 0 8 @ [p ! 8] @ sl p 9 16 = p"
    using sl_whole [of p] len by (simp add: sl_join sl_join_append)
  with * show "cancelAckWf v \<and> p = cancelAckBytes v"
    by (auto simp: DecodeCancelAck_def cancelAckBytes_def cancelAckWf_def split: if_splits)
next
  assume "cancelAckWf v \<and> p = cancelAckBytes v"
  then show "DecodeCancelAck p = Inr v"
    by (cases v) (auto simp: DecodeCancelAck_def cancelAckBytes_def cancelAckWf_def nth_append)
qed

lemma DecodeWindow_iff: "DecodeWindow p = Inr v \<longleftrightarrow> windowWf v \<and> p = windowBytes v"
proof
  assume *: "DecodeWindow p = Inr v"
  then have "sl p 0 8 @ sl p 8 16 @ sl p 16 20 @ sl p 20 22 @ sl p 22 24 = p"
    using sl_whole [of p] by (auto simp: DecodeWindow_def sl_join split: if_splits)
  with * show "windowWf v \<and> p = windowBytes v"
    by (auto simp: DecodeWindow_def windowBytes_def windowWf_def rd16_eq_iff split: if_splits)
next
  assume "windowWf v \<and> p = windowBytes v"
  then show "DecodeWindow p = Inr v"
    by (cases v) (auto simp: DecodeWindow_def windowBytes_def windowWf_def)
qed

lemma DecodeCloseMessage_iff: "DecodeCloseMessage p = Inr v \<longleftrightarrow> closeWf v \<and> p = closeBytes v"
proof
  assume *: "DecodeCloseMessage p = Inr v"
  then have "sl p 0 4 @ sl p 4 6 @ sl p 6 8 @ sl p 8 12 = p"
    using sl_whole [of p] by (auto simp: DecodeCloseMessage_def sl_join split: if_splits)
  with * show "closeWf v \<and> p = closeBytes v"
    by (auto simp: DecodeCloseMessage_def closeBytes_def closeWf_def split: if_splits)
next
  assume "closeWf v \<and> p = closeBytes v"
  then show "DecodeCloseMessage p = Inr v"
    by (cases v) (auto simp: DecodeCloseMessage_def closeBytes_def closeWf_def)
qed

lemma decodeString_iff:
  "length p < 2 ^ 32 \<Longrightarrow> decodeString p = Inr s \<longleftrightarrow> p = textBytes s"
proof
  assume *: "decodeString p = Inr s" and "length p < 2 ^ 32"
  then have "sl p 0 4 @ sl p 4 (length p) = p" "4 \<le> length p"
    using sl_whole [of p] by (auto simp: decodeString_def sl_join split: if_splits)
  with * show "p = textBytes s"
    by (auto simp: decodeString_def textBytes_def checkedPayloadEnd_True split: if_splits prod.splits)
next
  assume "length p < 2 ^ 32" "p = textBytes s"
  then show "decodeString p = Inr s"
    by (simp add: decodeString_def textBytes_def unat_of_nat)
qed

lemma decodeString_no_panic: "decodeString p \<noteq> Inl GoPanic"
  by (auto simp: decodeString_def checkedPayloadEnd_def split: if_splits)

lemma DecodeAck_no_panic [simp]: "DecodeAck p \<noteq> Inl GoPanic"
  by (simp add: DecodeAck_def)

lemma DecodeNack_no_panic [simp]: "DecodeNack p \<noteq> Inl GoPanic"
  by (simp add: DecodeNack_def)

lemma DecodeCancel_no_panic [simp]: "DecodeCancel p \<noteq> Inl GoPanic"
  by (simp add: DecodeCancel_def)

lemma DecodeCancelAck_no_panic [simp]: "DecodeCancelAck p \<noteq> Inl GoPanic"
  by (simp add: DecodeCancelAck_def)

lemma DecodeWindow_no_panic [simp]: "DecodeWindow p \<noteq> Inl GoPanic"
  by (simp add: DecodeWindow_def)

lemma DecodeTransferStateMessage_no_panic [simp]: "DecodeTransferStateMessage p \<noteq> Inl GoPanic"
  by (simp add: DecodeTransferStateMessage_def)

lemma DecodeCloseMessage_no_panic [simp]: "DecodeCloseMessage p \<noteq> Inl GoPanic"
  by (simp add: DecodeCloseMessage_def)

subsection \<open>Interpretations\<close>

definition anyMessage :: "'m \<Rightarrow> bool" where [simp]: "anyMessage m = True"

definition textWf :: "string \<Rightarrow> bool" where
  "textWf s \<longleftrightarrow> length s \<le> MaxFrameBytes - HeaderSize - 4"

interpretation ack_codec: canonical_codec EncodeAck DecodeAck anyMessage
  by unfold_locales (auto simp: EncodeAck_eq DecodeAck_iff)

interpretation nack_codec: canonical_codec EncodeNack DecodeNack nackWf
  by unfold_locales (auto simp: EncodeNack_eq DecodeNack_iff)

interpretation cancel_codec: canonical_codec EncodeCancel DecodeCancel cancelWf
  by unfold_locales (auto simp: EncodeCancel_eq DecodeCancel_iff)

interpretation cancel_ack_codec: canonical_codec EncodeCancelAck DecodeCancelAck cancelAckWf
  by unfold_locales (auto simp: EncodeCancelAck_eq DecodeCancelAck_iff)

interpretation window_codec: canonical_codec EncodeWindow DecodeWindow windowWf
  by unfold_locales (auto simp: EncodeWindow_def EncodeWindowInto_eq DecodeWindow_iff)

interpretation transfer_state_codec:
  canonical_codec EncodeTransferStateMessage DecodeTransferStateMessage anyMessage
  by unfold_locales
    (auto simp: EncodeTransferStateMessage_def EncodeTransferStateMessageInto_eq
      DecodeTransferStateMessage_iff)

interpretation close_codec: canonical_codec EncodeCloseMessage DecodeCloseMessage closeWf
  by unfold_locales (auto simp: EncodeCloseMessage_eq DecodeCloseMessage_iff)

interpretation text_codec: wire_codec EncodeTextMessage DecodeTextMessage textWf
proof
  fix s :: string assume "textWf s"
  moreover from this have "length (textBytes s) < 2 ^ 32"
    by (simp add: textWf_def textBytes_def)
  ultimately show "\<exists>p. EncodeTextMessage s = Inr p \<and> DecodeTextMessage p = Inr s"
    by (simp add: textWf_def EncodeTextMessage_eq DecodeTextMessage_def decodeString_iff)
qed (simp add: DecodeTextMessage_def decodeString_no_panic)

section \<open>Properties\<close>

text \<open>C31: Every fixed-size control payload is decoded exactly: a decoder accepts a byte string
  precisely when it is the encoding of a message whose code, flags and reserved bytes the
  protocol allows, and it returns that message. Acknowledgements and transfer states carry any
  field values; the other formats carry the values their \<open>Wf\<close> predicate allows.\<close>

theorem control_decode_exact:
  "(DecodeAck p = Inr a \<longleftrightarrow> EncodeAck a = Inr p)
   \<and> (DecodeNack p = Inr n \<longleftrightarrow> nackWf n \<and> EncodeNack n = Inr p)
   \<and> (DecodeCancel p = Inr c \<longleftrightarrow> cancelWf c \<and> EncodeCancel c = Inr p)
   \<and> (DecodeCancelAck p = Inr k \<longleftrightarrow> cancelAckWf k \<and> EncodeCancelAck k = Inr p)
   \<and> (DecodeWindow p = Inr w \<longleftrightarrow> windowWf w \<and> EncodeWindow w = Inr p)
   \<and> (DecodeTransferStateMessage p = Inr t \<longleftrightarrow> EncodeTransferStateMessage t = Inr p)
   \<and> (DecodeCloseMessage p = Inr z \<longleftrightarrow> closeWf z \<and> EncodeCloseMessage z = Inr p)"
  using ack_codec.dec_iff_enc transfer_state_codec.dec_iff_enc
  by (simp add: nack_codec.dec_iff_enc cancel_codec.dec_iff_enc cancel_ack_codec.dec_iff_enc
      window_codec.dec_iff_enc close_codec.dec_iff_enc)

end
