(* ===== verification/Etp_Messages.thy ===== *)
theory Etp_Messages
  imports Etp_Control
begin

text \<open>
  The control payloads of \<open>internal/etp/payload.go\<close> that end in a text or a blob: hello, error,
  goaway, transfer resume and the three authentication messages, with the constants of that
  file. A decoder of such a format is exact on every payload a frame can carry.
\<close>

section \<open>Constants\<close>

definition MaxTransferFields :: nat where [simp]: "MaxTransferFields = 1024"
definition MaxTransferParts :: nat where [simp]: "MaxTransferParts = 1024"

definition CapabilityTransfers :: u64 where [simp]: "CapabilityTransfers = push_bit 0 1"
definition CapabilityCancel :: u64 where [simp]: "CapabilityCancel = push_bit 1 1"
definition CapabilityAck :: u64 where [simp]: "CapabilityAck = push_bit 2 1"
definition CapabilityNack :: u64 where [simp]: "CapabilityNack = push_bit 3 1"
definition CapabilityHeartbeat :: u64 where [simp]: "CapabilityHeartbeat = push_bit 4 1"
definition CapabilityTransferSHA256 :: u64 where [simp]: "CapabilityTransferSHA256 = push_bit 5 1"
definition CapabilityFlowControl :: u64 where [simp]: "CapabilityFlowControl = push_bit 6 1"
definition CapabilitySlowlorisGuard :: u64 where [simp]: "CapabilitySlowlorisGuard = push_bit 7 1"
definition CapabilityProtocolEvents :: u64 where [simp]: "CapabilityProtocolEvents = push_bit 8 1"
definition CapabilityRequestResponse :: u64 where [simp]: "CapabilityRequestResponse = push_bit 9 1"
definition CapabilityGracefulClose :: u64 where [simp]: "CapabilityGracefulClose = push_bit 10 1"
definition CapabilityTransferResume :: u64 where [simp]: "CapabilityTransferResume = push_bit 11 1"
definition CapabilityTransferCommit :: u64 where [simp]: "CapabilityTransferCommit = push_bit 12 1"

definition AllCapabilities :: u64 where
  "AllCapabilities = CapabilityTransfers OR CapabilityCancel OR CapabilityAck OR CapabilityNack
     OR CapabilityHeartbeat OR CapabilityTransferSHA256 OR CapabilityFlowControl
     OR CapabilitySlowlorisGuard OR CapabilityProtocolEvents OR CapabilityRequestResponse
     OR CapabilityGracefulClose OR CapabilityTransferResume OR CapabilityTransferCommit"

definition DefaultCapabilities :: u64 where
  "DefaultCapabilities = CapabilityTransfers OR CapabilityCancel OR CapabilityAck OR CapabilityNack
     OR CapabilityHeartbeat OR CapabilityTransferSHA256 OR CapabilityFlowControl
     OR CapabilitySlowlorisGuard OR CapabilityProtocolEvents OR CapabilityRequestResponse
     OR CapabilityGracefulClose OR CapabilityTransferCommit"

definition ErrorProtocolViolation :: u32 where [simp]: "ErrorProtocolViolation = 1"
definition ErrorUnauthorized :: u32 where [simp]: "ErrorUnauthorized = 2"
definition ErrorUnsupportedFeature :: u32 where [simp]: "ErrorUnsupportedFeature = 3"
definition ErrorFrameTooLarge :: u32 where [simp]: "ErrorFrameTooLarge = 4"
definition ErrorBadState :: u32 where [simp]: "ErrorBadState = 5"
definition ErrorRateLimited :: u32 where [simp]: "ErrorRateLimited = 6"
definition ErrorServerShutdown :: u32 where [simp]: "ErrorServerShutdown = 7"
definition ErrorDrainTimeout :: u32 where [simp]: "ErrorDrainTimeout = 8"
definition ErrorInvalidRequest :: u32 where [simp]: "ErrorInvalidRequest = 9"
definition ErrorInternal :: u32 where [simp]: "ErrorInternal = 10"

definition CloseNormal :: u32 where [simp]: "CloseNormal = 0"
definition CloseProtocolViolation :: u32 where [simp]: "CloseProtocolViolation = 1"
definition CloseAuthFailed :: u32 where [simp]: "CloseAuthFailed = 2"
definition CloseServerShutdown :: u32 where [simp]: "CloseServerShutdown = 3"
definition CloseClientShutdown :: u32 where [simp]: "CloseClientShutdown = 4"
definition CloseDrainTimeout :: u32 where [simp]: "CloseDrainTimeout = 5"

definition AuthMethodBearer :: u16 where [simp]: "AuthMethodBearer = 1"
definition AuthMethodAPIKey :: u16 where [simp]: "AuthMethodAPIKey = 2"
definition AuthMethodSession :: u16 where [simp]: "AuthMethodSession = 3"
definition AuthMethodCustom :: u16 where [simp]: "AuthMethodCustom = 255"

definition AuthRejectUnauthorized :: u16 where [simp]: "AuthRejectUnauthorized = 401"
definition AuthRejectForbidden :: u16 where [simp]: "AuthRejectForbidden = 403"
definition AuthRejectTimeout :: u16 where [simp]: "AuthRejectTimeout = 408"
definition AuthRejectTooLarge :: u16 where [simp]: "AuthRejectTooLarge = 413"
definition AuthRejectProtocol :: u16 where [simp]: "AuthRejectProtocol = 440"

section \<open>Hello\<close>

record Hello =
  helloRole :: string
  helloCapabilities :: u64
  helloMaxFrameBytes :: u32
  helloMaxChunkSize :: u32
  helloMaxTransferBytes :: u64
  helloMaxInFlightChunks :: u32
  helloHeartbeatMillis :: u32

text \<open>The reserved bytes 32 to 36 are not written: they are those of the fresh \<open>make\<close>.\<close>

definition EncodeHelloMessage :: "Hello \<Rightarrow> bytes go" where
  "EncodeHelloMessage v =
     (let role = bytes_of_string (helloRole v)
      in if length role > MaxFrameBytes - HeaderSize - 40 then Inr []
         else run_writes (replicate (40 + length role) 0)
           [Put 0 (be64 (helloCapabilities v)), Put 8 (be32 (helloMaxFrameBytes v)),
            Put 12 (be32 (helloMaxChunkSize v)), Put 16 (be64 (helloMaxTransferBytes v)),
            Put 24 (be32 (helloMaxInFlightChunks v)), Put 28 (be32 (helloHeartbeatMillis v)),
            Put 36 (be32 (of_nat (length role))), Copy 40 role])"

definition EncodeHello :: "string \<Rightarrow> bytes go" where
  "EncodeHello role = EncodeHelloMessage
     \<lparr>helloRole = role, helloCapabilities = DefaultCapabilities, helloMaxFrameBytes = 0,
      helloMaxChunkSize = 0, helloMaxTransferBytes = 0, helloMaxInFlightChunks = 0,
      helloHeartbeatMillis = 0\<rparr>"

definition DecodeHelloMessage :: "bytes \<Rightarrow> Hello go" where
  "DecodeHelloMessage payload =
     (if length payload < 40 then Inl (Err ''hello payload too small'')
      else
        go_try (Uint32 payload 36 40) (\<lambda>roleLen.
        let (roleEnd, ok) = checkedPayloadEnd payload 40 roleLen in
        if \<not> ok \<or> roleEnd \<noteq> length payload then Inl (Err ''invalid hello role length'')
        else
        go_try (slice payload 32 36) (\<lambda>reserved.
        if \<not> zeroBytes reserved then Inl (Err ''hello reserved bytes are not zero'')
        else
        go_try (Uint64 payload 0 8) (\<lambda>capabilities.
        go_try (Uint32 payload 8 12) (\<lambda>maxFrameBytes.
        go_try (Uint32 payload 12 16) (\<lambda>maxChunkSize.
        go_try (Uint64 payload 16 24) (\<lambda>maxTransferBytes.
        go_try (Uint32 payload 24 28) (\<lambda>maxInFlightChunks.
        go_try (Uint32 payload 28 32) (\<lambda>heartbeatMillis.
        go_try (slice payload 40 roleEnd) (\<lambda>role.
          Inr \<lparr>helloRole = string_of_bytes role, helloCapabilities = capabilities,
               helloMaxFrameBytes = maxFrameBytes, helloMaxChunkSize = maxChunkSize,
               helloMaxTransferBytes = maxTransferBytes,
               helloMaxInFlightChunks = maxInFlightChunks,
               helloHeartbeatMillis = heartbeatMillis\<rparr>))))))))))"

definition DecodeHello :: "bytes \<Rightarrow> string go" where
  "DecodeHello payload = go_try (DecodeHelloMessage payload) (\<lambda>hello. Inr (helloRole hello))"

section \<open>Error messages\<close>

record ErrorMessage =
  emCode :: u32
  emFrameType :: u8
  emSchemaID :: u32
  emRequestID :: u64
  emTransferID :: u64
  emMessage :: string

record ErrorMessageView =
  emvCode :: u32
  emvFrameType :: u8
  emvSchemaID :: u32
  emvRequestID :: u64
  emvTransferID :: u64
  emvMessage :: bytes

definition ErrorMessagePayloadSize :: "bytes \<Rightarrow> int" where
  "ErrorMessagePayloadSize message = saturatedInt (32 + of_nat (length message))"

definition ErrorMessagePayloadSizeString :: "string \<Rightarrow> int" where
  "ErrorMessagePayloadSizeString message = saturatedInt (32 + of_nat (length message))"

definition EncodeErrorMessageInto ::
    "bytes \<Rightarrow> u32 \<Rightarrow> u8 \<Rightarrow> u32 \<Rightarrow> u64 \<Rightarrow> u64 \<Rightarrow> bytes \<Rightarrow> bytes go" where
  "EncodeErrorMessageInto dst code frameType schemaID requestID transferID message =
     (if length message > MaxFrameBytes - HeaderSize - 32 then Inl (Err ''error message too large'')
      else run_writes (grow dst (nat (ErrorMessagePayloadSize message)))
        [Put 0 (be32 code), Put 4 [frameType], Put 5 (replicate 3 0), Put 8 (be32 schemaID),
         Put 12 (be64 requestID), Put 20 (be64 transferID),
         Put 28 (be32 (of_nat (length message))), Copy 32 message])"

definition EncodeErrorMessageStringInto ::
    "bytes \<Rightarrow> u32 \<Rightarrow> u8 \<Rightarrow> u32 \<Rightarrow> u64 \<Rightarrow> u64 \<Rightarrow> string \<Rightarrow> bytes go" where
  "EncodeErrorMessageStringInto dst code frameType schemaID requestID transferID message =
     (if length message > MaxFrameBytes - HeaderSize - 32 then Inl (Err ''error message too large'')
      else run_writes (grow dst (32 + length message))
        [Put 0 (be32 code), Put 4 [frameType], Put 5 (replicate 3 0), Put 8 (be32 schemaID),
         Put 12 (be64 requestID), Put 20 (be64 transferID),
         Put 28 (be32 (of_nat (length message))), Copy 32 (bytes_of_string message)])"

definition EncodeErrorMessage :: "ErrorMessage \<Rightarrow> bytes go" where
  "EncodeErrorMessage v = ignore_err (EncodeErrorMessageStringInto [] (emCode v) (emFrameType v)
     (emSchemaID v) (emRequestID v) (emTransferID v) (emMessage v))"

definition DecodeErrorMessageView :: "bytes \<Rightarrow> ErrorMessageView go" where
  "DecodeErrorMessageView payload =
     (if length payload < 32 then Inl (Err ''error payload too small'')
      else
        go_try (Uint32 payload 28 32) (\<lambda>messageLen.
        let (end', ok) = checkedPayloadEnd payload 32 messageLen in
        if \<not> ok \<or> end' \<noteq> length payload then Inl (Err ''invalid error message length'')
        else
        go_try (slice payload 5 8) (\<lambda>reserved.
        if \<not> zeroBytes reserved then Inl (Err ''error reserved bytes are not zero'')
        else
        go_try (Uint32 payload 0 4) (\<lambda>code.
        go_try (index_byte payload 4) (\<lambda>frameType.
        go_try (Uint32 payload 8 12) (\<lambda>schemaID.
        go_try (Uint64 payload 12 20) (\<lambda>requestID.
        go_try (Uint64 payload 20 28) (\<lambda>transferID.
        go_try (slice payload 32 end') (\<lambda>message.
          Inr \<lparr>emvCode = code, emvFrameType = frameType, emvSchemaID = schemaID,
               emvRequestID = requestID, emvTransferID = transferID, emvMessage = message\<rparr>)))))))))"

definition DecodeErrorMessage :: "bytes \<Rightarrow> ErrorMessage go" where
  "DecodeErrorMessage payload = go_try (DecodeErrorMessageView payload) (\<lambda>view.
     Inr \<lparr>emCode = emvCode view, emFrameType = emvFrameType view, emSchemaID = emvSchemaID view,
          emRequestID = emvRequestID view, emTransferID = emvTransferID view,
          emMessage = string_of_bytes (emvMessage view)\<rparr>)"

section \<open>GoAway\<close>

record GoAway =
  gaReasonCode :: u32
  gaFlags :: u16
  gaDrainTimeoutMillis :: u32
  gaLastAcceptedRequestID :: u64
  gaLastAcceptedTransferID :: u64
  gaMessage :: string

record GoAwayView =
  gavReasonCode :: u32
  gavFlags :: u16
  gavDrainTimeoutMillis :: u32
  gavLastAcceptedRequestID :: u64
  gavLastAcceptedTransferID :: u64
  gavMessage :: bytes

definition GoAwayPayloadSize :: "bytes \<Rightarrow> int" where
  "GoAwayPayloadSize message = saturatedInt (32 + of_nat (length message))"

definition EncodeGoAwayInto ::
    "bytes \<Rightarrow> u32 \<Rightarrow> u16 \<Rightarrow> u32 \<Rightarrow> u64 \<Rightarrow> u64 \<Rightarrow> bytes \<Rightarrow> bytes go" where
  "EncodeGoAwayInto dst reasonCode flags drainTimeoutMillis lastAcceptedRequestID
       lastAcceptedTransferID message =
     (if length message > MaxFrameBytes - HeaderSize - 32 then Inl (Err ''goaway message too large'')
      else run_writes (grow dst (nat (GoAwayPayloadSize message)))
        [Put 0 (be32 reasonCode), Put 4 (be16 flags), Put 6 (replicate 2 0),
         Put 8 (be32 drainTimeoutMillis), Put 12 (be64 lastAcceptedRequestID),
         Put 20 (be64 lastAcceptedTransferID), Put 28 (be32 (of_nat (length message))),
         Copy 32 message])"

definition EncodeGoAway :: "GoAway \<Rightarrow> bytes go" where
  "EncodeGoAway v = ignore_err (EncodeGoAwayInto [] (gaReasonCode v) (gaFlags v)
     (gaDrainTimeoutMillis v) (gaLastAcceptedRequestID v) (gaLastAcceptedTransferID v)
     (bytes_of_string (gaMessage v)))"

definition DecodeGoAwayView :: "bytes \<Rightarrow> GoAwayView go" where
  "DecodeGoAwayView payload =
     (if length payload < 32 then Inl (Err ''goaway payload too small'')
      else
        go_try (Uint32 payload 28 32) (\<lambda>messageLen.
        let (end', ok) = checkedPayloadEnd payload 32 messageLen in
        if \<not> ok \<or> end' \<noteq> length payload then Inl (Err ''invalid goaway message length'')
        else
        go_try (Uint16 payload 4 6) (\<lambda>flags.
        go_try (slice payload 6 8) (\<lambda>reserved.
        if closeFlagsInvalid flags \<or> \<not> zeroBytes reserved
        then Inl (Err ''invalid goaway flags or reserved bytes'')
        else
        go_try (Uint32 payload 0 4) (\<lambda>reason.
        go_try (Uint32 payload 8 12) (\<lambda>timeout.
        go_try (Uint64 payload 12 20) (\<lambda>requestID.
        go_try (Uint64 payload 20 28) (\<lambda>transferID.
        go_try (slice payload 32 end') (\<lambda>message.
          Inr \<lparr>gavReasonCode = reason, gavFlags = flags, gavDrainTimeoutMillis = timeout,
               gavLastAcceptedRequestID = requestID, gavLastAcceptedTransferID = transferID,
               gavMessage = message\<rparr>)))))))))"

definition DecodeGoAway :: "bytes \<Rightarrow> GoAway go" where
  "DecodeGoAway payload = go_try (DecodeGoAwayView payload) (\<lambda>view.
     Inr \<lparr>gaReasonCode = gavReasonCode view, gaFlags = gavFlags view,
          gaDrainTimeoutMillis = gavDrainTimeoutMillis view,
          gaLastAcceptedRequestID = gavLastAcceptedRequestID view,
          gaLastAcceptedTransferID = gavLastAcceptedTransferID view,
          gaMessage = string_of_bytes (gavMessage view)\<rparr>)"

section \<open>Transfer resume\<close>

text \<open>\<open>TransferResume\<close> and \<open>TransferResumeView\<close> have the same fields; the view's decoder is the
  message's decoder.\<close>

record TransferResume =
  trTransferID :: u64
  trReceivedBytes :: u64
  trNextChunk :: u32
  trToken :: bytes

definition TransferResumePayloadSize :: "bytes \<Rightarrow> int" where
  "TransferResumePayloadSize token = saturatedInt (24 + of_nat (length token))"

definition EncodeTransferResumeInto :: "bytes \<Rightarrow> u64 \<Rightarrow> u64 \<Rightarrow> u32 \<Rightarrow> bytes \<Rightarrow> bytes go" where
  "EncodeTransferResumeInto dst transferID receivedBytes nextChunk token =
     (if length token > MaxFrameBytes - HeaderSize - 24 then Inl (Err ''resume token too large'')
      else run_writes (grow dst (nat (TransferResumePayloadSize token)))
        [Put 0 (be64 transferID), Put 8 (be64 receivedBytes), Put 16 (be32 nextChunk),
         Put 20 (be32 (of_nat (length token))), Copy 24 token])"

definition EncodeTransferResume :: "TransferResume \<Rightarrow> bytes go" where
  "EncodeTransferResume v = ignore_err (EncodeTransferResumeInto [] (trTransferID v)
     (trReceivedBytes v) (trNextChunk v) (trToken v))"

definition DecodeTransferResumeView :: "bytes \<Rightarrow> TransferResume go" where
  "DecodeTransferResumeView payload =
     (if length payload < 24 then Inl (Err ''transfer resume payload too small'')
      else
        go_try (Uint32 payload 20 24) (\<lambda>tokenLen.
        let (end', ok) = checkedPayloadEnd payload 24 tokenLen in
        if \<not> ok \<or> end' \<noteq> length payload then Inl (Err ''invalid transfer resume token length'')
        else
        go_try (Uint64 payload 0 8) (\<lambda>transferID.
        go_try (Uint64 payload 8 16) (\<lambda>receivedBytes.
        go_try (Uint32 payload 16 20) (\<lambda>nextChunk.
        go_try (slice payload 24 end') (\<lambda>token.
          Inr \<lparr>trTransferID = transferID, trReceivedBytes = receivedBytes,
               trNextChunk = nextChunk, trToken = token\<rparr>))))))"

definition DecodeTransferResume :: "bytes \<Rightarrow> TransferResume go" where
  "DecodeTransferResume payload = DecodeTransferResumeView payload"

section \<open>Authentication\<close>

record AuthRequest =
  authMethod :: u16
  authFlags :: u16
  authSchemaID :: u32
  authPayload :: bytes

record AuthAccept = aaUserID :: string
record AuthAcceptView = aavUserID :: bytes

record AuthReject =
  arStatusCode :: u16
  arReasonCode :: u16
  arMessage :: string

record AuthRejectView =
  arvStatusCode :: u16
  arvReasonCode :: u16
  arvMessage :: bytes

definition AuthRequestPayloadSize :: "AuthRequest \<Rightarrow> int" where
  "AuthRequestPayloadSize v = saturatedInt (12 + of_nat (length (authPayload v)))"

definition EncodeAuthRequestInto :: "bytes \<Rightarrow> AuthRequest \<Rightarrow> bytes go" where
  "EncodeAuthRequestInto dst v =
     (if length (authPayload v) > MaxFrameBytes - HeaderSize - 12
      then Inl (Err ''auth payload too large'')
      else run_writes (grow dst (nat (AuthRequestPayloadSize v)))
        [Put 0 (be16 (authMethod v)), Put 2 (be16 (authFlags v)), Put 4 (be32 (authSchemaID v)),
         Put 8 (be32 (of_nat (length (authPayload v)))), Copy 12 (authPayload v)])"

definition EncodeAuthRequest :: "AuthRequest \<Rightarrow> bytes go" where
  "EncodeAuthRequest v = ignore_err (EncodeAuthRequestInto [] v)"

definition DecodeAuthRequestView :: "bytes \<Rightarrow> AuthRequest go" where
  "DecodeAuthRequestView payload =
     (if length payload < 12 then Inl (Err ''auth request payload too small'')
      else
        go_try (Uint32 payload 8 12) (\<lambda>payloadLen.
        let (end', ok) = checkedPayloadEnd payload 12 payloadLen in
        if \<not> ok \<or> end' \<noteq> length payload then Inl (Err ''invalid auth request payload length'')
        else
        go_try (Uint16 payload 0 2) (\<lambda>method.
        go_try (Uint16 payload 2 4) (\<lambda>flags.
        go_try (Uint32 payload 4 8) (\<lambda>schemaID.
        go_try (slice payload 12 end') (\<lambda>body.
          Inr \<lparr>authMethod = method, authFlags = flags, authSchemaID = schemaID,
               authPayload = body\<rparr>))))))"

definition DecodeAuthRequest :: "bytes \<Rightarrow> AuthRequest go" where
  "DecodeAuthRequest payload = DecodeAuthRequestView payload"

definition AuthAcceptPayloadSize :: "bytes \<Rightarrow> int" where
  "AuthAcceptPayloadSize userID = saturatedInt (4 + of_nat (length userID))"

definition EncodeAuthAcceptInto :: "bytes \<Rightarrow> bytes \<Rightarrow> bytes go" where
  "EncodeAuthAcceptInto dst userID =
     (if length userID > MaxFrameBytes - HeaderSize - 4
      then Inl (Err ''auth accept user id too large'')
      else run_writes (grow dst (nat (AuthAcceptPayloadSize userID)))
        [Put 0 (be32 (of_nat (length userID))), Copy 4 userID])"

definition EncodeAuthAccept :: "AuthAccept \<Rightarrow> bytes go" where
  "EncodeAuthAccept v = ignore_err (EncodeAuthAcceptInto [] (bytes_of_string (aaUserID v)))"

definition DecodeAuthAcceptView :: "bytes \<Rightarrow> AuthAcceptView go" where
  "DecodeAuthAcceptView payload =
     (if length payload < 4 then Inl (Err ''auth accept payload too small'')
      else
        go_try (Uint32 payload 0 4) (\<lambda>userLen.
        let (end', ok) = checkedPayloadEnd payload 4 userLen in
        if \<not> ok \<or> end' \<noteq> length payload then Inl (Err ''invalid auth accept user length'')
        else go_try (slice payload 4 end') (\<lambda>userID. Inr \<lparr>aavUserID = userID\<rparr>)))"

definition DecodeAuthAccept :: "bytes \<Rightarrow> AuthAccept go" where
  "DecodeAuthAccept payload = go_try (DecodeAuthAcceptView payload) (\<lambda>view.
     Inr \<lparr>aaUserID = string_of_bytes (aavUserID view)\<rparr>)"

definition AuthRejectPayloadSize :: "bytes \<Rightarrow> int" where
  "AuthRejectPayloadSize message = saturatedInt (8 + of_nat (length message))"

definition EncodeAuthRejectInto :: "bytes \<Rightarrow> u16 \<Rightarrow> u16 \<Rightarrow> bytes \<Rightarrow> bytes go" where
  "EncodeAuthRejectInto dst statusCode reasonCode message =
     (if length message > MaxFrameBytes - HeaderSize - 8
      then Inl (Err ''auth reject message too large'')
      else run_writes (grow dst (nat (AuthRejectPayloadSize message)))
        [Put 0 (be16 statusCode), Put 2 (be16 reasonCode),
         Put 4 (be32 (of_nat (length message))), Copy 8 message])"

definition EncodeAuthReject :: "AuthReject \<Rightarrow> bytes go" where
  "EncodeAuthReject v = ignore_err (EncodeAuthRejectInto [] (arStatusCode v) (arReasonCode v)
     (bytes_of_string (arMessage v)))"

definition DecodeAuthRejectView :: "bytes \<Rightarrow> AuthRejectView go" where
  "DecodeAuthRejectView payload =
     (if length payload < 8 then Inl (Err ''auth reject payload too small'')
      else
        go_try (Uint32 payload 4 8) (\<lambda>msgLen.
        let (end', ok) = checkedPayloadEnd payload 8 msgLen in
        if \<not> ok \<or> end' \<noteq> length payload then Inl (Err ''invalid auth reject message length'')
        else
        go_try (Uint16 payload 0 2) (\<lambda>status.
        go_try (Uint16 payload 2 4) (\<lambda>reason.
        go_try (slice payload 8 end') (\<lambda>message.
          Inr \<lparr>arvStatusCode = status, arvReasonCode = reason, arvMessage = message\<rparr>)))))"

definition DecodeAuthReject :: "bytes \<Rightarrow> AuthReject go" where
  "DecodeAuthReject payload = go_try (DecodeAuthRejectView payload) (\<lambda>view.
     Inr \<lparr>arStatusCode = arvStatusCode view, arReasonCode = arvReasonCode view,
          arMessage = string_of_bytes (arvMessage view)\<rparr>)"

section \<open>The formats are exact on every payload a frame carries\<close>

abbreviation maxPayload :: nat where "maxPayload \<equiv> MaxFrameBytes - HeaderSize"

lemma saturatedInt_of_nat: "m < 2 ^ 63 \<Longrightarrow> nat (saturatedInt (of_nat m)) = m"
  by (simp add: saturatedInt_eq uint_nat unat_of_nat)

lemma saturatedInt_small:
  "n \<le> maxPayload \<Longrightarrow> numeral k \<le> (1000 :: nat) \<Longrightarrow>
     nat (saturatedInt (numeral k + of_nat n)) = numeral k + n"
  using saturatedInt_of_nat [of "numeral k + n"] order_less_le_trans [of "numeral k + n" 9000000 "2 ^ 63"]
  by fastforce

lemmas payload_sizes = ErrorMessagePayloadSize_def GoAwayPayloadSize_def
  TransferResumePayloadSize_def AuthRequestPayloadSize_def AuthAcceptPayloadSize_def
  AuthRejectPayloadSize_def

text \<open>The trailing text of a format starts at \<open>k\<close> and its length, stored in the four bytes before
  \<open>k\<close>, must reach the end of the payload.\<close>

definition tailBytes :: "bytes \<Rightarrow> bytes" where
  "tailBytes b = be32 (of_nat (length b)) @ b"

lemma checked_tail:
  "k \<le> length p \<Longrightarrow> checkedPayloadEnd p k n = (length p, True) \<longleftrightarrow> unat n = length p - k"
  by (auto simp: checkedPayloadEnd_def)

lemma tail_cut:
  assumes "4 \<le> k" "k \<le> length p" "unat (rd32 (sl p (k - 4) k)) = length p - k"
  shows "p = sl p 0 (k - 4) @ tailBytes (sl p k (length p))"
proof -
  have "be32 (of_nat (length p - k)) = sl p (k - 4) k"
    using assms by (simp flip: assms(3))
  then show ?thesis
    using assms sl_whole [of p] by (simp add: tailBytes_def sl_join)
qed

subsection \<open>Hello\<close>

definition helloWf :: "Hello \<Rightarrow> bool" where
  "helloWf v \<longleftrightarrow> length (helloRole v) \<le> maxPayload - 40"

definition helloBytes :: "Hello \<Rightarrow> bytes" where
  "helloBytes v = be64 (helloCapabilities v) @ be32 (helloMaxFrameBytes v) @ be32 (helloMaxChunkSize v)
     @ be64 (helloMaxTransferBytes v) @ be32 (helloMaxInFlightChunks v)
     @ be32 (helloHeartbeatMillis v) @ replicate 4 0 @ tailBytes (bytes_of_string (helloRole v))"

lemma EncodeHelloMessage_eq: "helloWf v \<Longrightarrow> EncodeHelloMessage v = Inr (helloBytes v)"
  by (simp add: EncodeHelloMessage_def helloBytes_def helloWf_def run_writes_fill fill_Put_gap tailBytes_def)

lemma DecodeHelloMessage_bytes: "helloWf v \<Longrightarrow> DecodeHelloMessage (helloBytes v) = Inr v"
  by (cases v) (simp add: DecodeHelloMessage_def helloBytes_def helloWf_def tailBytes_def
    unat_small_length)

lemma DecodeHelloMessage_exact:
  assumes "DecodeHelloMessage p = Inr v" "length p \<le> maxPayload"
  shows "helloWf v \<and> p = helloBytes v"
proof -
  from assms have "40 \<le> length p" "unat (rd32 (sl p 36 40)) = length p - 40"
    by (auto simp: DecodeHelloMessage_def checked_tail checkedPayloadEnd_True split: if_splits prod.splits)
  then have "sl p 0 8 @ sl p 8 12 @ sl p 12 16 @ sl p 16 24 @ sl p 24 28 @ sl p 28 32 @ sl p 32 36
      @ tailBytes (sl p 40 (length p)) = p"
    using tail_cut [of 40 p] by (simp add: sl_join sl_join_append)
  with assms show ?thesis
    by (auto simp: DecodeHelloMessage_def checkedPayloadEnd_True helloBytes_def helloWf_def
        split: if_splits prod.splits)
qed

lemma DecodeHelloMessage_no_panic: "DecodeHelloMessage p \<noteq> Inl GoPanic"
  by (auto simp: DecodeHelloMessage_def checkedPayloadEnd_def)

interpretation hello_codec: framed_codec EncodeHelloMessage DecodeHelloMessage helloWf maxPayload
  by unfold_locales
    (auto simp: EncodeHelloMessage_eq DecodeHelloMessage_bytes DecodeHelloMessage_no_panic
      dest: DecodeHelloMessage_exact)

subsection \<open>Error messages\<close>

definition errorMessageWf :: "ErrorMessage \<Rightarrow> bool" where
  "errorMessageWf v \<longleftrightarrow> length (emMessage v) \<le> maxPayload - 32"

definition errorMessageBytes :: "ErrorMessage \<Rightarrow> bytes" where
  "errorMessageBytes v = be32 (emCode v) @ [emFrameType v] @ replicate 3 0 @ be32 (emSchemaID v)
     @ be64 (emRequestID v) @ be64 (emTransferID v) @ tailBytes (bytes_of_string (emMessage v))"

lemma EncodeErrorMessageStringInto_eq:
  "length (emMessage v) \<le> maxPayload - 32 \<Longrightarrow> EncodeErrorMessageStringInto dst (emCode v) (emFrameType v)
       (emSchemaID v) (emRequestID v) (emTransferID v) (emMessage v) = Inr (errorMessageBytes v)"
  by (simp add: EncodeErrorMessageStringInto_def errorMessageBytes_def run_writes_fill tailBytes_def payload_sizes saturatedInt_small)

lemma DecodeErrorMessage_bytes: "errorMessageWf v \<Longrightarrow> DecodeErrorMessage (errorMessageBytes v) = Inr v"
  by (cases v) (simp add: DecodeErrorMessage_def DecodeErrorMessageView_def errorMessageBytes_def errorMessageWf_def tailBytes_def
    unat_small_length nth_append)

lemma DecodeErrorMessage_exact:
  assumes "DecodeErrorMessage p = Inr v" "length p \<le> maxPayload"
  shows "errorMessageWf v \<and> p = errorMessageBytes v"
proof -
  from assms have len: "32 \<le> length p" "unat (rd32 (sl p 28 32)) = length p - 32"
    by (auto simp: DecodeErrorMessage_def DecodeErrorMessageView_def checkedPayloadEnd_True go_try_eq_Inr
        split: if_splits prod.splits)
  moreover from len have "[p ! 4] = sl p 4 5"
    using sl_single [of 4 p] by simp
  ultimately have "sl p 0 4 @ [p ! 4] @ sl p 5 8 @ sl p 8 12 @ sl p 12 20 @ sl p 20 28
      @ tailBytes (sl p 32 (length p)) = p"
    using tail_cut [of 32 p] by (simp only: sl_join sl_join_append) (simp add: sl_join sl_join_append)
  with assms len show ?thesis
    by (auto simp: DecodeErrorMessage_def DecodeErrorMessageView_def checkedPayloadEnd_True errorMessageBytes_def errorMessageWf_def
        split: if_splits prod.splits)
qed

lemma DecodeErrorMessage_no_panic: "DecodeErrorMessage p \<noteq> Inl GoPanic"
  by (auto simp: DecodeErrorMessage_def DecodeErrorMessageView_def checkedPayloadEnd_def)

interpretation error_codec: framed_codec EncodeErrorMessage DecodeErrorMessage errorMessageWf maxPayload
  by unfold_locales
    (auto simp: EncodeErrorMessage_def EncodeErrorMessageStringInto_eq DecodeErrorMessage_bytes errorMessageWf_def DecodeErrorMessage_no_panic
      dest: DecodeErrorMessage_exact)

subsection \<open>GoAway\<close>

definition goAwayWf :: "GoAway \<Rightarrow> bool" where
  "goAwayWf v \<longleftrightarrow> length (gaMessage v) \<le> maxPayload - 32 \<and> \<not> closeFlagsInvalid (gaFlags v)"

definition goAwayBytes :: "GoAway \<Rightarrow> bytes" where
  "goAwayBytes v = be32 (gaReasonCode v) @ be16 (gaFlags v) @ replicate 2 0 @ be32 (gaDrainTimeoutMillis v)
     @ be64 (gaLastAcceptedRequestID v) @ be64 (gaLastAcceptedTransferID v)
     @ tailBytes (bytes_of_string (gaMessage v))"

lemma EncodeGoAwayInto_eq:
  "length (gaMessage v) \<le> maxPayload - 32 \<Longrightarrow> EncodeGoAwayInto dst (gaReasonCode v) (gaFlags v)
       (gaDrainTimeoutMillis v) (gaLastAcceptedRequestID v) (gaLastAcceptedTransferID v)
       (bytes_of_string (gaMessage v)) = Inr (goAwayBytes v)"
  by (simp add: EncodeGoAwayInto_def goAwayBytes_def run_writes_fill tailBytes_def payload_sizes saturatedInt_small)

lemma DecodeGoAway_bytes: "goAwayWf v \<Longrightarrow> DecodeGoAway (goAwayBytes v) = Inr v"
  by (cases v) (simp add: DecodeGoAway_def DecodeGoAwayView_def goAwayBytes_def goAwayWf_def tailBytes_def
    unat_small_length)

lemma DecodeGoAway_exact:
  assumes "DecodeGoAway p = Inr v" "length p \<le> maxPayload"
  shows "goAwayWf v \<and> p = goAwayBytes v"
proof -
  from assms have len: "32 \<le> length p" "unat (rd32 (sl p 28 32)) = length p - 32"
    by (auto simp: DecodeGoAway_def DecodeGoAwayView_def checkedPayloadEnd_True go_try_eq_Inr
        split: if_splits prod.splits)
  then have "sl p 0 4 @ sl p 4 6 @ sl p 6 8 @ sl p 8 12 @ sl p 12 20 @ sl p 20 28
      @ tailBytes (sl p 32 (length p)) = p"
    using tail_cut [of 32 p] by (simp add: sl_join sl_join_append)
  with assms len show ?thesis
    by (auto simp: DecodeGoAway_def DecodeGoAwayView_def checkedPayloadEnd_True goAwayBytes_def goAwayWf_def
        split: if_splits prod.splits)
qed

lemma DecodeGoAway_no_panic: "DecodeGoAway p \<noteq> Inl GoPanic"
  by (auto simp: DecodeGoAway_def DecodeGoAwayView_def checkedPayloadEnd_def)

interpretation goaway_codec: framed_codec EncodeGoAway DecodeGoAway goAwayWf maxPayload
  by unfold_locales
    (auto simp: EncodeGoAway_def EncodeGoAwayInto_eq DecodeGoAway_bytes goAwayWf_def DecodeGoAway_no_panic
      dest: DecodeGoAway_exact)

subsection \<open>Transfer resume\<close>

definition transferResumeWf :: "TransferResume \<Rightarrow> bool" where
  "transferResumeWf v \<longleftrightarrow> length (trToken v) \<le> maxPayload - 24"

definition transferResumeBytes :: "TransferResume \<Rightarrow> bytes" where
  "transferResumeBytes v = be64 (trTransferID v) @ be64 (trReceivedBytes v) @ be32 (trNextChunk v)
     @ tailBytes (trToken v)"

lemma EncodeTransferResumeInto_eq:
  "length (trToken v) \<le> maxPayload - 24 \<Longrightarrow> EncodeTransferResumeInto dst (trTransferID v) (trReceivedBytes v) (trNextChunk v) (trToken v) = Inr (transferResumeBytes v)"
  by (simp add: EncodeTransferResumeInto_def transferResumeBytes_def run_writes_fill tailBytes_def payload_sizes saturatedInt_small)

lemma DecodeTransferResume_bytes: "transferResumeWf v \<Longrightarrow> DecodeTransferResume (transferResumeBytes v) = Inr v"
  by (cases v) (simp add: DecodeTransferResume_def DecodeTransferResumeView_def transferResumeBytes_def transferResumeWf_def tailBytes_def
    unat_small_length)

lemma DecodeTransferResume_exact:
  assumes "DecodeTransferResume p = Inr v" "length p \<le> maxPayload"
  shows "transferResumeWf v \<and> p = transferResumeBytes v"
proof -
  from assms have len: "24 \<le> length p" "unat (rd32 (sl p 20 24)) = length p - 24"
    by (auto simp: DecodeTransferResume_def DecodeTransferResumeView_def checkedPayloadEnd_True go_try_eq_Inr
        split: if_splits prod.splits)
  then have "sl p 0 8 @ sl p 8 16 @ sl p 16 20
      @ tailBytes (sl p 24 (length p)) = p"
    using tail_cut [of 24 p] by (simp add: sl_join sl_join_append)
  with assms len show ?thesis
    by (auto simp: DecodeTransferResume_def DecodeTransferResumeView_def checkedPayloadEnd_True transferResumeBytes_def transferResumeWf_def
        split: if_splits prod.splits)
qed

lemma DecodeTransferResume_no_panic: "DecodeTransferResume p \<noteq> Inl GoPanic"
  by (auto simp: DecodeTransferResume_def DecodeTransferResumeView_def checkedPayloadEnd_def)

interpretation resume_codec: framed_codec EncodeTransferResume DecodeTransferResume transferResumeWf maxPayload
  by unfold_locales
    (auto simp: EncodeTransferResume_def EncodeTransferResumeInto_eq DecodeTransferResume_bytes transferResumeWf_def DecodeTransferResume_no_panic
      dest: DecodeTransferResume_exact)

subsection \<open>Authentication\<close>

definition authRequestWf :: "AuthRequest \<Rightarrow> bool" where
  "authRequestWf v \<longleftrightarrow> length (authPayload v) \<le> maxPayload - 12"

definition authRequestBytes :: "AuthRequest \<Rightarrow> bytes" where
  "authRequestBytes v = be16 (authMethod v) @ be16 (authFlags v) @ be32 (authSchemaID v) @ tailBytes (authPayload v)"

lemma EncodeAuthRequestInto_eq:
  "length (authPayload v) \<le> maxPayload - 12 \<Longrightarrow> EncodeAuthRequestInto dst v = Inr (authRequestBytes v)"
  by (simp add: EncodeAuthRequestInto_def authRequestBytes_def run_writes_fill tailBytes_def payload_sizes saturatedInt_small)

lemma DecodeAuthRequest_bytes: "authRequestWf v \<Longrightarrow> DecodeAuthRequest (authRequestBytes v) = Inr v"
  by (cases v) (simp add: DecodeAuthRequest_def DecodeAuthRequestView_def authRequestBytes_def authRequestWf_def tailBytes_def
    unat_small_length)

lemma DecodeAuthRequest_exact:
  assumes "DecodeAuthRequest p = Inr v" "length p \<le> maxPayload"
  shows "authRequestWf v \<and> p = authRequestBytes v"
proof -
  from assms have len: "12 \<le> length p" "unat (rd32 (sl p 8 12)) = length p - 12"
    by (auto simp: DecodeAuthRequest_def DecodeAuthRequestView_def checkedPayloadEnd_True go_try_eq_Inr
        split: if_splits prod.splits)
  then have "sl p 0 2 @ sl p 2 4 @ sl p 4 8
      @ tailBytes (sl p 12 (length p)) = p"
    using tail_cut [of 12 p] by (simp add: sl_join sl_join_append)
  with assms len show ?thesis
    by (auto simp: DecodeAuthRequest_def DecodeAuthRequestView_def checkedPayloadEnd_True authRequestBytes_def authRequestWf_def
        split: if_splits prod.splits)
qed

lemma DecodeAuthRequest_no_panic: "DecodeAuthRequest p \<noteq> Inl GoPanic"
  by (auto simp: DecodeAuthRequest_def DecodeAuthRequestView_def checkedPayloadEnd_def)

interpretation auth_request_codec: framed_codec EncodeAuthRequest DecodeAuthRequest authRequestWf maxPayload
  by unfold_locales
    (auto simp: EncodeAuthRequest_def EncodeAuthRequestInto_eq DecodeAuthRequest_bytes authRequestWf_def DecodeAuthRequest_no_panic
      dest: DecodeAuthRequest_exact)

definition authRejectWf :: "AuthReject \<Rightarrow> bool" where
  "authRejectWf v \<longleftrightarrow> length (arMessage v) \<le> maxPayload - 8"

definition authRejectBytes :: "AuthReject \<Rightarrow> bytes" where
  "authRejectBytes v = be16 (arStatusCode v) @ be16 (arReasonCode v) @ tailBytes (bytes_of_string (arMessage v))"

lemma EncodeAuthRejectInto_eq:
  "length (arMessage v) \<le> maxPayload - 8 \<Longrightarrow> EncodeAuthRejectInto dst (arStatusCode v) (arReasonCode v) (bytes_of_string (arMessage v)) = Inr (authRejectBytes v)"
  by (simp add: EncodeAuthRejectInto_def authRejectBytes_def run_writes_fill tailBytes_def payload_sizes saturatedInt_small)

lemma DecodeAuthReject_bytes: "authRejectWf v \<Longrightarrow> DecodeAuthReject (authRejectBytes v) = Inr v"
  by (cases v) (simp add: DecodeAuthReject_def DecodeAuthRejectView_def authRejectBytes_def authRejectWf_def tailBytes_def
    unat_small_length)

lemma DecodeAuthReject_exact:
  assumes "DecodeAuthReject p = Inr v" "length p \<le> maxPayload"
  shows "authRejectWf v \<and> p = authRejectBytes v"
proof -
  from assms have len: "8 \<le> length p" "unat (rd32 (sl p 4 8)) = length p - 8"
    by (auto simp: DecodeAuthReject_def DecodeAuthRejectView_def checkedPayloadEnd_True go_try_eq_Inr
        split: if_splits prod.splits)
  then have "sl p 0 2 @ sl p 2 4
      @ tailBytes (sl p 8 (length p)) = p"
    using tail_cut [of 8 p] by (simp add: sl_join sl_join_append)
  with assms len show ?thesis
    by (auto simp: DecodeAuthReject_def DecodeAuthRejectView_def checkedPayloadEnd_True authRejectBytes_def authRejectWf_def
        split: if_splits prod.splits)
qed

lemma DecodeAuthReject_no_panic: "DecodeAuthReject p \<noteq> Inl GoPanic"
  by (auto simp: DecodeAuthReject_def DecodeAuthRejectView_def checkedPayloadEnd_def)

interpretation auth_reject_codec: framed_codec EncodeAuthReject DecodeAuthReject authRejectWf maxPayload
  by unfold_locales
    (auto simp: EncodeAuthReject_def EncodeAuthRejectInto_eq DecodeAuthReject_bytes authRejectWf_def DecodeAuthReject_no_panic
      dest: DecodeAuthReject_exact)

definition authAcceptWf :: "AuthAccept \<Rightarrow> bool" where
  "authAcceptWf v \<longleftrightarrow> length (aaUserID v) \<le> maxPayload - 4"

definition authAcceptBytes :: "AuthAccept \<Rightarrow> bytes" where
  "authAcceptBytes v = tailBytes (bytes_of_string (aaUserID v))"

lemma EncodeAuthAcceptInto_eq:
  "length (aaUserID v) \<le> maxPayload - 4 \<Longrightarrow> EncodeAuthAcceptInto dst (bytes_of_string (aaUserID v)) = Inr (authAcceptBytes v)"
  by (simp add: EncodeAuthAcceptInto_def authAcceptBytes_def run_writes_fill tailBytes_def payload_sizes saturatedInt_small)

lemma DecodeAuthAccept_bytes: "authAcceptWf v \<Longrightarrow> DecodeAuthAccept (authAcceptBytes v) = Inr v"
  by (cases v) (simp add: DecodeAuthAccept_def DecodeAuthAcceptView_def authAcceptBytes_def authAcceptWf_def tailBytes_def
    unat_small_length)

lemma DecodeAuthAccept_exact:
  assumes "DecodeAuthAccept p = Inr v" "length p \<le> maxPayload"
  shows "authAcceptWf v \<and> p = authAcceptBytes v"
proof -
  from assms have len: "4 \<le> length p" "unat (rd32 (sl p 0 4)) = length p - 4"
    by (auto simp: DecodeAuthAccept_def DecodeAuthAcceptView_def checkedPayloadEnd_True go_try_eq_Inr
        split: if_splits prod.splits)
  then have "tailBytes (sl p 4 (length p)) = p"
    using tail_cut [of 4 p] by (simp add: sl_join sl_join_append)
  with assms len show ?thesis
    by (auto simp: DecodeAuthAccept_def DecodeAuthAcceptView_def checkedPayloadEnd_True authAcceptBytes_def authAcceptWf_def
        split: if_splits prod.splits)
qed

lemma DecodeAuthAccept_no_panic: "DecodeAuthAccept p \<noteq> Inl GoPanic"
  by (auto simp: DecodeAuthAccept_def DecodeAuthAcceptView_def checkedPayloadEnd_def)

interpretation auth_accept_codec: framed_codec EncodeAuthAccept DecodeAuthAccept authAcceptWf maxPayload
  by unfold_locales
    (auto simp: EncodeAuthAccept_def EncodeAuthAcceptInto_eq DecodeAuthAccept_bytes authAcceptWf_def DecodeAuthAccept_no_panic
      dest: DecodeAuthAccept_exact)

section \<open>Properties\<close>

lemma EncodeErrorMessageInto_string:
  "EncodeErrorMessageInto dst c f s r t (bytes_of_string m) = EncodeErrorMessageStringInto dst c f s r t m"
  by (cases "length m \<le> maxPayload - 32")
    (simp_all add: EncodeErrorMessageInto_def EncodeErrorMessageStringInto_def payload_sizes
      saturatedInt_small)

text \<open>C30: On every payload a frame can carry, the decoders of the hello, error, goaway, transfer
  resume and authentication messages are exact: they accept a byte string precisely when it is
  the encoding of a message that fits a frame (and, for goaway, has a legal flag combination), and
  return that message.\<close>

theorem messages_decode_exact:
  assumes "length p \<le> MaxFrameBytes - HeaderSize"
  shows "(DecodeHelloMessage p = Inr h \<longleftrightarrow> helloWf h \<and> EncodeHelloMessage h = Inr p)
    \<and> (DecodeErrorMessage p = Inr e \<longleftrightarrow> errorMessageWf e \<and> EncodeErrorMessage e = Inr p)
    \<and> (DecodeGoAway p = Inr g \<longleftrightarrow> goAwayWf g \<and> EncodeGoAway g = Inr p)
    \<and> (DecodeTransferResume p = Inr t \<longleftrightarrow> transferResumeWf t \<and> EncodeTransferResume t = Inr p)
    \<and> (DecodeAuthRequest p = Inr a \<longleftrightarrow> authRequestWf a \<and> EncodeAuthRequest a = Inr p)
    \<and> (DecodeAuthAccept p = Inr u \<longleftrightarrow> authAcceptWf u \<and> EncodeAuthAccept u = Inr p)
    \<and> (DecodeAuthReject p = Inr r \<longleftrightarrow> authRejectWf r \<and> EncodeAuthReject r = Inr p)"
  using assms
  by (simp add: hello_codec.dec_framed_iff error_codec.dec_framed_iff goaway_codec.dec_framed_iff
      resume_codec.dec_framed_iff auth_request_codec.dec_framed_iff
      auth_accept_codec.dec_framed_iff auth_reject_codec.dec_framed_iff)

theorem messages_decode_exact_witness:
  "DecodeAuthReject [1, 145, 0, 0, 0, 0, 0, 2, 110, 111]
     = Inr \<lparr>arStatusCode = AuthRejectUnauthorized, arReasonCode = 0, arMessage = ''no''\<rparr>"
proof -
  let ?r = "\<lparr>arStatusCode = AuthRejectUnauthorized, arReasonCode = 0, arMessage = ''no''\<rparr>"
  have "authRejectWf ?r" "EncodeAuthReject ?r = Inr [1, 145, 0, 0, 0, 0, 0, 2, 110, 111]"
    using EncodeAuthRejectInto_eq [of ?r "[]"]
    by (simp_all add: authRejectWf_def EncodeAuthReject_def authRejectBytes_def tailBytes_def
        be16_def be32_def bytes_of_string_def)
  then show ?thesis
    using messages_decode_exact [where p = "[1, 145, 0, 0, 0, 0, 0, 2, 110, 111]" and r = ?r] by simp
qed

end
