(* ===== verification/Etp_TransferMeta.thy ===== *)
theory Etp_TransferMeta
  imports Etp_Messages
begin

text \<open>
  The payloads of \<open>internal/etp/payload.go\<close> with repeated metadata: transfer fields, transfer parts,
  events and transfer begin. Sizes are computed in \<open>uint64\<close> as in the code. The lemmas show that
  what the encoders write decodes to the same message, that the decoders never panic, and that
  they accept no other bytes, except that an empty field list may also be sent as an explicit
  zero count.
\<close>

section \<open>Transfer fields\<close>

record TransferField =
  tfKey :: string
  tfValue :: string

definition transferFieldsPayloadSize64 :: "TransferField list \<Rightarrow> u64" where
  "transferFieldsPayloadSize64 flds =
     (if length flds = 0 then 0
      else foldl (\<lambda>n field. n + (8 + of_nat (length (tfKey field)) + of_nat (length (tfValue field)))) 4 flds)"

definition transferFieldsPayloadSize :: "TransferField list \<Rightarrow> int" where
  "transferFieldsPayloadSize flds = saturatedInt (transferFieldsPayloadSize64 flds)"

text \<open>An encoder of a part of a message receives the slice \<open>out[base:]\<close>: its writes are those at
  \<open>base + pos\<close> of the whole buffer, and \<open>Put base []\<close> stands for the slice expression, which panics
  when \<open>base\<close> is past the end.\<close>

fun transferFieldWrites :: "nat \<Rightarrow> nat \<Rightarrow> TransferField list \<Rightarrow> buf_write list" where
  "transferFieldWrites base pos [] = []"
| "transferFieldWrites base pos (field # flds) =
     (let key = bytes_of_string (tfKey field); value = bytes_of_string (tfValue field);
          pos1 = pos + 4; pos2 = pos1 + length key; pos3 = pos2 + 4
      in [Put (base + pos) (be32 (of_nat (length key))), Copy (base + pos1) key,
          Put (base + pos2) (be32 (of_nat (length value))), Copy (base + pos3) value]
         @ transferFieldWrites base (pos3 + length value) flds)"

definition encodeTransferFieldsInto :: "nat \<Rightarrow> TransferField list \<Rightarrow> buf_write list" where
  "encodeTransferFieldsInto base flds =
     Put base [] #
     (if length flds = 0 then []
      else Put base (be32 (of_nat (length flds))) # transferFieldWrites base 4 flds)"

text \<open>The step the decoders repeat for a length-prefixed string at \<open>pos\<close>: \<open>if pos+4 > len(payload)\<close>,
  read the length, \<open>checkedPayloadEnd\<close>, take the slice and advance; both failures return the same
  error.\<close>

definition lengthPrefixed :: "go_error \<Rightarrow> bytes \<Rightarrow> nat \<Rightarrow> (bytes \<times> nat) go" where
  "lengthPrefixed err payload pos =
     (if pos + 4 > length payload then Inl err
      else go_try (Uint32 payload pos (pos + 4)) (\<lambda>n.
        let (end', ok) = checkedPayloadEnd payload (pos + 4) n
        in if \<not> ok then Inl err else go_try (slice payload (pos + 4) end') (\<lambda>b. Inr (b, end'))))"

fun decodeTransferFieldLoop :: "bytes \<Rightarrow> nat \<Rightarrow> nat \<Rightarrow> (TransferField list \<times> nat) go" where
  "decodeTransferFieldLoop payload 0 pos = Inr ([], pos)"
| "decodeTransferFieldLoop payload (Suc n) pos =
     go_try (lengthPrefixed (Err ''invalid transfer field key length'') payload pos) (\<lambda>(key, pos1).
     go_try (lengthPrefixed (Err ''invalid transfer field value length'') payload pos1) (\<lambda>(value, pos2).
     go_try (decodeTransferFieldLoop payload n pos2) (\<lambda>(flds, pos3).
       Inr (\<lparr>tfKey = string_of_bytes key, tfValue = string_of_bytes value\<rparr> # flds, pos3))))"

definition decodeTransferFields :: "bytes \<Rightarrow> TransferField list go" where
  "decodeTransferFields payload =
     (if length payload = 0 then Inr []
      else if length payload < 4 then Inl (Err ''invalid transfer fields length'')
      else
        go_try (Uint32 payload 0 4) (\<lambda>fieldCount.
        if unat fieldCount > MaxTransferFields \<or>
           (ucast fieldCount :: u64) * 8 > of_nat (length payload - 4)
        then Inl (Err ''invalid transfer field count'')
        else go_try (decodeTransferFieldLoop payload (unat fieldCount) 4) (\<lambda>(flds, pos).
          if pos \<noteq> length payload then Inl (Err ''invalid transfer fields trailing data'')
          else Inr flds)))"

section \<open>Events\<close>

record EventMessage =
  evEvent :: string
  evData :: bytes
  evFields :: "TransferField list"

record EventMessageView =
  evvEvent :: bytes
  evvData :: bytes
  evvFields :: "TransferField list"

definition eventMessagePayloadSize64 :: "nat \<Rightarrow> nat \<Rightarrow> TransferField list \<Rightarrow> u64" where
  "eventMessagePayloadSize64 eventBytes dataBytes flds =
     8 + of_nat eventBytes + of_nat dataBytes + transferFieldsPayloadSize64 flds"

definition EventMessagePayloadSize :: "bytes \<Rightarrow> bytes \<Rightarrow> TransferField list \<Rightarrow> int" where
  "EventMessagePayloadSize event data flds =
     saturatedInt (eventMessagePayloadSize64 (length event) (length data) flds)"

definition EventMessagePayloadSizeString :: "string \<Rightarrow> bytes \<Rightarrow> TransferField list \<Rightarrow> int" where
  "EventMessagePayloadSizeString event data flds =
     saturatedInt (eventMessagePayloadSize64 (length event) (length data) flds)"

definition EncodeEventMessageWithFieldsInto ::
    "bytes \<Rightarrow> bytes \<Rightarrow> bytes \<Rightarrow> TransferField list \<Rightarrow> bytes go" where
  "EncodeEventMessageWithFieldsInto dst event data flds =
     (let size64 = eventMessagePayloadSize64 (length event) (length data) flds
      in if size64 > of_nat (MaxFrameBytes - HeaderSize)
         then Inl (Err ''event payload exceeds max frame size'')
         else
           let dataOffset = 4 + length event; fieldsOffset = dataOffset + 4 + length data
           in run_writes (grow dst (unat size64))
                ([Put 0 (be32 (of_nat (length event))), Put 4 event,
                  Put dataOffset (be32 (of_nat (length data))), Put (dataOffset + 4) data]
                 @ encodeTransferFieldsInto fieldsOffset flds))"

definition EncodeEventMessageInto :: "bytes \<Rightarrow> bytes \<Rightarrow> bytes \<Rightarrow> bytes go" where
  "EncodeEventMessageInto dst event data = EncodeEventMessageWithFieldsInto dst event data []"

definition encodeEventMessageStringWithFieldsSizedInto ::
    "bytes \<Rightarrow> string \<Rightarrow> bytes \<Rightarrow> TransferField list \<Rightarrow> nat \<Rightarrow> bytes go" where
  "encodeEventMessageStringWithFieldsSizedInto dst event data flds n =
     (let dataOffset = 4 + length event; fieldsOffset = dataOffset + 4 + length data
      in run_writes (grow dst n)
           ([Put 0 (be32 (of_nat (length event))), Put 4 (bytes_of_string event),
             Put dataOffset (be32 (of_nat (length data))), Put (dataOffset + 4) data]
            @ encodeTransferFieldsInto fieldsOffset flds))"

definition EncodeEventMessageStringWithFieldsInto ::
    "bytes \<Rightarrow> string \<Rightarrow> bytes \<Rightarrow> TransferField list \<Rightarrow> bytes go" where
  "EncodeEventMessageStringWithFieldsInto dst event data flds =
     (let size64 = eventMessagePayloadSize64 (length event) (length data) flds
      in if size64 > of_nat (MaxFrameBytes - HeaderSize)
         then Inl (Err ''event payload exceeds max frame size'')
         else encodeEventMessageStringWithFieldsSizedInto dst event data flds (unat size64))"

definition EncodeEventMessage :: "EventMessage \<Rightarrow> bytes go" where
  "EncodeEventMessage v =
     ignore_err (EncodeEventMessageStringWithFieldsInto [] (evEvent v) (evData v) (evFields v))"

definition DecodeEventMessageView :: "bytes \<Rightarrow> EventMessageView go" where
  "DecodeEventMessageView payload =
     (if length payload < 8 then Inl (Err ''event payload too small'')
      else
        go_try (Uint32 payload 0 4) (\<lambda>eventLen.
        let (dataLenOffset, ok) = checkedPayloadEnd payload 4 eventLen in
        if \<not> ok \<or> length payload - dataLenOffset < 4 then Inl (Err ''invalid event name length'')
        else
        go_try (Uint32 payload dataLenOffset (dataLenOffset + 4)) (\<lambda>dataLen.
        let (end', ok) = checkedPayloadEnd payload (dataLenOffset + 4) dataLen in
        if \<not> ok then Inl (Err ''invalid event data length'')
        else
        go_try (slice payload end' (length payload)) (\<lambda>rest.
        go_try (decodeTransferFields rest) (\<lambda>flds.
        go_try (slice payload 4 dataLenOffset) (\<lambda>event.
        go_try (slice payload (dataLenOffset + 4) end') (\<lambda>data.
          Inr \<lparr>evvEvent = event, evvData = data, evvFields = flds\<rparr>)))))))"

definition DecodeEventMessage :: "bytes \<Rightarrow> EventMessage go" where
  "DecodeEventMessage payload = go_try (DecodeEventMessageView payload) (\<lambda>view.
     Inr \<lparr>evEvent = string_of_bytes (evvEvent view), evData = evvData view,
          evFields = evvFields view\<rparr>)"

section \<open>Transfer parts and transfer begin\<close>

record TransferPart =
  tpField :: string
  tpIndex :: u32
  tpName :: string
  tpTotalSize :: u64
  tpContentType :: u32

record TransferBegin =
  tbTotalSize :: u64
  tbChunkSize :: u32
  tbChunkCount :: u32
  tbContentType :: u32
  tbFlags :: u32
  tbChecksum :: bytes
  tbName :: string
  tbEvent :: string
  tbField :: string
  tbIndex :: u32
  tbParts :: "TransferPart list"
  tbFields :: "TransferField list"

definition transferPartsPayloadSize64 :: "TransferPart list \<Rightarrow> u64" where
  "transferPartsPayloadSize64 parts =
     foldl (\<lambda>n part. n + (24 + of_nat (length (tpField part)) + of_nat (length (tpName part)))) 4 parts"

definition transferPartsPayloadSize :: "TransferPart list \<Rightarrow> int" where
  "transferPartsPayloadSize parts = saturatedInt (transferPartsPayloadSize64 parts)"

definition transferBeginPayloadSize64 ::
    "string \<Rightarrow> string \<Rightarrow> string \<Rightarrow> TransferPart list \<Rightarrow> TransferField list \<Rightarrow> u64" where
  "transferBeginPayloadSize64 name event field parts flds =
     72 + of_nat (length name) + of_nat (length event) + of_nat (length field)
       + transferPartsPayloadSize64 parts + transferFieldsPayloadSize64 flds"

fun transferPartWrites :: "nat \<Rightarrow> nat \<Rightarrow> TransferPart list \<Rightarrow> buf_write list" where
  "transferPartWrites base pos [] = []"
| "transferPartWrites base pos (part # parts) =
     (let field = bytes_of_string (tpField part); name = bytes_of_string (tpName part);
          pos1 = pos + 4; pos2 = pos1 + length field; pos3 = pos2 + 4; pos4 = pos3 + 4;
          pos5 = pos4 + length name; pos6 = pos5 + 8
      in [Put (base + pos) (be32 (of_nat (length field))), Copy (base + pos1) field,
          Put (base + pos2) (be32 (tpIndex part)),
          Put (base + pos3) (be32 (of_nat (length name))), Copy (base + pos4) name,
          Put (base + pos5) (be64 (tpTotalSize part)), Put (base + pos6) (be32 (tpContentType part))]
         @ transferPartWrites base (pos6 + 4) parts)"

definition encodeTransferPartsInto :: "nat \<Rightarrow> TransferPart list \<Rightarrow> buf_write list" where
  "encodeTransferPartsInto base parts =
     Put base [] # Put base (be32 (of_nat (length parts))) # transferPartWrites base 4 parts"

definition EncodeTransferBeginInto :: "bytes \<Rightarrow> TransferBegin \<Rightarrow> bytes go" where
  "EncodeTransferBeginInto dst v =
     (let size64 = transferBeginPayloadSize64 (tbName v) (tbEvent v) (tbField v) (tbParts v) (tbFields v)
      in if size64 > of_nat (MaxFrameBytes - HeaderSize) then Inr []
         else
           let partsSize = unat (transferPartsPayloadSize64 (tbParts v));
               pos1 = 60 + length (tbName v); pos2 = pos1 + 4; pos3 = pos2 + length (tbEvent v);
               pos4 = pos3 + 4; pos5 = pos4 + length (tbField v); pos6 = pos5 + 4;
               pos7 = pos6 + partsSize
           in run_writes (grow dst (unat size64))
                ([Put 0 (be64 (tbTotalSize v)), Put 8 (be32 (tbChunkSize v)),
                  Put 12 (be32 (tbChunkCount v)), Put 16 (be32 (tbContentType v)),
                  Put 20 (be32 (tbFlags v)), Put 24 (tbChecksum v),
                  Put 56 (be32 (of_nat (length (tbName v)))), Copy 60 (bytes_of_string (tbName v)),
                  Put pos1 (be32 (of_nat (length (tbEvent v)))), Copy pos2 (bytes_of_string (tbEvent v)),
                  Put pos3 (be32 (of_nat (length (tbField v)))), Copy pos4 (bytes_of_string (tbField v)),
                  Put pos5 (be32 (tbIndex v))]
                 @ encodeTransferPartsInto pos6 (tbParts v)
                 @ encodeTransferFieldsInto pos7 (tbFields v)))"

definition EncodeTransferBegin :: "TransferBegin \<Rightarrow> bytes go" where
  "EncodeTransferBegin v = EncodeTransferBeginInto [] v"

fun decodeTransferPartLoop :: "bytes \<Rightarrow> nat \<Rightarrow> nat \<Rightarrow> (TransferPart list \<times> nat) go" where
  "decodeTransferPartLoop payload 0 pos = Inr ([], pos)"
| "decodeTransferPartLoop payload (Suc n) pos =
     go_try (lengthPrefixed (Err ''invalid transfer part field length'') payload pos) (\<lambda>(field, pos1).
     if pos1 + 4 > length payload then Inl (Err ''invalid transfer part index'')
     else
     go_try (Uint32 payload pos1 (pos1 + 4)) (\<lambda>index.
     go_try (lengthPrefixed (Err ''invalid transfer part name length'') payload (pos1 + 4)) (\<lambda>(name, pos2).
     if pos2 + 12 > length payload then Inl (Err ''invalid transfer part metadata'')
     else
     go_try (Uint64 payload pos2 (pos2 + 8)) (\<lambda>totalSize.
     go_try (Uint32 payload (pos2 + 8) (pos2 + 12)) (\<lambda>contentType.
     go_try (decodeTransferPartLoop payload n (pos2 + 12)) (\<lambda>(parts, pos3).
       Inr (\<lparr>tpField = string_of_bytes field, tpIndex = index, tpName = string_of_bytes name,
             tpTotalSize = totalSize, tpContentType = contentType\<rparr> # parts, pos3)))))))"

definition decodeTransferParts :: "bytes \<Rightarrow> (TransferPart list \<times> nat) go" where
  "decodeTransferParts payload =
     (if length payload < 4 then Inl (Err ''invalid transfer parts length'')
      else
        go_try (Uint32 payload 0 4) (\<lambda>partCount.
        if unat partCount > MaxTransferParts \<or>
           (ucast partCount :: u64) * 24 > of_nat (length payload - 4)
        then Inl (Err ''invalid transfer part count'')
        else decodeTransferPartLoop payload (unat partCount) 4))"

definition DecodeTransferBegin :: "bytes \<Rightarrow> TransferBegin go" where
  "DecodeTransferBegin payload =
     (if length payload < 72 then Inl (Err ''transfer begin payload too small'')
      else
        go_try (Uint32 payload 56 60) (\<lambda>nameLen.
        let (nameEnd, ok) = checkedPayloadEnd payload 60 nameLen in
        if \<not> ok then Inl (Err ''invalid transfer name length'')
        else
        go_try (slice payload 24 56) (\<lambda>checksum.
        go_try (lengthPrefixed (Err ''invalid transfer event length'') payload nameEnd) (\<lambda>(event, pos1).
        go_try (lengthPrefixed (Err ''invalid transfer field name length'') payload pos1) (\<lambda>(fieldName, pos2).
        if pos2 + 4 > length payload then Inl (Err ''invalid transfer field index'')
        else
        go_try (Uint32 payload pos2 (pos2 + 4)) (\<lambda>index.
        go_try (slice payload (pos2 + 4) (length payload)) (\<lambda>rest.
        go_try (decodeTransferParts rest) (\<lambda>(parts, partsBytes).
        go_try (slice payload (pos2 + 4 + partsBytes) (length payload)) (\<lambda>rest'.
        go_try (decodeTransferFields rest') (\<lambda>flds.
        go_try (Uint64 payload 0 8) (\<lambda>totalSize.
        go_try (Uint32 payload 8 12) (\<lambda>chunkSize.
        go_try (Uint32 payload 12 16) (\<lambda>chunkCount.
        go_try (Uint32 payload 16 20) (\<lambda>contentType.
        go_try (Uint32 payload 20 24) (\<lambda>flags.
        go_try (slice payload 60 nameEnd) (\<lambda>name.
          Inr \<lparr>tbTotalSize = totalSize, tbChunkSize = chunkSize, tbChunkCount = chunkCount,
               tbContentType = contentType, tbFlags = flags, tbChecksum = checksum,
               tbName = string_of_bytes name, tbEvent = string_of_bytes event,
               tbField = string_of_bytes fieldName, tbIndex = index, tbParts = parts,
               tbFields = flds\<rparr>))))))))))))))))"

definition TransferFlagChecksumSHA256 :: u32 where [simp]: "TransferFlagChecksumSHA256 = 1"

section \<open>What the encoders write\<close>

definition fieldBytes :: "TransferField \<Rightarrow> bytes" where
  "fieldBytes f = tailBytes (bytes_of_string (tfKey f)) @ tailBytes (bytes_of_string (tfValue f))"

definition fieldsBytes :: "TransferField list \<Rightarrow> bytes" where
  "fieldsBytes fs = (if fs = [] then [] else be32 (of_nat (length fs)) @ concat (map fieldBytes fs))"

definition partBytes :: "TransferPart \<Rightarrow> bytes" where
  "partBytes p = tailBytes (bytes_of_string (tpField p)) @ be32 (tpIndex p)
     @ tailBytes (bytes_of_string (tpName p)) @ be64 (tpTotalSize p) @ be32 (tpContentType p)"

definition partsBytes :: "TransferPart list \<Rightarrow> bytes" where
  "partsBytes ps = be32 (of_nat (length ps)) @ concat (map partBytes ps)"

definition eventHead :: "EventMessage \<Rightarrow> bytes" where
  "eventHead v = tailBytes (bytes_of_string (evEvent v)) @ tailBytes (evData v)"

definition eventBytes :: "EventMessage \<Rightarrow> bytes" where
  "eventBytes v = eventHead v @ fieldsBytes (evFields v)"

definition beginHead :: "TransferBegin \<Rightarrow> bytes" where
  "beginHead v = be64 (tbTotalSize v) @ be32 (tbChunkSize v) @ be32 (tbChunkCount v)
     @ be32 (tbContentType v) @ be32 (tbFlags v) @ tbChecksum v
     @ tailBytes (bytes_of_string (tbName v)) @ tailBytes (bytes_of_string (tbEvent v))
     @ tailBytes (bytes_of_string (tbField v)) @ be32 (tbIndex v) @ partsBytes (tbParts v)"

definition beginBytes :: "TransferBegin \<Rightarrow> bytes" where
  "beginBytes v = beginHead v @ fieldsBytes (tbFields v)"

lemma length_tailBytes [simp]: "length (tailBytes b) = 4 + length b"
  by (simp add: tailBytes_def)

lemma length_fieldBytes: "length (fieldBytes f) = 8 + length (tfKey f) + length (tfValue f)"
  by (simp add: fieldBytes_def)

lemma length_partBytes: "length (partBytes p) = 24 + length (tpField p) + length (tpName p)"
  by (simp add: partBytes_def)

lemma field_sizes:
  "foldl (\<lambda>n f. n + (8 + of_nat (length (tfKey f)) + of_nat (length (tfValue f)))) a fs
     = a + (of_nat (length (concat (map fieldBytes fs))) :: u64)"
  by (induction fs arbitrary: a) (simp_all add: length_fieldBytes algebra_simps)

lemma part_sizes:
  "foldl (\<lambda>n p. n + (24 + of_nat (length (tpField p)) + of_nat (length (tpName p)))) a ps
     = a + (of_nat (length (concat (map partBytes ps))) :: u64)"
  by (induction ps arbitrary: a) (simp_all add: length_partBytes algebra_simps)

lemma transferFieldsPayloadSize64_eq: "transferFieldsPayloadSize64 fs = of_nat (length (fieldsBytes fs))"
  unfolding transferFieldsPayloadSize64_def fieldsBytes_def field_sizes by simp

lemma transferPartsPayloadSize64_eq: "transferPartsPayloadSize64 ps = of_nat (length (partsBytes ps))"
  unfolding transferPartsPayloadSize64_def partsBytes_def part_sizes by simp

lemma eventMessagePayloadSize64_eq:
  "eventMessagePayloadSize64 (length (evEvent v)) (length (evData v)) (evFields v)
     = of_nat (length (eventBytes v))"
  by (simp add: eventMessagePayloadSize64_def transferFieldsPayloadSize64_eq eventBytes_def eventHead_def)

lemma transferBeginPayloadSize64_eq:
  "length (tbChecksum v) = 32 \<Longrightarrow>
   transferBeginPayloadSize64 (tbName v) (tbEvent v) (tbField v) (tbParts v) (tbFields v)
     = of_nat (length (beginBytes v))"
  by (simp add: transferBeginPayloadSize64_def transferFieldsPayloadSize64_eq
      transferPartsPayloadSize64_eq beginBytes_def beginHead_def)

lemma fill_transferFieldWrites:
  "base + pos = length w \<Longrightarrow> length (concat (map fieldBytes fs)) \<le> length rest \<Longrightarrow>
     fill w rest (transferFieldWrites base pos fs @ ws) =
       fill (w @ concat (map fieldBytes fs)) (drop (length (concat (map fieldBytes fs))) rest) ws"
proof (induction fs arbitrary: pos w rest)
  case (Cons f fs)
  then show ?case
    using Cons.IH [of "pos + 8 + length (tfKey f) + length (tfValue f)" "w @ fieldBytes f"
        "drop (length (fieldBytes f)) rest"]
    by (simp add: Let_def fieldBytes_def tailBytes_def ac_simps)
qed simp

lemma fill_transferPartWrites:
  "base + pos = length w \<Longrightarrow> length (concat (map partBytes ps)) \<le> length rest \<Longrightarrow>
     fill w rest (transferPartWrites base pos ps @ ws) =
       fill (w @ concat (map partBytes ps)) (drop (length (concat (map partBytes ps))) rest) ws"
proof (induction ps arbitrary: pos w rest)
  case (Cons p ps)
  then show ?case
    using Cons.IH [of "pos + 24 + length (tpField p) + length (tpName p)" "w @ partBytes p"
        "drop (length (partBytes p)) rest"]
    by (simp add: Let_def partBytes_def tailBytes_def ac_simps)
qed simp

lemma fill_encodeTransferFieldsInto:
  "base = length w \<Longrightarrow> length (fieldsBytes fs) \<le> length rest \<Longrightarrow>
     fill w rest (encodeTransferFieldsInto base fs @ ws) =
       fill (w @ fieldsBytes fs) (drop (length (fieldsBytes fs)) rest) ws"
  by (auto simp: encodeTransferFieldsInto_def fieldsBytes_def fill_transferFieldWrites add.commute)

lemma fill_encodeTransferPartsInto:
  "base = length w \<Longrightarrow> length (partsBytes ps) \<le> length rest \<Longrightarrow>
     fill w rest (encodeTransferPartsInto base ps @ ws) =
       fill (w @ partsBytes ps) (drop (length (partsBytes ps)) rest) ws"
  by (simp add: encodeTransferPartsInto_def partsBytes_def fill_transferPartWrites add.commute)

lemma u64_small_le:
  "n \<le> maxPayload \<Longrightarrow> \<not> (of_nat n :: u64) > of_nat maxPayload \<and> unat (of_nat n :: u64) = n"
  by (simp add: word_less_nat_alt unat_of_nat)

lemma EncodeEventMessageStringWithFieldsInto_eq:
  assumes "length (eventBytes v) \<le> maxPayload"
  shows "EncodeEventMessageStringWithFieldsInto dst (evEvent v) (evData v) (evFields v)
    = Inr (eventBytes v)"
  using u64_small_le [OF assms]
  unfolding EncodeEventMessageStringWithFieldsInto_def eventMessagePayloadSize64_eq
  by (simp add: Let_def encodeEventMessageStringWithFieldsSizedInto_def run_writes_fill
      fill_encodeTransferFieldsInto [where ws = "[]", simplified] eventBytes_def eventHead_def tailBytes_def)

lemma EncodeTransferBeginInto_eq:
  assumes "length (tbChecksum v) = 32" "length (beginBytes v) \<le> maxPayload"
  shows "EncodeTransferBeginInto dst v = Inr (beginBytes v)"
proof -
  have "length (partsBytes (tbParts v)) \<le> maxPayload"
    using assms(2) by (simp add: beginBytes_def beginHead_def)
  from this [THEN u64_small_le] show ?thesis
    using u64_small_le [OF assms(2)] assms
    unfolding EncodeTransferBeginInto_def transferBeginPayloadSize64_eq [OF assms(1)]
      transferPartsPayloadSize64_eq
    by (simp add: Let_def run_writes_fill fill_encodeTransferPartsInto
        fill_encodeTransferFieldsInto [where ws = "[]", simplified]
        beginBytes_def beginHead_def tailBytes_def)
qed

section \<open>What the decoders accept\<close>

lemma sl_eq_append:
  assumes "a \<le> b" "b \<le> length p"
  shows "sl p a b = xs @ ys \<longleftrightarrow>
    a + length xs \<le> b \<and> sl p a (a + length xs) = xs \<and> sl p (a + length xs) b = ys"
proof
  assume eq: "sl p a b = xs @ ys"
  then have "length (sl p a b) = length xs + length ys"
    by (simp del: length_sl)
  then have le: "a + length xs \<le> b"
    using assms by simp
  then have "sl p a (a + length xs) @ sl p (a + length xs) b = xs @ ys"
    using eq by (simp add: sl_join)
  with le assms show "a + length xs \<le> b \<and> sl p a (a + length xs) = xs \<and> sl p (a + length xs) b = ys"
    by simp
next
  assume "a + length xs \<le> b \<and> sl p a (a + length xs) = xs \<and> sl p (a + length xs) b = ys"
  then show "sl p a b = xs @ ys"
    by (metis le_add1 sl_join)
qed

lemma lengthPrefixed_iff:
  "lengthPrefixed err p pos = Inr (b, e) \<longleftrightarrow>
     e = pos + 4 + length b \<and> e \<le> length p \<and> sl p pos e = tailBytes b \<and> length b < 2 ^ 32"
proof
  assume *: "lengthPrefixed err p pos = Inr (b, e)"
  then have n: "pos + 4 \<le> length p" "pos + 4 + unat (rd32 (sl p pos (pos + 4))) \<le> length p"
      "e = pos + 4 + unat (rd32 (sl p pos (pos + 4)))" "b = sl p (pos + 4) e"
    by (auto simp: lengthPrefixed_def checkedPayloadEnd_True split: if_splits prod.splits)
  moreover from n have "length b = unat (rd32 (sl p pos (pos + 4)))"
    by simp
  moreover from this have "of_nat (length b) = rd32 (sl p pos (pos + 4))"
    by simp
  ultimately show "e = pos + 4 + length b \<and> e \<le> length p \<and> sl p pos e = tailBytes b \<and> length b < 2 ^ 32"
    using unsigned_less [of "rd32 (sl p pos (pos + 4))", where 'a = nat]
    by (simp add: tailBytes_def sl_eq_append)
next
  assume *: "e = pos + 4 + length b \<and> e \<le> length p \<and> sl p pos e = tailBytes b \<and> length b < 2 ^ 32"
  then have "rd32 (sl p pos (pos + 4)) = of_nat (length b)" "sl p (pos + 4) e = b"
    by (auto simp: tailBytes_def sl_eq_append)
  with * show "lengthPrefixed err p pos = Inr (b, e)"
    by (simp add: lengthPrefixed_def unat_of_nat)
qed

lemma lengthPrefixed_read:
  "sl p pos (pos + (4 + length b)) = tailBytes b \<Longrightarrow> pos + (4 + length b) \<le> length p \<Longrightarrow>
   length b < 2 ^ 32 \<Longrightarrow> lengthPrefixed err p pos = Inr (b, pos + (4 + length b))"
  by (simp add: lengthPrefixed_iff ac_simps)

lemma lengthPrefixed_no_panic: "err \<noteq> GoPanic \<Longrightarrow> lengthPrefixed err p pos \<noteq> Inl GoPanic"
  by (auto simp: lengthPrefixed_def checkedPayloadEnd_def)

definition fieldSmall :: "TransferField \<Rightarrow> bool" where
  "fieldSmall f \<longleftrightarrow> length (tfKey f) < 2 ^ 32 \<and> length (tfValue f) < 2 ^ 32"

definition partSmall :: "TransferPart \<Rightarrow> bool" where
  "partSmall p \<longleftrightarrow> length (tpField p) < 2 ^ 32 \<and> length (tpName p) < 2 ^ 32"

subsection \<open>Loops that read repeated items\<close>

text \<open>A decoding loop reads \<open>n\<close> items one after the other. The laws say that one round accepts
  exactly the bytes of one item; then the whole loop accepts exactly the concatenation.\<close>

locale item_loop =
  fixes loop :: "bytes \<Rightarrow> nat \<Rightarrow> nat \<Rightarrow> ('i list \<times> nat) go"
    and ibytes :: "'i \<Rightarrow> bytes" and small :: "'i \<Rightarrow> bool"
  assumes loop_0: "loop p 0 pos = Inr ([], pos)"
    and loop_Suc: "loop p (Suc n) pos = Inr (xs, e) \<longleftrightarrow>
      (\<exists>x ys. xs = x # ys \<and> pos + length (ibytes x) \<le> length p
        \<and> sl p pos (pos + length (ibytes x)) = ibytes x \<and> small x
        \<and> loop p n (pos + length (ibytes x)) = Inr (ys, e))"
    and loop_no_panic: "loop p n pos \<noteq> Inl GoPanic"
begin

lemma loop_iff:
  "pos \<le> length p \<Longrightarrow> loop p n pos = Inr (xs, e) \<longleftrightarrow>
     length xs = n \<and> pos \<le> e \<and> e \<le> length p \<and> sl p pos e = concat (map ibytes xs) \<and> list_all small xs"
proof (induction n arbitrary: pos xs)
  case 0
  then show ?case by (auto simp: loop_0 sl_def)
next
  case (Suc n)
  show ?case
  proof (cases xs)
    case (Cons x ys)
    with Suc show ?thesis
      by (cases "pos \<le> e \<and> e \<le> length p")
        (auto simp: loop_Suc sl_eq_append)
  qed (simp add: loop_Suc)
qed

lemma loop_reads:
  "pos + length (concat (map ibytes xs)) \<le> length p \<Longrightarrow> list_all small xs \<Longrightarrow>
   sl p pos (pos + length (concat (map ibytes xs))) = concat (map ibytes xs) \<Longrightarrow>
     loop p (length xs) pos = Inr (xs, pos + length (concat (map ibytes xs)))"
  by (simp add: loop_iff)

end

interpretation field_loop: item_loop decodeTransferFieldLoop fieldBytes fieldSmall
proof
  fix p n pos xs e
  show "decodeTransferFieldLoop p (Suc n) pos = Inr (xs, e) \<longleftrightarrow>
      (\<exists>x ys. xs = x # ys \<and> pos + length (fieldBytes x) \<le> length p
        \<and> sl p pos (pos + length (fieldBytes x)) = fieldBytes x \<and> fieldSmall x
        \<and> decodeTransferFieldLoop p n (pos + length (fieldBytes x)) = Inr (ys, e))"
    (is "?L \<longleftrightarrow> ?R")
  proof
    assume ?L
    then obtain k v ys pos1 pos2 where
        "lengthPrefixed (Err ''invalid transfer field key length'') p pos = Inr (k, pos1)"
        "lengthPrefixed (Err ''invalid transfer field value length'') p pos1 = Inr (v, pos2)"
        "decodeTransferFieldLoop p n pos2 = Inr (ys, e)"
        "xs = \<lparr>tfKey = string_of_bytes k, tfValue = string_of_bytes v\<rparr> # ys"
      by (auto simp: go_try_eq_Inr)
    then show ?R
      by (intro exI [of _ "\<lparr>tfKey = string_of_bytes k, tfValue = string_of_bytes v\<rparr>"] exI [of _ ys])
        (clarsimp simp: lengthPrefixed_iff fieldBytes_def fieldSmall_def sl_eq_append add.assoc)
  next
    assume ?R
    then obtain x ys where "xs = x # ys" "pos + length (fieldBytes x) \<le> length p"
        "sl p pos (pos + length (fieldBytes x)) = fieldBytes x" "fieldSmall x"
        "decodeTransferFieldLoop p n (pos + length (fieldBytes x)) = Inr (ys, e)"
      by blast
    moreover from this have
        "sl p pos (pos + (4 + length (tfKey x))) = tailBytes (bytes_of_string (tfKey x))"
        "sl p (pos + (4 + length (tfKey x))) (pos + length (fieldBytes x))
          = tailBytes (bytes_of_string (tfValue x))"
      by (simp_all add: fieldBytes_def sl_eq_append)
    ultimately show ?L
      using lengthPrefixed_read [of p pos "bytes_of_string (tfKey x)"]
        lengthPrefixed_read [of p "pos + (4 + length (tfKey x))" "bytes_of_string (tfValue x)"]
      by (simp add: length_fieldBytes fieldSmall_def add.assoc)
  qed
  show "decodeTransferFieldLoop p n pos \<noteq> Inl GoPanic"
    by (induction n arbitrary: pos)
      (auto simp: go_try_no_panic lengthPrefixed_no_panic split: prod.splits)
qed simp

interpretation part_loop: item_loop decodeTransferPartLoop partBytes partSmall
proof
  fix p n pos xs e
  show "decodeTransferPartLoop p (Suc n) pos = Inr (xs, e) \<longleftrightarrow>
      (\<exists>x ys. xs = x # ys \<and> pos + length (partBytes x) \<le> length p
        \<and> sl p pos (pos + length (partBytes x)) = partBytes x \<and> partSmall x
        \<and> decodeTransferPartLoop p n (pos + length (partBytes x)) = Inr (ys, e))"
    (is "?L \<longleftrightarrow> ?R")
  proof
    assume ?L
    then obtain f nm ys pos1 pos2 where *:
        "lengthPrefixed (Err ''invalid transfer part field length'') p pos = Inr (f, pos1)"
        "lengthPrefixed (Err ''invalid transfer part name length'') p (pos1 + 4) = Inr (nm, pos2)"
        "pos2 + 12 \<le> length p" "decodeTransferPartLoop p n (pos2 + 12) = Inr (ys, e)"
        "xs = \<lparr>tpField = string_of_bytes f, tpIndex = rd32 (sl p pos1 (pos1 + 4)),
             tpName = string_of_bytes nm, tpTotalSize = rd64 (sl p pos2 (pos2 + 8)),
             tpContentType = rd32 (sl p (pos2 + 8) (pos2 + 12))\<rparr> # ys"
      by (auto simp: go_try_eq_Inr split: if_splits)
    then show ?R
      by (intro exI [of _ "hd xs"] exI [of _ ys])
        (clarsimp simp: lengthPrefixed_iff partBytes_def partSmall_def sl_eq_append add.assoc)
  next
    assume ?R
    then obtain x ys where x: "xs = x # ys" "pos + length (partBytes x) \<le> length p"
        "sl p pos (pos + length (partBytes x)) = partBytes x" "partSmall x"
        "decodeTransferPartLoop p n (pos + length (partBytes x)) = Inr (ys, e)"
      by blast
    define pos1 pos2 where "pos1 = pos + (4 + length (tpField x))"
      and "pos2 = pos1 + 4 + (4 + length (tpName x))"
    with x have "sl p pos pos1 = tailBytes (bytes_of_string (tpField x))"
        "sl p pos1 (pos1 + 4) = be32 (tpIndex x)"
        "sl p (pos1 + 4) pos2 = tailBytes (bytes_of_string (tpName x))"
        "sl p pos2 (pos2 + 8) = be64 (tpTotalSize x)"
        "sl p (pos2 + 8) (pos2 + 12) = be32 (tpContentType x)"
        "pos + length (partBytes x) = pos2 + 12"
      by (simp_all add: partBytes_def sl_eq_append add.assoc)
    with x show ?L
      using lengthPrefixed_read [of p pos "bytes_of_string (tpField x)"]
        lengthPrefixed_read [of p "pos1 + 4" "bytes_of_string (tpName x)"]
      by (simp add: partSmall_def pos1_def pos2_def)
  qed
  show "decodeTransferPartLoop p n pos \<noteq> Inl GoPanic"
    by (induction n arbitrary: pos)
      (auto simp: go_try_no_panic lengthPrefixed_no_panic split: prod.splits)
qed simp

subsection \<open>Field and part lists\<close>

definition fieldsWf :: "TransferField list \<Rightarrow> bool" where
  "fieldsWf fs \<longleftrightarrow> length fs \<le> MaxTransferFields \<and> list_all fieldSmall fs"

definition partsWf :: "TransferPart list \<Rightarrow> bool" where
  "partsWf ps \<longleftrightarrow> length ps \<le> MaxTransferParts \<and> list_all partSmall ps"

lemma count_check:
  assumes "unat (c :: u32) \<le> 1024" "m \<le> maxPayload" "k \<le> 24"
  shows "(ucast c :: u64) * of_nat k > of_nat m \<longleftrightarrow> unat c * k > m"
proof -
  have "unat c * k \<le> 1024 * 24"
    using assms by (intro mult_mono) auto
  moreover have "unat (ucast c :: u64) = unat c"
    using unsigned_less [of c, where 'a = nat] by (simp add: unsigned_ucast_eq take_bit_nat_eq_self)
  ultimately have "unat ((ucast c :: u64) * of_nat k) = unat c * k"
    using assms by (simp add: unat_word_ariths unat_of_nat)
  with assms show ?thesis
    by (simp add: word_less_nat_alt unat_of_nat)
qed

lemma fields_min_length: "8 * length fs \<le> length (concat (map fieldBytes fs))"
  by (induction fs) (simp_all add: length_fieldBytes)

lemma parts_min_length: "24 * length ps \<le> length (concat (map partBytes ps))"
  by (induction ps) (simp_all add: length_partBytes)

lemma decodeTransferFields_Nil: "decodeTransferFields [] = Inr []"
  by (simp add: decodeTransferFields_def)

lemma decodeTransferFields_bytes:
  assumes "fieldsWf fs" "4 + length (concat (map fieldBytes fs)) \<le> maxPayload"
  shows "decodeTransferFields (be32 (of_nat (length fs)) @ concat (map fieldBytes fs)) = Inr fs"
proof -
  have n: "unat (of_nat (length fs) :: u32) = length fs"
    using assms by (simp add: fieldsWf_def unat_of_nat)
  have "\<not> (ucast (of_nat (length fs) :: u32) :: u64) * 8 > of_nat (length (concat (map fieldBytes fs)))"
    using count_check [of "of_nat (length fs)" "length (concat (map fieldBytes fs))" 8]
      fields_min_length [of fs] assms
    by (simp add: n fieldsWf_def)
  then show ?thesis
    using assms n field_loop.loop_reads [of 4 fs "be32 (of_nat (length fs)) @ concat (map fieldBytes fs)"]
    by (simp add: decodeTransferFields_def fieldsWf_def)
qed

lemma decodeTransferFields_exact:
  assumes "decodeTransferFields p = Inr fs"
  shows "fieldsWf fs \<and> (p = fieldsBytes fs \<or> fs = [] \<and> p = be32 0)"
proof (cases "p = []")
  case True
  with assms show ?thesis
    by (simp add: decodeTransferFields_def fieldsWf_def fieldsBytes_def)
next
  case False
  with assms have p: "4 \<le> length p" "unat (rd32 (sl p 0 4)) \<le> 1024"
      "decodeTransferFieldLoop p (unat (rd32 (sl p 0 4))) 4 = Inr (fs, length p)"
    by (auto simp: decodeTransferFields_def go_try_eq_Inr split: if_splits)
  then have fs: "length fs = unat (rd32 (sl p 0 4))" "list_all fieldSmall fs"
      "sl p 4 (length p) = concat (map fieldBytes fs)"
    by (simp_all add: field_loop.loop_iff)
  moreover from fs(1) p have "be32 (of_nat (length fs)) = sl p 0 4"
    by simp
  moreover have "p = sl p 0 4 @ sl p 4 (length p)"
    using p by (simp add: sl_join)
  ultimately have "p = be32 (of_nat (length fs)) @ concat (map fieldBytes fs)"
    by simp
  then show ?thesis
    using p fs(1,2) by (cases fs) (simp_all add: fieldsWf_def fieldsBytes_def)
qed

lemma decodeTransferFields_fieldsBytes:
  "fieldsWf fs \<Longrightarrow> length (fieldsBytes fs) \<le> maxPayload \<Longrightarrow> decodeTransferFields (fieldsBytes fs) = Inr fs"
  using decodeTransferFields_bytes [of fs] by (auto simp: fieldsBytes_def decodeTransferFields_Nil)

lemma decodeTransferParts_bytes:
  assumes "partsWf ps" "length (partsBytes ps @ rest) \<le> maxPayload"
  shows "decodeTransferParts (partsBytes ps @ rest) = Inr (ps, length (partsBytes ps))"
proof -
  have n: "unat (of_nat (length ps) :: u32) = length ps"
    using assms by (simp add: partsWf_def unat_of_nat)
  have "\<not> (ucast (of_nat (length ps) :: u32) :: u64) * 24
      > of_nat (length (concat (map partBytes ps) @ rest))"
    using count_check [of "of_nat (length ps)" "length (concat (map partBytes ps) @ rest)" 24]
      parts_min_length [of ps] assms
    by (simp add: n partsWf_def partsBytes_def)
  then show ?thesis
    using assms n part_loop.loop_reads [of 4 ps "partsBytes ps @ rest"]
    by (simp add: decodeTransferParts_def partsWf_def partsBytes_def)
qed

lemma decodeTransferParts_exact:
  assumes "decodeTransferParts p = Inr (ps, n)"
  shows "partsWf ps \<and> n = length (partsBytes ps) \<and> n \<le> length p \<and> sl p 0 n = partsBytes ps"
proof -
  from assms have p: "4 \<le> length p" "unat (rd32 (sl p 0 4)) \<le> 1024"
      "decodeTransferPartLoop p (unat (rd32 (sl p 0 4))) 4 = Inr (ps, n)"
    by (auto simp: decodeTransferParts_def go_try_eq_Inr split: if_splits)
  then have ps: "length ps = unat (rd32 (sl p 0 4))" "list_all partSmall ps" "4 \<le> n" "n \<le> length p"
      "sl p 4 n = concat (map partBytes ps)"
    by (simp_all add: part_loop.loop_iff)
  from ps(1) p have "be32 (of_nat (length ps)) = sl p 0 4"
    by simp
  then have b: "sl p 0 n = partsBytes ps"
    using ps sl_join [of 0 4 n p] by (simp add: partsBytes_def)
  then have "n = length (partsBytes ps)"
    using ps(4) by (metis diff_zero length_sl min.absorb1)
  with b ps p show ?thesis
    by (simp add: partsWf_def)
qed

lemma decode_lists_no_panic:
  "decodeTransferFields p \<noteq> Inl GoPanic" "decodeTransferParts p \<noteq> Inl GoPanic"
  by (auto simp: decodeTransferFields_def decodeTransferParts_def go_try_no_panic
      field_loop.loop_no_panic part_loop.loop_no_panic split: prod.splits)

section \<open>Events and transfer begin as codecs\<close>

definition eventWf :: "EventMessage \<Rightarrow> bool" where
  "eventWf v \<longleftrightarrow> length (eventBytes v) \<le> maxPayload \<and> length (evFields v) \<le> MaxTransferFields"

definition beginWf :: "TransferBegin \<Rightarrow> bool" where
  "beginWf v \<longleftrightarrow> length (tbChecksum v) = 32 \<and> length (beginBytes v) \<le> maxPayload
     \<and> length (tbParts v) \<le> MaxTransferParts \<and> length (tbFields v) \<le> MaxTransferFields"

lemma fields_small:
  "length (concat (map fieldBytes fs)) \<le> maxPayload \<Longrightarrow> list_all fieldSmall fs"
  by (induction fs) (simp_all add: length_fieldBytes fieldSmall_def)

lemma parts_small:
  "length (concat (map partBytes ps)) \<le> maxPayload \<Longrightarrow> list_all partSmall ps"
  by (induction ps) (simp_all add: length_partBytes partSmall_def)

lemma fieldsWf_small:
  "length (fieldsBytes fs) \<le> maxPayload \<Longrightarrow> length fs \<le> MaxTransferFields \<Longrightarrow> fieldsWf fs"
  using fields_small [of fs] by (auto simp: fieldsBytes_def fieldsWf_def split: if_splits)

lemma partsWf_small:
  "length (partsBytes ps) \<le> maxPayload \<Longrightarrow> length ps \<le> MaxTransferParts \<Longrightarrow> partsWf ps"
  using parts_small [of ps] by (simp add: partsBytes_def partsWf_def)

lemma DecodeEventMessage_bytes:
  assumes "eventWf v" shows "DecodeEventMessage (eventBytes v) = Inr v"
proof -
  have "decodeTransferFields (fieldsBytes (evFields v)) = Inr (evFields v)"
    using assms by (intro decodeTransferFields_fieldsBytes fieldsWf_small)
      (simp_all add: eventWf_def eventBytes_def)
  with assms show ?thesis
    by (cases v) (simp add: DecodeEventMessage_def DecodeEventMessageView_def eventBytes_def
        eventHead_def tailBytes_def eventWf_def unat_small_length)
qed

lemma checked_case:
  "(case checkedPayloadEnd p k n of (e, ok) \<Rightarrow> f e ok)
     = (if k + unat n \<le> length p then f (k + unat n) True else f 0 False)"
  by (auto simp: checkedPayloadEnd_def)

lemma DecodeEventMessage_exact:
  assumes "DecodeEventMessage p = Inr v"
  shows "length (evFields v) \<le> MaxTransferFields \<and>
    (p = eventBytes v \<or> evFields v = [] \<and> p = eventBytes v @ be32 0)"
proof -
  from assms obtain k e where p: "8 \<le> length p" "k = 4 + unat (rd32 (sl p 0 4))" "k + 4 \<le> length p"
      "e = k + 4 + unat (rd32 (sl p k (k + 4)))" "e \<le> length p"
      "evEvent v = string_of_bytes (sl p 4 k)" "evData v = sl p (k + 4) e"
      "decodeTransferFields (sl p e (length p)) = Inr (evFields v)"
    by (auto simp: DecodeEventMessage_def DecodeEventMessageView_def go_try_eq_Inr
        checked_case split: if_splits)
  from p have "be32 (of_nat (length (sl p 4 k))) = sl p 0 4"
      "be32 (of_nat (length (sl p (k + 4) e))) = sl p k (k + 4)"
    by simp_all
  then have "p = eventHead v @ sl p e (length p)"
    using p by (simp add: eventHead_def tailBytes_def sl_join)
  then show ?thesis
    using decodeTransferFields_exact [OF p(8)]
    by (auto simp: eventBytes_def fieldsWf_def fieldsBytes_def)
qed

lemma DecodeEventMessage_no_panic: "DecodeEventMessage p \<noteq> Inl GoPanic"
  by (auto simp: DecodeEventMessage_def DecodeEventMessageView_def go_try_no_panic
      decode_lists_no_panic checkedPayloadEnd_def)

interpretation event_codec: wire_codec EncodeEventMessage DecodeEventMessage eventWf
  by unfold_locales
    (simp_all add: EncodeEventMessage_def EncodeEventMessageStringWithFieldsInto_eq eventWf_def
      DecodeEventMessage_bytes DecodeEventMessage_no_panic)

lemma DecodeTransferBegin_bytes:
  assumes "beginWf v" shows "DecodeTransferBegin (beginBytes v) = Inr v"
proof -
  have "decodeTransferFields (fieldsBytes (tbFields v)) = Inr (tbFields v)"
    using assms by (intro decodeTransferFields_fieldsBytes fieldsWf_small)
      (simp_all add: beginWf_def beginBytes_def)
  moreover have "decodeTransferParts (partsBytes (tbParts v) @ fieldsBytes (tbFields v))
      = Inr (tbParts v, length (partsBytes (tbParts v)))"
    using assms by (intro decodeTransferParts_bytes partsWf_small)
      (simp_all add: beginWf_def beginBytes_def beginHead_def)
  ultimately show ?thesis
    using assms
    by (cases v) (simp add: DecodeTransferBegin_def beginBytes_def beginHead_def lengthPrefixed_def
        tailBytes_def beginWf_def unat_small_length)
qed

lemma DecodeTransferBegin_no_panic: "DecodeTransferBegin p \<noteq> Inl GoPanic"
proof (cases "72 \<le> length p")
  case True
  then show ?thesis
    by (auto simp: DecodeTransferBegin_def go_try_no_panic decode_lists_no_panic checked_case
        lengthPrefixed_no_panic slice_def dest!: decodeTransferParts_exact)
qed (simp add: DecodeTransferBegin_def)

lemma sl_sl: "a + n \<le> length p \<Longrightarrow> sl (sl p a (length p)) 0 n = sl p a (a + n)"
  by (simp add: sl_def)

lemma DecodeTransferBegin_exact:
  assumes "DecodeTransferBegin p = Inr v"
  shows "length (tbChecksum v) = 32 \<and> length (tbParts v) \<le> MaxTransferParts \<and>
    length (tbFields v) \<le> MaxTransferFields \<and>
    (p = beginBytes v \<or> tbFields v = [] \<and> p = beginBytes v @ be32 0)"
proof -
  from assms obtain k pos1 pos2 e ev fld where p: "72 \<le> length p" "k = 60 + unat (rd32 (sl p 56 60))"
      "k \<le> length p"
      "lengthPrefixed (Err ''invalid transfer event length'') p k = Inr (ev, pos1)"
      "lengthPrefixed (Err ''invalid transfer field name length'') p pos1 = Inr (fld, pos2)"
      "pos2 + 4 + e \<le> length p"
      "decodeTransferParts (sl p (pos2 + 4) (length p)) = Inr (tbParts v, e)"
      "decodeTransferFields (sl p (pos2 + 4 + e) (length p)) = Inr (tbFields v)"
      "v = \<lparr>tbTotalSize = rd64 (sl p 0 8), tbChunkSize = rd32 (sl p 8 12), tbChunkCount = rd32 (sl p 12 16),
            tbContentType = rd32 (sl p 16 20), tbFlags = rd32 (sl p 20 24), tbChecksum = sl p 24 56,
            tbName = string_of_bytes (sl p 60 k), tbEvent = string_of_bytes ev,
            tbField = string_of_bytes fld, tbIndex = rd32 (sl p pos2 (pos2 + 4)),
            tbParts = tbParts v, tbFields = tbFields v\<rparr>"
    by (auto simp: DecodeTransferBegin_def go_try_eq_Inr checked_case slice_eq_Inr split: if_splits)
  have parts: "partsWf (tbParts v)" "sl p (pos2 + 4) (pos2 + 4 + e) = partsBytes (tbParts v)"
    using decodeTransferParts_exact [OF p(7)] p(6) sl_sl [of "pos2 + 4" e p] by auto
  have name: "be32 (of_nat (length (sl p 60 k))) = sl p 56 60"
    using p(1-3) by simp
  have tails: "k \<le> pos1" "pos1 \<le> pos2" "sl p k pos1 = tailBytes ev" "sl p pos1 pos2 = tailBytes fld"
    using p(4,5) by (auto simp: lengthPrefixed_iff)
  have "p = sl p 0 56 @ sl p 56 60 @ sl p 60 k @ sl p k pos1 @ sl p pos1 pos2 @ sl p pos2 (pos2 + 4)
      @ sl p (pos2 + 4) (pos2 + 4 + e) @ sl p (pos2 + 4 + e) (length p)"
    using p(1,3,6) p(2) tails(1,2) by (simp only: sl_join) (simp add: sl_join)
  also have "\<dots> = beginHead v @ sl p (pos2 + 4 + e) (length p)"
    using p(1-6) name tails unfolding parts(2)
    by (subst p(9)) (simp add: beginHead_def tailBytes_def sl_join sl_join_append)
  finally show ?thesis
    using decodeTransferFields_exact [OF p(8)] parts(1) p(1) arg_cong [OF p(9), of tbChecksum]
    by (auto simp: beginBytes_def fieldsWf_def partsWf_def fieldsBytes_def)
qed

interpretation begin_codec: wire_codec EncodeTransferBegin DecodeTransferBegin beginWf
proof
  fix v assume "beginWf v"
  then show "\<exists>p. EncodeTransferBegin v = Inr p \<and> DecodeTransferBegin p = Inr v"
    using EncodeTransferBeginInto_eq [of v "[]"] DecodeTransferBegin_bytes [of v]
    by (auto simp: EncodeTransferBegin_def beginWf_def)
qed (rule DecodeTransferBegin_no_panic)

section \<open>Properties\<close>

lemma EncodeEventMessageWithFieldsInto_string:
  "EncodeEventMessageWithFieldsInto dst (bytes_of_string s) d fs
     = EncodeEventMessageStringWithFieldsInto dst s d fs"
  by (simp add: EncodeEventMessageWithFieldsInto_def EncodeEventMessageStringWithFieldsInto_def
      encodeEventMessageStringWithFieldsSizedInto_def Let_def)

text \<open>An event that fits a frame and has at most 1024 fields, encoded into any reused buffer by
  either encoder (event name as bytes or as string), decodes to itself.\<close>

theorem event_roundtrip:
  assumes "eventWf v"
  shows "go_try (EncodeEventMessageStringWithFieldsInto dst (evEvent v) (evData v) (evFields v))
      DecodeEventMessage = Inr v
    \<and> EncodeEventMessageWithFieldsInto dst (bytes_of_string (evEvent v)) (evData v) (evFields v)
      = EncodeEventMessageStringWithFieldsInto dst (evEvent v) (evData v) (evFields v)"
  using assms DecodeEventMessage_bytes [of v]
  by (simp add: EncodeEventMessageWithFieldsInto_string EncodeEventMessageStringWithFieldsInto_eq
      eventWf_def)

abbreviation sampleEvent :: EventMessage where
  "sampleEvent \<equiv> \<lparr>evEvent = ''chat'', evData = [1, 2, 3],
     evFields = [\<lparr>tfKey = ''k'', tfValue = ''v''\<rparr>]\<rparr>"

theorem event_roundtrip_witness:
  "go_try (EncodeEventMessageStringWithFieldsInto [7, 7] (evEvent sampleEvent) (evData sampleEvent)
      (evFields sampleEvent)) DecodeEventMessage = Inr sampleEvent"
  by (rule event_roundtrip [THEN conjunct1])
    (simp add: eventWf_def eventBytes_def eventHead_def fieldsBytes_def fieldBytes_def)

text \<open>A transfer announcement that fits a frame, with a 32-byte checksum and at most 1024 parts
  and fields, encoded into any reused buffer, decodes to itself: part and field boundaries survive
  whatever bytes their strings hold.\<close>

theorem transfer_begin_roundtrip:
  assumes "beginWf v"
  shows "go_try (EncodeTransferBeginInto dst v) DecodeTransferBegin = Inr v"
  using assms DecodeTransferBegin_bytes [of v]
  by (simp add: EncodeTransferBeginInto_eq beginWf_def)

abbreviation sampleBegin :: TransferBegin where
  "sampleBegin \<equiv> \<lparr>tbTotalSize = 5, tbChunkSize = 4, tbChunkCount = 2, tbContentType = 1,
     tbFlags = TransferFlagChecksumSHA256, tbChecksum = replicate 32 9, tbName = ''a.txt'',
     tbEvent = ''upload'', tbField = ''file'', tbIndex = 0,
     tbParts = [\<lparr>tpField = ''file'', tpIndex = 0, tpName = ''a.txt'', tpTotalSize = 5, tpContentType = 1\<rparr>],
     tbFields = [\<lparr>tfKey = ''k'', tfValue = ''v''\<rparr>]\<rparr>"

theorem transfer_begin_roundtrip_witness:
  "go_try (EncodeTransferBeginInto [7, 7] sampleBegin) DecodeTransferBegin = Inr sampleBegin"
  by (rule transfer_begin_roundtrip)
    (simp add: beginWf_def beginBytes_def beginHead_def partsBytes_def partBytes_def fieldsBytes_def
      fieldBytes_def)

text \<open>C29: The event and transfer-begin decoders never panic on bytes a peer chose, enforce the limits
  of 1024 fields and parts, and accept no bytes but the canonical encoding of the message they
  return, with one exception: an empty field list may also be sent as an explicit zero count.\<close>

theorem metadata_decode_exact:
  "DecodeEventMessage p \<noteq> Inl GoPanic \<and> DecodeTransferBegin p \<noteq> Inl GoPanic
   \<and> (DecodeEventMessage p = Inr v \<longrightarrow> length (evFields v) \<le> MaxTransferFields
        \<and> (p = eventBytes v \<or> evFields v = [] \<and> p = eventBytes v @ be32 0))
   \<and> (DecodeTransferBegin p = Inr b \<longrightarrow> length (tbParts b) \<le> MaxTransferParts
        \<and> length (tbFields b) \<le> MaxTransferFields
        \<and> (p = beginBytes b \<or> tbFields b = [] \<and> p = beginBytes b @ be32 0))"
  using DecodeEventMessage_exact DecodeTransferBegin_exact
  by (auto simp: DecodeEventMessage_no_panic DecodeTransferBegin_no_panic)

theorem metadata_decode_exact_witness:
  "DecodeEventMessage (eventBytes sampleEvent) = Inr sampleEvent
   \<and> length (evFields sampleEvent) \<le> MaxTransferFields
   \<and> DecodeTransferBegin (beginBytes sampleBegin) = Inr sampleBegin
   \<and> length (tbParts sampleBegin) \<le> MaxTransferParts"
proof -
  have "DecodeEventMessage (eventBytes sampleEvent) = Inr sampleEvent"
    by (rule DecodeEventMessage_bytes)
      (simp add: eventWf_def eventBytes_def eventHead_def fieldsBytes_def fieldBytes_def)
  moreover have "DecodeTransferBegin (beginBytes sampleBegin) = Inr sampleBegin"
    by (rule DecodeTransferBegin_bytes)
      (simp add: beginWf_def beginBytes_def beginHead_def partsBytes_def partBytes_def
        fieldsBytes_def fieldBytes_def)
  ultimately show ?thesis
    using metadata_decode_exact [of "eventBytes sampleEvent" sampleEvent]
      metadata_decode_exact [of "beginBytes sampleBegin" _ sampleBegin] by blast
qed

lemma decodeTransferFields_too_many:
  assumes "length (fieldsBytes fs) \<le> maxPayload" "length fs > MaxTransferFields"
  shows "decodeTransferFields (fieldsBytes fs) = Inl (Err ''invalid transfer field count'')"
proof -
  have "8 * length fs \<le> maxPayload"
    using assms fields_min_length [of fs] by (auto simp: fieldsBytes_def split: if_splits)
  then have "unat (of_nat (length fs) :: u32) = length fs"
    by (simp add: unat_of_nat)
  moreover have "length (fieldsBytes fs) \<noteq> 0"
    using assms by (auto simp: fieldsBytes_def be32_def)
  ultimately show ?thesis
    using assms by (auto simp: decodeTransferFields_def fieldsBytes_def)
qed

text \<open>The limit of 1024 fields is enforced by the decoder only. The encoder accepts an event with
  more fields as long as it fits a frame, and the peer's decoder then rejects the payload.\<close>

theorem event_field_limit_asymmetric:
  assumes "length (eventBytes v) \<le> MaxFrameBytes - HeaderSize" "length (evFields v) > MaxTransferFields"
  shows "EncodeEventMessage v = Inr (eventBytes v)
    \<and> DecodeEventMessage (eventBytes v) = Inl (Err ''invalid transfer field count'')"
proof
  show "EncodeEventMessage v = Inr (eventBytes v)"
    using assms by (simp add: EncodeEventMessage_def EncodeEventMessageStringWithFieldsInto_eq)
  have "decodeTransferFields (fieldsBytes (evFields v)) = Inl (Err ''invalid transfer field count'')"
    using assms by (intro decodeTransferFields_too_many) (simp_all add: eventBytes_def)
  with assms show "DecodeEventMessage (eventBytes v) = Inl (Err ''invalid transfer field count'')"
    by (simp add: DecodeEventMessage_def DecodeEventMessageView_def eventBytes_def eventHead_def
        tailBytes_def unat_small_length)
qed

theorem event_field_limit_asymmetric_witness:
  "\<exists>v. EncodeEventMessage v = Inr (eventBytes v)
    \<and> DecodeEventMessage (eventBytes v) = Inl (Err ''invalid transfer field count'')"
proof -
  let ?v = "\<lparr>evEvent = ''e'', evData = [], evFields = replicate 1025 \<lparr>tfKey = ''k'', tfValue = ''v''\<rparr>\<rparr>"
  have "length (concat (replicate n b)) = n * length b" for n and b :: bytes
    by (induction n) simp_all
  then show ?thesis
    by (intro exI [of _ ?v] event_field_limit_asymmetric)
      (simp_all add: eventBytes_def eventHead_def fieldsBytes_def length_fieldBytes map_replicate)
qed

end
