(* ===== verification/Etp_Scheduler.thy ===== *)
theory Etp_Scheduler
  imports Etp_Frame "HOL-Library.Multiset"
begin

text \<open>
  The frame scheduler, \<open>internal/etp/scheduler.go\<close>: five lists of frames, one per priority. The
  operations run under one mutex, so a concurrent use is a sequence of them. The lemmas show that
  the scheduler is a stable priority queue: draining it gives the stable sort of what was pushed.
\<close>

section \<open>The scheduler\<close>

record FrameScheduler =
  queues :: "Frame list list"

definition NewFrameScheduler :: FrameScheduler where
  "NewFrameScheduler = \<lparr>queues = replicate 5 []\<rparr>"

definition clampPriority :: "u8 \<Rightarrow> u8" where
  "clampPriority priority = (if priority > PriorityIdle then PriorityIdle else priority)"

definition pushLocked :: "FrameScheduler \<Rightarrow> Frame \<Rightarrow> FrameScheduler" where
  "pushLocked s frame =
     (let priority = unat (clampPriority (hPriority (fHeader frame)))
      in s\<lparr>queues := (queues s)[priority := queues s ! priority @ [frame]]\<rparr>)"

text \<open>\<open>copy(queue, queue[1:])\<close>, clearing the last slot and shortening the slice drop the first
  frame.\<close>

fun popScan :: "nat list \<Rightarrow> FrameScheduler \<Rightarrow> (Frame \<times> FrameScheduler) option" where
  "popScan [] s = None"
| "popScan (priority # rest) s =
     (case queues s ! priority of
        [] \<Rightarrow> popScan rest s
      | frame # queue \<Rightarrow> Some (frame, s\<lparr>queues := (queues s)[priority := queue]\<rparr>))"

definition popLockedFrames :: "FrameScheduler \<Rightarrow> (Frame \<times> FrameScheduler) option" where
  "popLockedFrames s = popScan [0..<5] s"

definition lenLocked :: "FrameScheduler \<Rightarrow> nat" where
  "lenLocked s = foldl (\<lambda>total queue. total + length queue) 0 (queues s)"

definition PushPop :: "FrameScheduler \<Rightarrow> Frame \<Rightarrow> Frame \<times> FrameScheduler" where
  "PushPop s frame =
     (let s' = pushLocked s frame
      in case popLockedFrames s' of None \<Rightarrow> (frame, s') | Some r \<Rightarrow> r)"

text \<open>A client that pops \<open>n\<close> times.\<close>

fun drain :: "nat \<Rightarrow> FrameScheduler \<Rightarrow> Frame list" where
  "drain 0 s = []"
| "drain (Suc n) s = (case popLockedFrames s of None \<Rightarrow> [] | Some (f, s') \<Rightarrow> f # drain n s')"

section \<open>Lemmas\<close>

definition schedulerInv :: "FrameScheduler \<Rightarrow> bool" where
  "schedulerInv s \<longleftrightarrow> length (queues s) = 5"

definition frameRank :: "Frame \<Rightarrow> nat" where
  "frameRank f = unat (clampPriority (hPriority (fHeader f)))"

definition scheduled :: "FrameScheduler \<Rightarrow> Frame list" where
  "scheduled s = concat (queues s)"

lemma frameRank_less: "frameRank f < 5"
proof -
  have "clampPriority (hPriority (fHeader f)) \<le> 4"
    by (auto simp: clampPriority_def not_less)
  then show ?thesis
    by (simp add: frameRank_def word_le_nat_alt)
qed

lemma five: "xs = [xs ! 0, xs ! 1, xs ! 2, xs ! 3, xs ! 4]" if "length xs = 5"
  using that by (intro nth_equalityI) (auto simp: less_Suc_eq numeral_nat)

lemma schedulerInv_new: "schedulerInv NewFrameScheduler"
  by (simp add: schedulerInv_def NewFrameScheduler_def)

lemma schedulerInv_push: "schedulerInv s \<Longrightarrow> schedulerInv (pushLocked s f)"
  by (simp add: schedulerInv_def pushLocked_def Let_def)

lemma schedulerInv_pop:
  assumes "schedulerInv s" "popLockedFrames s = Some (f, s')" shows "schedulerInv s'"
proof -
  have "popScan ps s = Some (f, s') \<Longrightarrow> length (queues s') = length (queues s)" for ps
    by (induction ps) (auto split: list.splits)
  with assms show ?thesis
    by (simp add: schedulerInv_def popLockedFrames_def)
qed

lemma five_queues:
  assumes "schedulerInv s" obtains a b c d e where "queues s = [a, b, c, d, e]"
  using assms by (auto simp: schedulerInv_def length_Suc_conv eval_nat_numeral)

lemma upt5: "[0..<5] = [0, 1, 2, 3, 4 :: nat]"
  by (simp add: upt_conv_Cons)

text \<open>The first frame of the first non-empty queue is the first scheduled frame, and the others stay
  in place.\<close>

lemma pop_None_iff: "schedulerInv s \<Longrightarrow> popLockedFrames s = None \<longleftrightarrow> scheduled s = []"
  by (erule five_queues) (auto simp: popLockedFrames_def upt5 scheduled_def split: list.splits)

lemma pop_scheduled:
  "schedulerInv s \<Longrightarrow> popLockedFrames s = Some (f, s') \<Longrightarrow> scheduled s = f # scheduled s'"
  by (erule five_queues) (auto simp: popLockedFrames_def upt5 scheduled_def split: list.splits)

lemma lenLocked_eq: "schedulerInv s \<Longrightarrow> lenLocked s = length (scheduled s)"
  by (erule five_queues) (simp add: lenLocked_def scheduled_def)

lemma drain_scheduled: "schedulerInv s \<Longrightarrow> drain n s = take n (scheduled s)"
proof (induction n arbitrary: s)
  case (Suc n)
  then show ?case
    using pop_None_iff [of s] pop_scheduled [of s] schedulerInv_pop [of s]
    by (auto split: option.splits)
qed simp

text \<open>Pushing appends to the queue of the frame's clamped priority.\<close>

lemma queues_push:
  "schedulerInv s \<Longrightarrow> i < 5 \<Longrightarrow>
     queues (pushLocked s f) ! i = queues s ! i @ (if frameRank f = i then [f] else [])"
  by (simp add: pushLocked_def Let_def schedulerInv_def frameRank_def nth_list_update)

lemma schedulerInv_pushes: "schedulerInv s \<Longrightarrow> schedulerInv (foldl pushLocked s fs)"
  by (induction fs arbitrary: s) (simp_all add: schedulerInv_push)

lemma queues_pushes:
  "schedulerInv s \<Longrightarrow> i < 5 \<Longrightarrow>
     queues (foldl pushLocked s fs) ! i = queues s ! i @ filter (\<lambda>f. frameRank f = i) fs"
  by (induction fs arbitrary: s) (simp_all add: schedulerInv_push queues_push)

lemma scheduled_pushes:
  "scheduled (foldl pushLocked NewFrameScheduler fs) =
     concat (map (\<lambda>i. filter (\<lambda>f. frameRank f = i) fs) [0..<5])"
proof -
  have "length (queues (foldl pushLocked NewFrameScheduler fs)) = 5"
    using schedulerInv_pushes [OF schedulerInv_new] by (simp add: schedulerInv_def)
  then have "queues (foldl pushLocked NewFrameScheduler fs) =
      map (\<lambda>i. filter (\<lambda>f. frameRank f = i) fs) [0..<5]"
    using queues_pushes [OF schedulerInv_new] nth_replicate [of _ 5 "[] :: Frame list"]
    by (intro list_eq_iff_nth_eq [THEN iffD2]) (simp add: NewFrameScheduler_def)
  then show ?thesis
    by (simp add: scheduled_def)
qed

text \<open>Distributing a list by a small key and concatenating the buckets is the stable sort.\<close>

lemma bucket_const: "map k (filter (\<lambda>x. k x = i) xs) = replicate (length (filter (\<lambda>x. k x = i) xs)) i"
  by (induction xs) simp_all

lemma buckets_sort_key:
  fixes k :: "'a \<Rightarrow> nat"
  assumes "\<And>x. x \<in> set xs \<Longrightarrow> k x < n"
  shows "concat (map (\<lambda>i. filter (\<lambda>x. k x = i) xs) [0..<n]) = sort_key k xs"
proof -
  let ?b = "\<lambda>m. concat (map (\<lambda>i. filter (\<lambda>x. k x = i) xs) [0..<m])"
  have filt: "filter (\<lambda>x. k x = j) (?b m) = (if j < m then filter (\<lambda>x. k x = j) xs else [])" for j m
    by (induction m) (auto simp: filter_empty_conv conj_commute intro: filter_cong)
  have filt': "j < m \<Longrightarrow> filter (\<lambda>x. j = k x) (?b m) = filter (\<lambda>x. j = k x) xs" for j m
    using filt [of j m] eq_commute [of j] by presburger
  have less: "\<forall>x \<in> set (?b m). k x < m" for m
    by (induction m) auto
  have sorted: "sorted (map k (?b m))" for m
    using less by (induction m) (auto simp: sorted_append bucket_const intro: less_imp_le)
  have mset: "mset (?b m) = filter_mset (\<lambda>x. k x < m) (mset xs)" for m
    by (induction m) (auto simp: multiset_eq_iff less_Suc_eq)
  have "filter_mset (\<lambda>x. k x < n) (mset xs) = mset xs"
    using assms by (simp add: filter_mset_eq_conv)
  then show ?thesis
    using filt' [of _ n] sorted [of n] mset [of n] less [of n]
    by (intro properties_for_sort_key [symmetric]) simp_all
qed

section \<open>Properties\<close>

text \<open>C28: The scheduler is a stable priority queue. Whatever frames are pushed into a new scheduler,
  popping returns them in the order of their priority (a value above idle counts as idle), and
  frames of the same priority in the order they were pushed: the sequence of pops is the stable
  sort of the sequence of pushes.\<close>

theorem scheduler_drains_stable_sort:
  "drain (length fs) (foldl pushLocked NewFrameScheduler fs) = sort_key frameRank fs
   \<and> lenLocked (foldl pushLocked NewFrameScheduler fs) = length fs"
proof -
  have inv: "schedulerInv (foldl pushLocked NewFrameScheduler fs)"
    by (rule schedulerInv_pushes [OF schedulerInv_new])
  have "scheduled (foldl pushLocked NewFrameScheduler fs) = sort_key frameRank fs"
    by (simp only: scheduled_pushes) (rule buckets_sort_key, rule frameRank_less)
  then show ?thesis
    using inv by (simp add: drain_scheduled lenLocked_eq)
qed

lemma mset_push: "schedulerInv s \<Longrightarrow> mset (scheduled (pushLocked s f)) = add_mset f (mset (scheduled s))"
  using frameRank_less [of f]
  by (erule_tac five_queues)
    (auto simp: scheduled_def pushLocked_def Let_def less_Suc_eq numeral_nat simp flip: frameRank_def)

definition rankedInv :: "FrameScheduler \<Rightarrow> bool" where
  "rankedInv s \<longleftrightarrow> schedulerInv s \<and> (\<forall>i<5. list_all (\<lambda>f. frameRank f = i) (queues s ! i))"

lemma rankedInv_new: "rankedInv NewFrameScheduler"
  by (simp add: rankedInv_def schedulerInv_new) (simp add: NewFrameScheduler_def)

lemma rankedInv_push: "rankedInv s \<Longrightarrow> rankedInv (pushLocked s f)"
  by (auto simp: rankedInv_def schedulerInv_push queues_push)

lemma rankedInv_pop:
  assumes "rankedInv s" "popLockedFrames s = Some (f, s')"
  shows "rankedInv s'"
proof -
  have "popScan ps s = Some (f, s') \<Longrightarrow> set ps \<subseteq> {..<5} \<Longrightarrow>
      \<forall>i<5. list_all (\<lambda>f. frameRank f = i) (queues s' ! i)" for ps
  proof (induction ps)
    case (Cons p ps)
    then have "list_all (\<lambda>f. frameRank f = p) (queues s ! p)"
      using assms(1) by (simp add: rankedInv_def)
    then have "list_all (\<lambda>f. frameRank f = p) (tl (queues s ! p))"
      by (cases "queues s ! p") simp_all
    with Cons show ?case
      using assms(1) by (auto simp: rankedInv_def schedulerInv_def nth_list_update split: list.splits)
  qed simp
  with assms show ?thesis
    by (auto simp: rankedInv_def popLockedFrames_def atLeast0LessThan intro: schedulerInv_pop)
qed

lemma ranked_first_is_best:
  assumes "rankedInv s" "scheduled s = f # fs" "g \<in> set fs"
  shows "frameRank f \<le> frameRank g"
proof -
  have "schedulerInv s"
    using assms(1) by (simp add: rankedInv_def)
  then obtain a b c d e where q: "queues s = [a, b, c, d, e]"
    by (rule five_queues)
  then have "\<forall>x\<in>set a. frameRank x = 0" "\<forall>x\<in>set b. frameRank x = 1" "\<forall>x\<in>set c. frameRank x = 2"
      "\<forall>x\<in>set d. frameRank x = 3" "\<forall>x\<in>set e. frameRank x = 4"
    using assms(1) by (simp_all add: rankedInv_def list_all_iff less_Suc_eq numeral_nat)
  then have "sorted (map frameRank (scheduled s))"
    by (auto simp: q scheduled_def sorted_append map_replicate_const cong: map_cong)
  with assms(2,3) show ?thesis
    by simp
qed

text \<open>\<open>PushPop\<close> never loses or duplicates a frame: the frame it returns together with the frames
  left is the frames held before together with the one pushed, and the frame returned has the
  best priority of all of them. The invariant (five queues, each holding its own priority) holds
  of a new scheduler and is kept by \<open>Push\<close>, \<open>Pop\<close> and \<open>PushPop\<close>.\<close>

theorem pushpop_conserves:
  assumes "rankedInv s" "PushPop s f = (g, s')"
  shows "rankedInv s' \<and> add_mset g (mset (scheduled s')) = add_mset f (mset (scheduled s))
    \<and> (\<forall>h \<in> set (scheduled s'). frameRank g \<le> frameRank h)"
proof -
  have inv: "rankedInv (pushLocked s f)" "schedulerInv (pushLocked s f)" "schedulerInv s"
    using assms(1) rankedInv_push [OF assms(1)] by (auto simp: rankedInv_def)
  have "scheduled (pushLocked s f) \<noteq> []"
    using mset_push [OF inv(3), of f] by auto
  then have pop: "popLockedFrames (pushLocked s f) = Some (g, s')"
    using assms(2) pop_None_iff [OF inv(2)] by (auto simp: PushPop_def Let_def split: option.splits)
  show ?thesis
    using pop_scheduled [OF inv(2) pop] rankedInv_pop [OF inv(1) pop] mset_push [OF inv(3), of f]
      ranked_first_is_best [OF inv(1)] by auto
qed

theorem pushpop_conserves_witness:
  "rankedInv (snd (PushPop NewFrameScheduler (NewFrame FrameData 0 [])))
   \<and> fst (PushPop NewFrameScheduler (NewFrame FrameData 0 [])) = NewFrame FrameData 0 []"
  using pushpop_conserves [OF rankedInv_new, of "NewFrame FrameData 0 []"
      "fst (PushPop NewFrameScheduler (NewFrame FrameData 0 []))"
      "snd (PushPop NewFrameScheduler (NewFrame FrameData 0 []))"]
  by (simp add: scheduled_def NewFrameScheduler_def)

end
