(* ===== verification/Etp_Writer.thy ===== *)
theory Etp_Writer
  imports Etp_Frame "HOL-Library.Multiset"
begin

text \<open>
  The asynchronous session writer, \<open>internal/etp/writer.go\<close>: a ring buffer per priority, the
  weighted schedule that chooses the next frame, the bounded enqueue with its refusals and waits,
  the two ways of closing, and the goroutine that writes. Every operation runs under \<open>w.mu\<close>, so
  the concurrent system is a relation whose steps are the critical sections; a blocked \<open>enqueue\<close>
  is a waiting item that may be woken at any time. The lemmas show that the ring buffer is a FIFO
  queue, that the counters are exact and stay within the configured bounds, that the schedule
  starves no priority, and that every submitted item is released exactly once.
\<close>

section \<open>Items and the ring buffer\<close>

definition ErrSendQueueFull :: go_error where "ErrSendQueueFull = Err ''send queue full''"
definition ErrSessionClosed :: go_error where "ErrSessionClosed = Err ''session closed''"

text \<open>The pooled buffer and the completion channel of an item are given by their identities.\<close>

record sendItem =
  itPriority :: u8
  itChannel :: u16
  itData :: bytes
  itBufp :: "nat option"
  itDone :: "nat option"

definition zeroItem :: sendItem where
  "zeroItem = \<lparr>itPriority = 0, itChannel = 0, itData = [], itBufp = None, itDone = None\<rparr>"

record sendItemQueue =
  rItems :: "sendItem list"
  rHead :: nat
  rSize :: nat

definition push :: "sendItemQueue \<Rightarrow> sendItem \<Rightarrow> sendItemQueue" where
  "push q item =
     (let q1 = (if rSize q = length (rItems q)
                then let c = length (rItems q) * 2; capacity = (if c = 0 then 64 else c);
                         items = map (\<lambda>i. if i < rSize q
                                          then rItems q ! ((rHead q + i) mod length (rItems q))
                                          else zeroItem) [0..<capacity]
                     in q\<lparr>rItems := items, rHead := 0\<rparr>
                else q)
      in q1\<lparr>rItems := (rItems q1)[(rHead q1 + rSize q1) mod length (rItems q1) := item],
            rSize := rSize q1 + 1\<rparr>)"

definition pop :: "sendItemQueue \<Rightarrow> (sendItem \<times> sendItemQueue) option" where
  "pop q =
     (if rSize q = 0 then None
      else let item = rItems q ! rHead q;
               q1 = q\<lparr>rItems := (rItems q)[rHead q := zeroItem],
                      rHead := (rHead q + 1) mod length (rItems q), rSize := rSize q - 1\<rparr>
           in Some (item, if rSize q1 = 0 then q1\<lparr>rHead := 0\<rparr> else q1))"

section \<open>The writer\<close>

record SendQueueConfig =
  sqEnabled :: bool
  sqMaxFrames :: int
  sqMaxBytes :: u64
  sqEnqueueTimeout :: int
  sqWriteTimeout :: int

text \<open>\<open>wReleased\<close> is the log of the calls of \<open>releaseItem\<close>; the two effects of such a call are
  \<open>buffersReturned\<close> and \<open>doneSent\<close> below.\<close>

record sessionWriter =
  wCfg :: SendQueueConfig
  wQueue :: "sendItemQueue list"
  wQueuedItems :: int
  wQueuedBytes :: u64
  wInFlight :: bool
  wFlushWaiters :: int
  wQueueWaiters :: int
  wControlOnly :: bool
  wClosed :: bool
  wErr :: "go_error option"
  wScheduleAt :: u8
  wReleased :: "(sendItem \<times> go_error option) list"

definition buffersReturned :: "sessionWriter \<Rightarrow> nat list" where
  "buffersReturned w = concat (map (\<lambda>(item, _). case itBufp item of None \<Rightarrow> [] | Some b \<Rightarrow> [b]) (wReleased w))"

definition doneSent :: "sessionWriter \<Rightarrow> (nat \<times> go_error option) list" where
  "doneSent w = concat (map (\<lambda>(item, e). case itDone item of None \<Rightarrow> [] | Some c \<Rightarrow> [(c, e)]) (wReleased w))"

definition writerPrioritySchedule :: "u8 list" where
  "writerPrioritySchedule =
     [PriorityCritical, PriorityCritical, PriorityCritical, PriorityCritical,
      PriorityCritical, PriorityCritical, PriorityCritical, PriorityCritical,
      PriorityHigh, PriorityHigh, PriorityHigh, PriorityHigh,
      PriorityNormal, PriorityNormal, PriorityLow, PriorityIdle]"

definition newSessionWriter :: "SendQueueConfig \<Rightarrow> sessionWriter" where
  "newSessionWriter cfg =
     \<lparr>wCfg = cfg, wQueue = replicate 5 \<lparr>rItems = replicate 64 zeroItem, rHead = 0, rSize = 0\<rparr>,
      wQueuedItems = 0, wQueuedBytes = 0, wInFlight = False, wFlushWaiters = 0, wQueueWaiters = 0,
      wControlOnly = False, wClosed = False, wErr = None, wScheduleAt = 0, wReleased = []\<rparr>"

definition releaseItem :: "sessionWriter \<Rightarrow> sendItem \<Rightarrow> go_error option \<Rightarrow> sessionWriter" where
  "releaseItem w item err = w\<lparr>wReleased := wReleased w @ [(item, err)]\<rparr>"

text \<open>The loop \<open>for queue.size > 0 { item, _ := queue.pop(); w.releaseItem(item, err) }\<close>; the size is
  the number of rounds.\<close>

fun releaseRounds :: "nat \<Rightarrow> sendItemQueue \<Rightarrow> sendItem list \<times> sendItemQueue" where
  "releaseRounds 0 q = ([], q)"
| "releaseRounds (Suc n) q =
     (case pop q of None \<Rightarrow> ([], q)
      | Some (item, q') \<Rightarrow> (case releaseRounds n q' of (items, q'') \<Rightarrow> (item # items, q'')))"

definition releaseQueuedLocked :: "sessionWriter \<Rightarrow> go_error option \<Rightarrow> sessionWriter" where
  "releaseQueuedLocked w err =
     (let drained = map (\<lambda>q. releaseRounds (rSize q) q) (wQueue w)
      in w\<lparr>wQueue := map snd drained,
           wReleased := wReleased w @ map (\<lambda>item. (item, err)) (concat (map fst drained)),
           wQueuedItems := 0, wQueuedBytes := 0\<rparr>)"

definition canEnqueue :: "sessionWriter \<Rightarrow> u64 \<Rightarrow> bool" where
  "canEnqueue w n =
     (if sqMaxFrames (wCfg w) > 0 \<and> wQueuedItems w \<ge> sqMaxFrames (wCfg w) then False
      else if sqMaxBytes (wCfg w) > 0 \<and> wQueuedBytes w + n > sqMaxBytes (wCfg w) then False
      else True)"

definition closedErrLocked :: "sessionWriter \<Rightarrow> go_error option" where
  "closedErrLocked w =
     (if wErr w \<noteq> None then wErr w else if wClosed w then Some ErrSessionClosed else None)"

definition controlRefused :: "sessionWriter \<Rightarrow> sendItem \<Rightarrow> bool" where
  "controlRefused w item \<longleftrightarrow>
     wControlOnly w \<and> (itPriority item \<noteq> PriorityCritical \<or> itChannel item \<noteq> ChannelControl)"

datatype enqueueResult = Returned "go_error option" | Waiting

text \<open>One round of the wait loop of \<open>enqueue\<close> and, when the loop is left, what follows it. \<open>ctxErr\<close> is
  the answer of \<open>ctx.Err()\<close> and \<open>expired\<close> that of \<open>remaining <= 0\<close> in this round. \<open>Waiting\<close> means that
  the round ended in \<open>cond.Wait()\<close>.\<close>

definition enqueueRound ::
    "go_error option \<Rightarrow> bool \<Rightarrow> sessionWriter \<Rightarrow> sendItem \<Rightarrow> sessionWriter \<times> enqueueResult" where
  "enqueueRound ctxErr expired w item =
     (let n = of_nat (length (itData item)) in
      if \<not> canEnqueue w n then
        (case closedErrLocked w of Some e \<Rightarrow> (releaseItem w item (Some e), Returned (Some e))
         | None \<Rightarrow>
        (case ctxErr of Some e \<Rightarrow> (releaseItem w item (Some e), Returned (Some e))
         | None \<Rightarrow>
           if sqEnqueueTimeout (wCfg w) > 0 \<and> expired
           then (releaseItem w item (Some ErrSendQueueFull), Returned (Some ErrSendQueueFull))
           else (w\<lparr>wQueueWaiters := wQueueWaiters w + 1\<rparr>, Waiting)))
      else
        (case closedErrLocked w of Some e \<Rightarrow> (releaseItem w item (Some e), Returned (Some e))
         | None \<Rightarrow>
           if controlRefused w item
           then (releaseItem w item (Some ErrSessionClosed), Returned (Some ErrSessionClosed))
           else (w\<lparr>wQueue := (wQueue w)[unat (itPriority item) :=
                               push (wQueue w ! unat (itPriority item)) item],
                   wQueuedItems := wQueuedItems w + 1, wQueuedBytes := wQueuedBytes w + n\<rparr>,
                 Returned None)))"

definition clampItem :: "sendItem \<Rightarrow> sendItem" where
  "clampItem item = (if itPriority item > PriorityIdle then item\<lparr>itPriority := PriorityIdle\<rparr> else item)"

definition enqueue ::
    "go_error option \<Rightarrow> bool \<Rightarrow> sessionWriter \<Rightarrow> sendItem \<Rightarrow> sessionWriter \<times> enqueueResult" where
  "enqueue ctxErr expired w item =
     (let item = clampItem item in
      if controlRefused w item
      then (releaseItem w item (Some ErrSessionClosed), Returned (Some ErrSessionClosed))
      else enqueueRound ctxErr expired w item)"

text \<open>A woken waiter leaves \<open>cond.Wait()\<close>, counts itself out and runs the next round.\<close>

definition enqueueWake ::
    "go_error option \<Rightarrow> bool \<Rightarrow> sessionWriter \<Rightarrow> sendItem \<Rightarrow> sessionWriter \<times> enqueueResult" where
  "enqueueWake ctxErr expired w item =
     enqueueRound ctxErr expired (w\<lparr>wQueueWaiters := wQueueWaiters w - 1\<rparr>) item"

definition beginClosing :: "sessionWriter \<Rightarrow> sessionWriter" where
  "beginClosing w = releaseQueuedLocked (w\<lparr>wControlOnly := True\<rparr>) (Some ErrSessionClosed)"

definition close :: "sessionWriter \<Rightarrow> sessionWriter" where
  "close w =
     (if \<not> wClosed w
      then releaseQueuedLocked (w\<lparr>wClosed := True, wErr := Some ErrSessionClosed\<rparr>) (Some ErrSessionClosed)
      else w)"

text \<open>One round of the wait loop of \<open>flush\<close>.\<close>

definition flushRound :: "go_error option \<Rightarrow> sessionWriter \<Rightarrow> enqueueResult" where
  "flushRound ctxErr w =
     (if wQueuedItems w > 0 \<or> wInFlight w then
        (if ctxErr \<noteq> None then Returned ctxErr
         else if wErr w \<noteq> None then Returned (wErr w) else Waiting)
      else Returned (wErr w))"

fun popLoop :: "nat \<Rightarrow> sessionWriter \<Rightarrow> sendItem option \<times> sessionWriter" where
  "popLoop 0 w = (None, w)"
| "popLoop (Suc n) w =
     (let priority = unat (writerPrioritySchedule ! unat (wScheduleAt w));
          w = w\<lparr>wScheduleAt := (wScheduleAt w + 1) mod 16\<rparr>
      in case pop (wQueue w ! priority) of
           None \<Rightarrow> popLoop n w
         | Some (item, q) \<Rightarrow>
             (Some item,
              w\<lparr>wQueue := (wQueue w)[priority := q], wQueuedItems := wQueuedItems w - 1,
                wQueuedBytes := (let n = of_nat (length (itData item))
                                 in if wQueuedBytes w \<ge> n then wQueuedBytes w - n else 0)\<rparr>))"

definition popLocked :: "sessionWriter \<Rightarrow> sendItem option \<times> sessionWriter" where
  "popLocked w = popLoop (length writerPrioritySchedule) w"

text \<open>The transport is an interface: \<open>write\<close> takes what its methods answer. \<open>None\<close> for the optional
  methods means that the transport does not implement them.\<close>

record frameTransport =
  tSendFrame :: "bytes \<Rightarrow> go_error option"
  tSendFrameOnChannel :: "(u16 \<Rightarrow> bytes \<Rightarrow> go_error option) option"
  tSetWriteDeadline :: "go_error option option"

definition writeItem :: "frameTransport \<Rightarrow> SendQueueConfig \<Rightarrow> sendItem \<Rightarrow> go_error option" where
  "writeItem t cfg item =
     (if length (itData item) = 0 then None
      else case (if sqWriteTimeout cfg > 0 then tSetWriteDeadline t else None) of
        Some (Some e) \<Rightarrow> Some e
      | _ \<Rightarrow> (case tSendFrameOnChannel t of
               Some send \<Rightarrow> send (itChannel item) (itData item)
             | None \<Rightarrow> tSendFrame t (itData item)))"

text \<open>The two critical sections of \<open>run\<close>: taking an item, and accounting for its write.\<close>

definition runTake :: "sessionWriter \<Rightarrow> sendItem option \<times> sessionWriter" where
  "runTake w = (case popLocked w of (Some item, w) \<Rightarrow> (Some item, w\<lparr>wInFlight := True\<rparr>) | r \<Rightarrow> r)"

definition runDone :: "sessionWriter \<Rightarrow> sendItem \<Rightarrow> go_error option \<Rightarrow> sessionWriter \<times> bool" where
  "runDone w item err =
     (let w = (releaseItem w item err)\<lparr>wInFlight := False\<rparr>
      in if err \<noteq> None
         then (releaseQueuedLocked
                 (w\<lparr>wErr := (if wErr w = None then err else wErr w), wClosed := True\<rparr>) err, False)
         else (w, True))"

section \<open>The concurrent system\<close>

text \<open>The writer, the items of blocked \<open>enqueue\<close> calls, the item the goroutine is writing, whether the
  goroutine runs, and all items submitted so far (with their priorities clamped).\<close>

record writerSys =
  sysW :: sessionWriter
  sysWaiting :: "sendItem list"
  sysCurrent :: "sendItem option"
  sysRunning :: bool
  sysSubmitted :: "sendItem list"

definition initSys :: "SendQueueConfig \<Rightarrow> writerSys" where
  "initSys cfg = \<lparr>sysW = newSessionWriter cfg, sysWaiting = [], sysCurrent = None,
     sysRunning = True, sysSubmitted = []\<rparr>"

text \<open>Every Go slice has fewer than \<open>2^63\<close> bytes.\<close>

definition sliceItem :: "sendItem \<Rightarrow> bool" where
  "sliceItem item \<longleftrightarrow> length (itData item) < 2 ^ 63"

inductive writer_step :: "writerSys \<Rightarrow> writerSys \<Rightarrow> bool" where
  enqueue_returns:
    "sliceItem item \<Longrightarrow> enqueue c x (sysW s) item = (w, Returned e) \<Longrightarrow>
     writer_step s (s\<lparr>sysW := w, sysSubmitted := clampItem item # sysSubmitted s\<rparr>)"
| enqueue_waits:
    "sliceItem item \<Longrightarrow> enqueue c x (sysW s) item = (w, Waiting) \<Longrightarrow>
     writer_step s (s\<lparr>sysW := w, sysSubmitted := clampItem item # sysSubmitted s,
       sysWaiting := clampItem item # sysWaiting s\<rparr>)"
| wake_returns:
    "sysWaiting s = xs @ item # ys \<Longrightarrow> enqueueWake c x (sysW s) item = (w, Returned e) \<Longrightarrow>
     writer_step s (s\<lparr>sysW := w, sysWaiting := xs @ ys\<rparr>)"
| wake_waits:
    "sysWaiting s = xs @ item # ys \<Longrightarrow> enqueueWake c x (sysW s) item = (w, Waiting) \<Longrightarrow>
     writer_step s (s\<lparr>sysW := w\<rparr>)"
| run_take:
    "sysRunning s \<Longrightarrow> sysCurrent s = None \<Longrightarrow> wQueuedItems (sysW s) \<noteq> 0 \<Longrightarrow>
     runTake (sysW s) = (next', w) \<Longrightarrow> writer_step s (s\<lparr>sysW := w, sysCurrent := next'\<rparr>)"
| run_done:
    "sysRunning s \<Longrightarrow> sysCurrent s = Some item \<Longrightarrow>
     runDone (sysW s) item (writeItem t (wCfg (sysW s)) item) = (w, continue) \<Longrightarrow>
     writer_step s (s\<lparr>sysW := w, sysCurrent := None, sysRunning := continue\<rparr>)"
| run_stop:
    "sysRunning s \<Longrightarrow> sysCurrent s = None \<Longrightarrow> wQueuedItems (sysW s) = 0 \<Longrightarrow> wClosed (sysW s) \<Longrightarrow>
     writer_step s (s\<lparr>sysRunning := False\<rparr>)"
| begin_closing: "writer_step s (s\<lparr>sysW := beginClosing (sysW s)\<rparr>)"
| close_writer: "writer_step s (s\<lparr>sysW := close (sysW s)\<rparr>)"

inductive writer_reachable :: "SendQueueConfig \<Rightarrow> writerSys \<Rightarrow> bool" for cfg where
  reach_init: "writer_reachable cfg (initSys cfg)"
| reach_step: "writer_reachable cfg s \<Longrightarrow> writer_step s s' \<Longrightarrow> writer_reachable cfg s'"

section \<open>The ring buffer is a FIFO queue\<close>

text \<open>Taking up to \<open>n\<close> elements out of a queue.\<close>

fun deqs :: "('q \<Rightarrow> ('i \<times> 'q) option) \<Rightarrow> nat \<Rightarrow> 'q \<Rightarrow> 'i list \<times> 'q" where
  "deqs deq 0 q = ([], q)"
| "deqs deq (Suc n) q =
     (case deq q of None \<Rightarrow> ([], q)
      | Some (x, q') \<Rightarrow> (case deqs deq n q' of (xs, q'') \<Rightarrow> (x # xs, q'')))"

text \<open>The interface the writer relies on: a queue whose contents are a list.\<close>

locale fifo_queue =
  fixes enq :: "'q \<Rightarrow> 'i \<Rightarrow> 'q" and deq :: "'q \<Rightarrow> ('i \<times> 'q) option"
    and contents :: "'q \<Rightarrow> 'i list" and inv :: "'q \<Rightarrow> bool"
  assumes inv_enq: "inv q \<Longrightarrow> inv (enq q x)"
    and contents_enq: "inv q \<Longrightarrow> contents (enq q x) = contents q @ [x]"
    and deq_None: "inv q \<Longrightarrow> deq q = None \<longleftrightarrow> contents q = []"
    and deq_Some: "inv q \<Longrightarrow> deq q = Some (x, q') \<Longrightarrow> inv q' \<and> contents q = x # contents q'"
begin

lemma deqs_contents:
  "inv q \<Longrightarrow> deqs deq n q = (xs, q') \<Longrightarrow> inv q' \<and> xs = take n (contents q) \<and> contents q' = drop n (contents q)"
proof (induction n arbitrary: q xs)
  case (Suc n)
  show ?case
  proof (cases "deq q")
    case None
    with Suc.prems deq_None show ?thesis by auto
  next
    case (Some p)
    then show ?thesis
      using Suc deq_Some [of q "fst p" "snd p"] by (auto split: prod.splits)
  qed
qed auto

end

definition ringItems :: "sendItemQueue \<Rightarrow> sendItem list" where
  "ringItems q = map (\<lambda>i. rItems q ! ((rHead q + i) mod length (rItems q))) [0..<rSize q]"

definition ringInv :: "sendItemQueue \<Rightarrow> bool" where
  "ringInv q \<longleftrightarrow> rSize q \<le> length (rItems q) \<and> (rItems q = [] \<or> rHead q < length (rItems q))"

lemma length_ringItems [simp]: "length (ringItems q) = rSize q"
  by (simp add: ringItems_def)

lemma mod_distinct: "i < k \<Longrightarrow> k < n \<Longrightarrow> (h + i) mod n \<noteq> (h + k) mod (n :: nat)"
proof
  assume "i < k" "k < n" "(h + i) mod n = (h + k) mod n"
  then have "n dvd (h + k) - (h + i)"
    using mod_eq_dvd_iff_nat [of "h + i" "h + k" n] by simp
  with \<open>i < k\<close> \<open>k < n\<close> show False
    using nat_dvd_not_less [of "k - i" n] by simp
qed

lemma ring_append:
  assumes "rSize q < length (rItems q)"
  shows "ringItems (q\<lparr>rItems := (rItems q)[(rHead q + rSize q) mod length (rItems q) := x],
    rSize := rSize q + 1\<rparr>) = ringItems q @ [x]"
proof -
  let ?n = "length (rItems q)" and ?k = "(rHead q + rSize q) mod length (rItems q)"
  have "i < rSize q \<Longrightarrow> ?k \<noteq> (rHead q + i) mod ?n" for i
    using mod_distinct [of i "rSize q" ?n "rHead q"] assms by metis
  moreover have "?k < ?n"
    using assms by (intro mod_less_divisor) linarith
  ultimately show ?thesis
    by (simp add: ringItems_def)
qed

lemma ring_grow:
  assumes "rSize q \<le> n" "0 < n"
  defines "items \<equiv> map (\<lambda>i. if i < rSize q then rItems q ! ((rHead q + i) mod length (rItems q)) else zeroItem) [0..<n]"
  shows "ringItems (q\<lparr>rItems := items, rHead := 0\<rparr>) = ringItems q"
  using assms by (simp add: ringItems_def)

lemma push_ring: "ringInv q \<Longrightarrow> ringInv (push q x) \<and> ringItems (push q x) = ringItems q @ [x]"
proof (cases "rSize q = length (rItems q)")
  case False
  assume inv: "ringInv q"
  with False have "rSize q < length (rItems q)" by (simp add: ringInv_def)
  with False inv show ?thesis
    using ring_append [of q x] by (auto simp: push_def ringInv_def)
next
  case True
  define n where "n = (if length (rItems q) * 2 = 0 then 64 else length (rItems q) * 2)"
  define q1 where "q1 = q\<lparr>rItems := map (\<lambda>i. if i < rSize q
    then rItems q ! ((rHead q + i) mod length (rItems q)) else zeroItem) [0..<n], rHead := 0\<rparr>"
  have q1: "rSize q1 < length (rItems q1)" "rHead q1 = 0" "rSize q1 = rSize q"
    using True by (auto simp: q1_def n_def)
  have "ringItems q1 = ringItems q"
    unfolding q1_def using True by (intro ring_grow) (auto simp: n_def)
  moreover have "push q x = q1\<lparr>rItems := (rItems q1)[(rHead q1 + rSize q1) mod length (rItems q1) := x],
      rSize := rSize q1 + 1\<rparr>"
    using True unfolding push_def Let_def q1_def n_def by simp
  ultimately show ?thesis
    using q1 ring_append [OF q1(1), of x] by (auto simp: ringInv_def)
qed

lemma upt_Suc_map: "map f [0..<Suc n] = f 0 # map (\<lambda>i. f (Suc i)) [0..<n]"
  by (simp add: upt_conv_Cons map_Suc_upt [symmetric] del: upt_Suc)

lemma pop_ring:
  assumes "ringInv q" "pop q = Some (x, q')"
  shows "ringInv q' \<and> ringItems q = x # ringItems q'"
proof -
  obtain n where n: "rSize q = Suc n"
    using assms(2) by (cases "rSize q") (auto simp: pop_def)
  define len where "len = length (rItems q)"
  have len: "0 < len" "rHead q < len" "Suc n \<le> len"
    using assms(1) n by (auto simp: ringInv_def len_def)
  have x: "x = rItems q ! rHead q"
    using assms(2) n by (auto simp: pop_def Let_def split: if_splits)
  have ne: "i < n \<Longrightarrow> rHead q \<noteq> (rHead q + Suc i) mod len" for i
    using mod_distinct [of 0 "Suc i" len "rHead q"] len by simp
  have "ringItems q' = map (\<lambda>i. rItems q ! ((rHead q + Suc i) mod len)) [0..<n]"
    using assms(2) n ne len
    by (auto simp: pop_def Let_def ringItems_def mod_add_left_eq simp flip: len_def split: if_splits)
  moreover have "ringItems q = rItems q ! rHead q # map (\<lambda>i. rItems q ! ((rHead q + Suc i) mod len)) [0..<n]"
    using len by (simp add: ringItems_def n upt_Suc_map del: upt_Suc flip: len_def)
  moreover have "ringInv q'"
    using assms n len by (auto simp: pop_def Let_def ringInv_def len_def split: if_splits)
  ultimately show ?thesis
    using x by simp
qed

interpretation ring: fifo_queue push pop ringItems ringInv
proof
  fix q assume "ringInv q"
  show "pop q = None \<longleftrightarrow> ringItems q = []"
    using length_ringItems [of q] by (auto simp: pop_def Let_def simp del: length_ringItems)
qed (simp_all add: push_ring pop_ring)

lemma releaseRounds_deqs: "releaseRounds n q = deqs pop n q"
  by (induction n arbitrary: q) (simp_all split: option.splits)

section \<open>The writer's invariant\<close>

definition queued :: "sessionWriter \<Rightarrow> sendItem multiset" where
  "queued w = sum_list (map (\<lambda>q. mset (ringItems q)) (wQueue w))"

definition totalBytes :: "sendItem multiset \<Rightarrow> nat" where
  "totalBytes M = (\<Sum>x\<in>#M. length (itData x))"

definition queuesInv :: "sendItemQueue list \<Rightarrow> bool" where
  "queuesInv qs \<longleftrightarrow> length qs = 5 \<and> (\<forall>i<5. ringInv (qs ! i) \<and>
     (\<forall>x \<in> set (ringItems (qs ! i)). unat (itPriority x) = i))"

text \<open>The bounds the configuration sets.\<close>

definition withinLimits :: "SendQueueConfig \<Rightarrow> sendItem multiset \<Rightarrow> bool" where
  "withinLimits cfg M \<longleftrightarrow> (sqMaxFrames cfg > 0 \<longrightarrow> int (size M) \<le> sqMaxFrames cfg)
     \<and> totalBytes M \<le> unat (sqMaxBytes cfg)"

definition writerInv :: "sessionWriter \<Rightarrow> bool" where
  "writerInv w \<longleftrightarrow> queuesInv (wQueue w) \<and> wQueuedItems w = int (size (queued w))
     \<and> unat (wQueuedBytes w) = totalBytes (queued w) \<and> withinLimits (wCfg w) (queued w)
     \<and> unat (wScheduleAt w) < 16
     \<and> (wControlOnly w \<longrightarrow> (\<forall>x \<in># queued w. itPriority x = PriorityCritical \<and> itChannel x = ChannelControl))
     \<and> (wClosed w \<longrightarrow> wErr w \<noteq> None \<and> queued w = {#})"

definition cfgOk :: "SendQueueConfig \<Rightarrow> bool" where
  "cfgOk cfg \<longleftrightarrow> 0 < sqMaxBytes cfg \<and> unat (sqMaxBytes cfg) \<le> 2 ^ 63"

lemma totalBytes_simps [simp]:
  "totalBytes {#} = 0" "totalBytes (add_mset x M) = length (itData x) + totalBytes M"
  by (simp_all add: totalBytes_def)

lemma sum_list_map_update:
  fixes f :: "'a \<Rightarrow> 'b::comm_monoid_add"
  shows "i < length xs \<Longrightarrow> sum_list (map f (xs[i := y])) + f (xs ! i) = sum_list (map f xs) + f y"
proof (induction xs arbitrary: i)
  case (Cons x xs)
  then show ?case by (cases i) (simp_all add: ac_simps)
qed simp

lemma queued_update:
  "i < length (wQueue w) \<Longrightarrow>
   sum_list (map (\<lambda>q. mset (ringItems q)) ((wQueue w)[i := q'])) + mset (ringItems (wQueue w ! i))
     = queued w + mset (ringItems q')"
  unfolding queued_def by (rule sum_list_map_update)

lemma queuesInv_update:
  "queuesInv qs \<Longrightarrow> i < 5 \<Longrightarrow> ringInv q \<Longrightarrow> \<forall>x \<in> set (ringItems q). unat (itPriority x) = i \<Longrightarrow> queuesInv (qs[i := q])"
  by (auto simp: queuesInv_def nth_list_update)

lemma sum_list_mset_empty: "sum_list (map f xs) = {#} \<longleftrightarrow> (\<forall>x \<in> set xs. f x = {#})"
  by (induction xs) auto

lemma queued_empty_iff: "queuesInv (wQueue w) \<Longrightarrow> queued w = {#} \<longleftrightarrow> (\<forall>i<5. ringItems (wQueue w ! i) = [])"
  by (simp add: queued_def queuesInv_def sum_list_mset_empty all_set_conv_all_nth)

subsection \<open>Accepting an item\<close>

abbreviation accept :: "sessionWriter \<Rightarrow> sendItem \<Rightarrow> sessionWriter" where
  "accept w item \<equiv> w\<lparr>wQueue := (wQueue w)[unat (itPriority item) := push (wQueue w ! unat (itPriority item)) item],
     wQueuedItems := wQueuedItems w + 1, wQueuedBytes := wQueuedBytes w + of_nat (length (itData item))\<rparr>"

lemma enqueueRound_cases:
  assumes "enqueueRound c x w item = (w', r)"
  obtains (waits) "r = Waiting" "w' = w\<lparr>wQueueWaiters := wQueueWaiters w + 1\<rparr>" "closedErrLocked w = None"
      "\<not> canEnqueue w (of_nat (length (itData item)))" "c = None"
    | (refused) e where "r = Returned (Some e)" "w' = releaseItem w item (Some e)"
    | (accepted) "r = Returned None" "w' = accept w item" "closedErrLocked w = None"
      "canEnqueue w (of_nat (length (itData item)))" "\<not> controlRefused w item"
  using assms by (auto simp: enqueueRound_def Let_def split: if_splits option.splits)

lemma clampItem_priority: "unat (itPriority (clampItem item)) < 5"
proof -
  have "itPriority (clampItem item) \<le> 4"
    by (auto simp: clampItem_def not_less)
  then show ?thesis
    by (simp add: word_le_nat_alt)
qed

lemma canEnqueue_bytes:
  assumes "cfgOk (wCfg w)" "writerInv w" "length b < 2 ^ 63" "canEnqueue w (of_nat (length b))"
  shows "unat (wQueuedBytes w + of_nat (length b)) = totalBytes (queued w) + length b"
    "totalBytes (queued w) + length b \<le> unat (sqMaxBytes (wCfg w))"
proof -
  have n: "unat (of_nat (length b) :: u64) = length b"
    using assms(3) by (simp add: unat_of_nat)
  have "totalBytes (queued w) \<le> 2 ^ 63"
    using assms(1,2) by (simp add: writerInv_def withinLimits_def cfgOk_def)
  then have "unat (wQueuedBytes w) + unat (of_nat (length b) :: u64) < 2 ^ LENGTH(64)"
    using assms(2,3) n by (simp add: writerInv_def)
  then show sum: "unat (wQueuedBytes w + of_nat (length b)) = totalBytes (queued w) + length b"
    using assms(2) n by (simp add: unat_add_lem [THEN iffD1] writerInv_def)
  show "totalBytes (queued w) + length b \<le> unat (sqMaxBytes (wCfg w))"
    using assms(1,4) unfolding sum [symmetric]
    by (auto simp: canEnqueue_def cfgOk_def word_less_nat_alt split: if_splits)
qed

lemma queued_accept:
  assumes "writerInv w" "unat (itPriority item) < 5"
  shows "queued (accept w item) = add_mset item (queued w)"
proof -
  let ?i = "unat (itPriority item)"
  have i: "?i < length (wQueue w)" and inv: "ringInv (wQueue w ! ?i)"
    using assms by (auto simp: writerInv_def queuesInv_def)
  have "queued (accept w item) + mset (ringItems (wQueue w ! ?i))
      = queued w + mset (ringItems (push (wQueue w ! ?i) item))"
    using queued_update [OF i] by (simp add: queued_def)
  then show ?thesis
    using push_ring [OF inv] by simp
qed

lemma writerInv_accept:
  assumes "cfgOk (wCfg w)" "writerInv w" "sliceItem item" "unat (itPriority item) < 5"
    "closedErrLocked w = None" "canEnqueue w (of_nat (length (itData item)))" "\<not> controlRefused w item"
  shows "writerInv (accept w item)"
proof -
  have "queuesInv (wQueue (accept w item))"
    using assms(2,4) push_ring [of "wQueue w ! unat (itPriority item)" item]
    by (auto simp: writerInv_def queuesInv_def nth_list_update)
  moreover have "sqMaxFrames (wCfg w) > 0 \<longrightarrow> int (size (queued w)) < sqMaxFrames (wCfg w)"
    using assms(2,6) by (auto simp: canEnqueue_def writerInv_def split: if_splits)
  moreover have "\<not> wClosed w"
    using assms(5) by (auto simp: closedErrLocked_def split: if_splits)
  ultimately show ?thesis
    using assms canEnqueue_bytes [OF assms(1,2) _ assms(6)] queued_accept [OF assms(2,4)]
    by (auto simp: writerInv_def withinLimits_def sliceItem_def controlRefused_def add.commute)
qed

lemma writerInv_release [simp]:
  "writerInv (releaseItem w item e) \<longleftrightarrow> writerInv w" "queued (releaseItem w item e) = queued w"
  "wReleased (releaseItem w item e) = wReleased w @ [(item, e)]" "wCfg (releaseItem w item e) = wCfg w"
  by (simp_all add: releaseItem_def writerInv_def queued_def)

lemma writerInv_counters [simp]:
  "writerInv (w\<lparr>wQueueWaiters := n\<rparr>) \<longleftrightarrow> writerInv w" "queued (w\<lparr>wQueueWaiters := n\<rparr>) = queued w"
  "writerInv (w\<lparr>wInFlight := b\<rparr>) \<longleftrightarrow> writerInv w" "queued (w\<lparr>wInFlight := b\<rparr>) = queued w"
  by (simp_all add: writerInv_def queued_def)

subsection \<open>Releasing everything\<close>

lemma releaseRounds_all:
  assumes "ringInv q"
  shows "\<exists>q'. releaseRounds (rSize q) q = (ringItems q, q') \<and> ringInv q' \<and> ringItems q' = []"
proof -
  obtain xs q' where "deqs pop (rSize q) q = (xs, q')" by fastforce
  with ring.deqs_contents [OF assms this] show ?thesis
    by (simp add: releaseRounds_deqs)
qed

lemma releaseQueued_spec:
  fixes e
  assumes "queuesInv (wQueue w)"
  defines "w' \<equiv> releaseQueuedLocked w e"
  shows "queuesInv (wQueue w')" "queued w' = {#}"
    "mset (map fst (wReleased w')) = mset (map fst (wReleased w)) + queued w"
    "wQueuedItems w' = 0" "wQueuedBytes w' = 0" "wCfg w' = wCfg w" "wScheduleAt w' = wScheduleAt w"
    "wControlOnly w' = wControlOnly w" "wClosed w' = wClosed w" "wErr w' = wErr w"
    "wInFlight w' = wInFlight w" "wQueueWaiters w' = wQueueWaiters w"
proof -
  have all: "q \<in> set (wQueue w) \<Longrightarrow> fst (releaseRounds (rSize q) q) = ringItems q
      \<and> ringInv (snd (releaseRounds (rSize q) q)) \<and> ringItems (snd (releaseRounds (rSize q) q)) = []" for q
    using assms(1) releaseRounds_all [of q] by (force simp: queuesInv_def in_set_conv_nth)
  then have "concat (map (\<lambda>q. fst (releaseRounds (rSize q) q)) (wQueue w)) = concat (map ringItems (wQueue w))"
    by (auto intro: arg_cong [where f = concat])
  then show "mset (map fst (wReleased w')) = mset (map fst (wReleased w)) + queued w"
    by (simp add: w'_def releaseQueuedLocked_def Let_def comp_def queued_def mset_concat)
  show "queuesInv (wQueue w')"
    using assms(1) all by (simp add: w'_def releaseQueuedLocked_def Let_def queuesInv_def)
  show "queued w' = {#}"
    using all by (auto simp: w'_def releaseQueuedLocked_def Let_def queued_def sum_list_mset_empty)
qed (simp_all add: w'_def releaseQueuedLocked_def Let_def)

lemma writerInv_releaseQueued:
  assumes "writerInv w0" "queuesInv (wQueue w)" "wScheduleAt w = wScheduleAt w0" "wClosed w \<longrightarrow> wErr w \<noteq> None"
  shows "writerInv (releaseQueuedLocked w e)"
  using assms releaseQueued_spec [OF assms(2), of e]
  by (simp add: writerInv_def withinLimits_def)

subsection \<open>The weighted schedule\<close>

definition slot :: "nat \<Rightarrow> nat" where
  "slot k = unat (writerPrioritySchedule ! (k mod 16))"

lemma length_schedule [simp]: "length writerPrioritySchedule = 16"
  by (simp add: writerPrioritySchedule_def)

lemma slot_less: "slot k < 5"
proof -
  have "list_all (\<lambda>p. unat p < 5) writerPrioritySchedule"
    by (simp add: writerPrioritySchedule_def)
  then show ?thesis
    by (simp add: list_all_length slot_def)
qed

lemma slot_reaches:
  assumes "p < 5" shows "\<exists>d<16. slot (a + d) = p"
proof -
  define t where "t = [0, 8, 12, 14, 15 :: nat] ! p"
  from assms consider "p = 0" | "p = 1" | "p = 2" | "p = 3" | "p = 4"
    by linarith
  then have t: "t < 16 \<and> slot t = p"
    by cases (simp_all add: t_def slot_def writerPrioritySchedule_def)
  obtain q r where a: "a = q * 16 + r" "r < 16"
    using that [of "a div 16" "a mod 16"] by simp
  then have "a + (t + (16 - r)) = t + (q + 1) * 16"
    by simp
  then have "(a + (t + (16 - r)) mod 16) mod 16 = (t + (q + 1) * 16) mod 16"
    by (simp only: mod_add_right_eq)
  with t have "slot (a + (t + (16 - r)) mod 16) = slot t"
    by (simp only: slot_def mod_mult_self1)
  with t show ?thesis
    by (intro exI [of _ "(t + (16 - r)) mod 16"]) simp
qed

lemma scheduleAt_next:
  "unat (a :: u8) < 16 \<Longrightarrow> unat ((a + 1) mod 16) = (unat a + 1) mod 16"
  by (simp add: unat_mod unat_word_ariths)

text \<open>Taking the head of queue \<open>i\<close>, having advanced the schedule to \<open>a\<close>.\<close>

definition takeFrom :: "sessionWriter \<Rightarrow> nat \<Rightarrow> u8 \<Rightarrow> sendItem \<Rightarrow> sendItemQueue \<Rightarrow> sessionWriter" where
  "takeFrom w i a item q = w\<lparr>wScheduleAt := a, wQueue := (wQueue w)[i := q], wQueuedItems := wQueuedItems w - 1,
     wQueuedBytes := (let n = of_nat (length (itData item))
                      in if wQueuedBytes w \<ge> n then wQueuedBytes w - n else 0)\<rparr>"

lemma popLoop_spec:
  assumes "unat (wScheduleAt w) < 16"
  shows "(\<exists>a. popLoop n w = (None, w\<lparr>wScheduleAt := a\<rparr>) \<and> unat a < 16
      \<and> (\<forall>j<n. pop (wQueue w ! slot (unat (wScheduleAt w) + j)) = None))
    \<or> (\<exists>j item q a. j < n \<and> (\<forall>i<j. pop (wQueue w ! slot (unat (wScheduleAt w) + i)) = None)
      \<and> pop (wQueue w ! slot (unat (wScheduleAt w) + j)) = Some (item, q)
      \<and> unat a = (unat (wScheduleAt w) + j + 1) mod 16
      \<and> popLoop n w = (Some item, takeFrom w (slot (unat (wScheduleAt w) + j)) a item q))"
  (is "?none n w \<or> ?some n w")
  using assms
proof (induction n arbitrary: w)
  case 0
  then show ?case by (intro disjI1 exI [of _ "wScheduleAt w"]) simp
next
  case (Suc n)
  let ?w = "w\<lparr>wScheduleAt := (wScheduleAt w + 1) mod 16\<rparr>"
  have a: "unat (wScheduleAt ?w) = (unat (wScheduleAt w) + 1) mod 16" "unat (wScheduleAt ?w) < 16"
    using Suc.prems by (simp_all add: scheduleAt_next)
  have step: "slot (unat (wScheduleAt ?w) + j) = slot (unat (wScheduleAt w) + Suc j)" for j
    unfolding slot_def a(1) by (metis (no_types, lifting) add.assoc add.commute mod_add_left_eq plus_1_eq_Suc)
  have head: "unat (writerPrioritySchedule ! unat (wScheduleAt w)) = slot (unat (wScheduleAt w))"
    using Suc.prems by (simp add: slot_def)
  show ?case
  proof (cases "pop (wQueue w ! slot (unat (wScheduleAt w)))")
    case None
    then have eq: "popLoop (Suc n) w = popLoop n ?w"
      by (simp add: head Let_def)
    have take: "takeFrom ?w i b item q = takeFrom w i b item q" for i b item q
      by (simp add: takeFrom_def Let_def)
    have mod: "(unat (wScheduleAt ?w) + j + 1) mod 16 = (unat (wScheduleAt w) + Suc j + 1) mod 16" for j
      unfolding a(1) by (metis (no_types, lifting) add.assoc add.commute mod_add_left_eq plus_1_eq_Suc)
    from Suc.IH [OF a(2)] show ?thesis
    proof
      assume "?none n ?w"
      then show ?thesis
        using None unfolding eq step by (auto simp: All_less_Suc2)
    next
      assume "?some n ?w"
      then obtain j item q b where j: "j < n" "unat b = (unat (wScheduleAt w) + Suc j + 1) mod 16"
          "\<forall>i<j. pop (wQueue w ! slot (unat (wScheduleAt w) + Suc i)) = None"
          "pop (wQueue w ! slot (unat (wScheduleAt w) + Suc j)) = Some (item, q)"
          "popLoop n ?w = (Some item, takeFrom w (slot (unat (wScheduleAt w) + Suc j)) b item q)"
        unfolding step take mod by auto
      with None show ?thesis
        unfolding eq
        by (intro disjI2 exI [of _ "Suc j"] exI [of _ item] exI [of _ q] exI [of _ b]) (auto simp: All_less_Suc2)
    qed
  next
    case (Some r)
    then show ?thesis
      using head a
      by (intro disjI2 exI [of _ 0] exI [of _ "fst r"] exI [of _ "snd r"] exI [of _ "wScheduleAt ?w"])
        (simp add: Let_def takeFrom_def split: prod.splits)
  qed
qed

lemma queuesInv_ring: "queuesInv qs \<Longrightarrow> i < 5 \<Longrightarrow> ringInv (qs ! i)"
  by (simp add: queuesInv_def)

lemma takeFrom_inv:
  assumes "writerInv w" "i < 5" "pop (wQueue w ! i) = Some (item, q)" "unat a < 16"
  shows "queued w = add_mset item (queued (takeFrom w i a item q))" "writerInv (takeFrom w i a item q)"
proof -
  have qs: "queuesInv (wQueue w)" "i < length (wQueue w)" "ringInv (wQueue w ! i)"
    using assms(1,2) by (auto simp: writerInv_def queuesInv_def)
  have q: "ringInv q" "ringItems (wQueue w ! i) = item # ringItems q"
    using pop_ring [OF qs(3) assms(3)] by auto
  show queued: "queued w = add_mset item (queued (takeFrom w i a item q))"
    using queued_update [OF qs(2), of q] q(2) by (simp add: queued_def takeFrom_def)
  have "queuesInv (wQueue (takeFrom w i a item q))"
    using qs(1) q assms(2) by (auto simp: takeFrom_def queuesInv_def nth_list_update)
  moreover have "unat (wQueuedBytes (takeFrom w i a item q)) = totalBytes (queued (takeFrom w i a item q))"
  proof -
    have b: "unat (wQueuedBytes w) = length (itData item) + totalBytes (queued (takeFrom w i a item q))"
      using assms(1) queued by (simp add: writerInv_def)
    then have "unat (of_nat (length (itData item)) :: u64) = length (itData item)"
      using unsigned_less [of "wQueuedBytes w", where 'a = nat] by (simp add: unat_of_nat)
    moreover from this b have "wQueuedBytes (takeFrom w i a item q)
        = wQueuedBytes w - of_nat (length (itData item))"
      by (simp add: takeFrom_def Let_def word_le_nat_alt)
    ultimately show ?thesis
      using b by (simp add: word_le_nat_alt unat_sub)
  qed
  ultimately show "writerInv (takeFrom w i a item q)"
    using assms(1,4) queued by (auto simp: writerInv_def withinLimits_def takeFrom_def)
qed

lemma popLocked_spec:
  assumes "writerInv w"
  shows "(queued w = {#} \<and> (\<exists>a. unat a < 16 \<and> popLocked w = (None, w\<lparr>wScheduleAt := a\<rparr>)))
    \<or> (\<exists>j item q a. j < 16 \<and> (\<forall>i<j. ringItems (wQueue w ! slot (unat (wScheduleAt w) + i)) = [])
      \<and> pop (wQueue w ! slot (unat (wScheduleAt w) + j)) = Some (item, q)
      \<and> unat a = (unat (wScheduleAt w) + j + 1) mod 16
      \<and> popLocked w = (Some item, takeFrom w (slot (unat (wScheduleAt w) + j)) a item q))"
proof -
  have qs: "queuesInv (wQueue w)" and a: "unat (wScheduleAt w) < 16"
    using assms by (simp_all add: writerInv_def)
  have emp: "pop (wQueue w ! slot k) = None \<longleftrightarrow> ringItems (wQueue w ! slot k) = []" for k
    using ring.deq_None queuesInv_ring [OF qs slot_less] by blast
  have all: "\<forall>i<5. ringItems (wQueue w ! i) = []"
    if none: "\<forall>j<16. ringItems (wQueue w ! slot (unat (wScheduleAt w) + j)) = []"
  proof (intro allI impI)
    fix i :: nat assume "i < 5"
    then obtain j where "j < 16" "slot (unat (wScheduleAt w) + j) = i"
      using slot_reaches by blast
    with none show "ringItems (wQueue w ! i) = []" by blast
  qed
  show ?thesis
    using popLoop_spec [OF a, of 16] all queued_empty_iff [OF qs]
    unfolding popLocked_def length_schedule emp by blast
qed

lemma popLocked_inv:
  assumes "writerInv w" "popLocked w = (r, w')"
  shows "writerInv w' \<and> queued w = queued w' + (case r of None \<Rightarrow> {#} | Some item \<Rightarrow> {#item#})
    \<and> (r = None \<longleftrightarrow> queued w = {#}) \<and> wReleased w' = wReleased w \<and> wCfg w' = wCfg w
    \<and> wQueueWaiters w' = wQueueWaiters w \<and> wInFlight w' = wInFlight w \<and> wClosed w' = wClosed w"
  using popLocked_spec [OF assms(1)]
proof
  assume "queued w = {#} \<and> (\<exists>a. unat a < 16 \<and> popLocked w = (None, w\<lparr>wScheduleAt := a\<rparr>))"
  with assms show ?thesis
    by (auto simp: writerInv_def queued_def)
next
  assume "\<exists>j item q a. j < 16 \<and> (\<forall>i<j. ringItems (wQueue w ! slot (unat (wScheduleAt w) + i)) = [])
      \<and> pop (wQueue w ! slot (unat (wScheduleAt w) + j)) = Some (item, q)
      \<and> unat a = (unat (wScheduleAt w) + j + 1) mod 16
      \<and> popLocked w = (Some item, takeFrom w (slot (unat (wScheduleAt w) + j)) a item q)"
  then obtain j item q a where r: "pop (wQueue w ! slot (unat (wScheduleAt w) + j)) = Some (item, q)"
      "unat a = (unat (wScheduleAt w) + j + 1) mod 16" "r = Some item"
      "w' = takeFrom w (slot (unat (wScheduleAt w) + j)) a item q"
    using assms(2) by auto
  then have "unat a < 16" by simp
  with r takeFrom_inv [OF assms(1) slot_less r(1) this] show ?thesis
    by (simp add: takeFrom_def)
qed

section \<open>No priority starves\<close>

datatype writerOp = OpEnqueue "go_error option" bool sendItem | OpPop

text \<open>The items popped along a sequence of operations, with enqueue calls of any outcome in between.\<close>

fun writerTrace :: "writerOp list \<Rightarrow> sessionWriter \<Rightarrow> sendItem list" where
  "writerTrace [] w = []"
| "writerTrace (OpEnqueue c x item # ops) w = writerTrace ops (fst (enqueue c x w item))"
| "writerTrace (OpPop # ops) w =
     (case popLocked w of (None, w') \<Rightarrow> writerTrace ops w' | (Some item, w') \<Rightarrow> item # writerTrace ops w')"

fun opSlice :: "writerOp \<Rightarrow> bool" where
  "opSlice (OpEnqueue c x item) = sliceItem item"
| "opSlice OpPop = True"

lemma sliceItem_clamp [simp]: "sliceItem (clampItem item) = sliceItem item"
  by (simp add: clampItem_def sliceItem_def)

lemma enqueue_cases:
  "enqueue c x w item =
     (if controlRefused w (clampItem item)
      then (releaseItem w (clampItem item) (Some ErrSessionClosed), Returned (Some ErrSessionClosed))
      else enqueueRound c x w (clampItem item))"
  by (simp add: enqueue_def)

lemma accept_appends:
  assumes "writerInv w" "unat (itPriority item) < 5" "p < 5"
  shows "\<exists>zs. ringItems (wQueue (accept w item) ! p) = ringItems (wQueue w ! p) @ zs"
proof (cases "p = unat (itPriority item)")
  case True
  then have "ringItems (wQueue (accept w item) ! p) = ringItems (wQueue w ! p) @ [item]"
    using assms push_ring [of "wQueue w ! p" item] by (simp add: writerInv_def queuesInv_def)
  then show ?thesis by blast
qed (simp add: nth_list_update_neq)

text \<open>What a round keeps, in each of its outcomes.\<close>

definition roundKeeps :: "sessionWriter \<Rightarrow> sendItem \<Rightarrow> sessionWriter \<Rightarrow> enqueueResult \<Rightarrow> bool" where
  "roundKeeps w item w' r \<longleftrightarrow> writerInv w' \<and> wCfg w' = wCfg w \<and> wScheduleAt w' = wScheduleAt w
     \<and> wInFlight w' = wInFlight w \<and> wClosed w' = wClosed w
     \<and> (\<forall>p<5. \<exists>zs. ringItems (wQueue w' ! p) = ringItems (wQueue w ! p) @ zs)
     \<and> queued w' + mset (map fst (wReleased w')) + (if r = Waiting then {#item#} else {#})
        = queued w + mset (map fst (wReleased w)) + {#item#}
     \<and> wQueueWaiters w' = wQueueWaiters w + (if r = Waiting then 1 else 0)"

lemma release_keeps: "writerInv w \<Longrightarrow> roundKeeps w item (releaseItem w item e) (Returned e')"
  by (simp add: roundKeeps_def) (simp add: releaseItem_def)

lemma accept_keeps:
  assumes "cfgOk (wCfg w)" "writerInv w" "sliceItem item" "unat (itPriority item) < 5"
    "closedErrLocked w = None" "canEnqueue w (of_nat (length (itData item)))" "\<not> controlRefused w item"
  shows "roundKeeps w item (accept w item) (Returned None)"
  unfolding roundKeeps_def
  using writerInv_accept [OF assms] queued_accept [OF assms(2,4)] accept_appends [OF assms(2,4)]
  by simp

lemma enqueueRound_keeps:
  assumes "enqueueRound c x w item = (w', r)" "writerInv w" "cfgOk (wCfg w)" "sliceItem item"
    "unat (itPriority item) < 5"
  shows "roundKeeps w item w' r"
  using assms(1)
proof (cases rule: enqueueRound_cases)
  case waits
  with assms(2) show ?thesis by (simp add: roundKeeps_def)
next
  case (refused e)
  with assms(2) show ?thesis by (simp add: release_keeps)
next
  case accepted
  with assms accept_keeps show ?thesis by simp
qed

lemma enqueue_keeps:
  assumes "enqueue c x w item = (w', r)" "writerInv w" "cfgOk (wCfg w)" "sliceItem item"
  shows "roundKeeps w (clampItem item) w' r"
  using assms enqueueRound_keeps [of c x w "clampItem item"] clampItem_priority [of item]
  by (auto simp: enqueue_cases release_keeps split: if_splits)

text \<open>A pop either serves queue \<open>p\<close> or moves the schedule strictly closer to a slot of \<open>p\<close>, without
  touching that queue.\<close>

lemma pop_progress:
  assumes "writerInv w" "p < 5" "ringItems (wQueue w ! p) = y # ys" "slot (unat (wScheduleAt w) + d) = p"
  obtains (served) w' where "popLocked w = (Some y, w')" "ringItems (wQueue w' ! p) = ys" "writerInv w'"
      "wCfg w' = wCfg w"
    | (closer) item w' d' where "popLocked w = (Some item, w')" "d' < d" "slot (unat (wScheduleAt w') + d') = p"
      "wQueue w' ! p = wQueue w ! p" "writerInv w'" "wCfg w' = wCfg w"
proof -
  have inv: "queuesInv (wQueue w)" "ringInv (wQueue w ! p)"
    using assms(1,2) by (auto simp: writerInv_def queuesInv_def)
  then have "queued w \<noteq> {#}"
    using queued_empty_iff [OF inv(1)] assms(2,3) by auto
  then obtain j item q a where j: "\<forall>i<j. ringItems (wQueue w ! slot (unat (wScheduleAt w) + i)) = []"
      "pop (wQueue w ! slot (unat (wScheduleAt w) + j)) = Some (item, q)"
      "unat a = (unat (wScheduleAt w) + j + 1) mod 16"
      "popLocked w = (Some item, takeFrom w (slot (unat (wScheduleAt w) + j)) a item q)"
    using popLocked_spec [OF assms(1)] by blast
  let ?w' = "takeFrom w (slot (unat (wScheduleAt w) + j)) a item q"
  have keeps: "writerInv ?w'" "wCfg ?w' = wCfg w"
    using popLocked_inv [OF assms(1) j(4)] by simp_all
  show thesis
  proof (cases "slot (unat (wScheduleAt w) + j) = p")
    case True
    then have "item = y" "ringItems q = ys"
      using pop_ring [OF inv(2)] j(2) assms(3) by auto
    then show thesis
      using served [of ?w'] j(4) keeps True assms(2) inv(1) by (simp add: takeFrom_def queuesInv_def)
  next
    case False
    with j(1) assms(3,4) have "j < d"
      by (metis list.discI not_less_iff_gr_or_eq)
    then obtain e where e: "d = Suc (j + e)"
      using less_imp_Suc_add by blast
    have "unat (wScheduleAt ?w') = (unat (wScheduleAt w) + j + 1) mod 16"
      using j(3) by (simp add: takeFrom_def)
    then have "(unat (wScheduleAt ?w') + e) mod 16 = (unat (wScheduleAt w) + d) mod 16"
      by (simp only: mod_add_left_eq) (simp add: e add.assoc)
    then have "slot (unat (wScheduleAt ?w') + e) = p"
      using assms(4) by (simp add: slot_def)
    then show thesis
      using closer [of item ?w' e] j(4) keeps False e by (simp add: takeFrom_def)
  qed
qed

lemma served_within:
  assumes "writerInv w" "cfgOk (wCfg w)" "p < 5" "ringItems (wQueue w ! p) = xs @ x # ys"
    "slot (unat (wScheduleAt w) + d) = p" "d < 16" "list_all opSlice ops"
    "16 * length xs + d < count_list ops OpPop"
  shows "x \<in> set (writerTrace ops w)"
  using assms
proof (induction ops arbitrary: w xs ys d)
  case (Cons op ops)
  show ?case
  proof (cases op)
    case (OpEnqueue c e item)
    obtain w' r where w': "enqueue c e w item = (w', r)" by fastforce
    with Cons.prems OpEnqueue have k: "roundKeeps w (clampItem item) w' r"
      by (intro enqueue_keeps) simp_all
    then obtain zs where "ringItems (wQueue w' ! p) = xs @ x # ys @ zs"
      using Cons.prems(3,4) by (auto simp: roundKeeps_def)
    then show ?thesis
      using Cons.IH [of w' xs "ys @ zs" d] Cons.prems k w' OpEnqueue by (simp add: roundKeeps_def)
  next
    case OpPop
    obtain y zs where y: "ringItems (wQueue w ! p) = y # zs"
      using Cons.prems(4) by (cases xs) simp_all
    from Cons.prems(1,3) y Cons.prems(5) show ?thesis
    proof (cases rule: pop_progress)
      case (served w')
      show ?thesis
      proof (cases xs)
        case Nil
        with served y Cons.prems(4) OpPop show ?thesis by simp
      next
        case (Cons z xs')
        obtain d' where "d' < 16" "slot (unat (wScheduleAt w') + d') = p"
          using slot_reaches [OF \<open>p < 5\<close>] by blast
        with served y Cons Cons.prems OpPop show ?thesis
          using Cons.IH [of w' xs' ys d'] by simp
      qed
    next
      case (closer item w' d')
      with Cons.prems OpPop show ?thesis
        using Cons.IH [of w' xs ys d'] by simp
    qed
  qed
qed simp

text \<open>C10: The weighted schedule starves nobody. An item with \<open>k\<close> items before it in the queue of its
  priority is popped within \<open>16 * (k + 1)\<close> pops, whatever is enqueued at any priority in between.\<close>

theorem writer_no_starvation:
  assumes "writerInv w" "cfgOk (wCfg w)" "p < 5" "ringItems (wQueue w ! p) = xs @ x # ys"
    "list_all opSlice ops" "16 * (length xs + 1) \<le> count_list ops OpPop"
  shows "x \<in> set (writerTrace ops w)"
proof -
  obtain d where d: "d < 16" "slot (unat (wScheduleAt w) + d) = p"
    using slot_reaches [OF assms(3)] by blast
  moreover from d(1) assms(6) have "16 * length xs + d < count_list ops OpPop"
    by simp
  ultimately show ?thesis
    using assms by (intro served_within)
qed

section \<open>Invariants of the concurrent system\<close>

definition held :: "writerSys \<Rightarrow> sendItem multiset" where
  "held s = queued (sysW s) + mset (sysWaiting s) + (case sysCurrent s of None \<Rightarrow> {#} | Some item \<Rightarrow> {#item#})"

definition sysInv :: "SendQueueConfig \<Rightarrow> writerSys \<Rightarrow> bool" where
  "sysInv cfg s \<longleftrightarrow> writerInv (sysW s) \<and> wCfg (sysW s) = cfg
     \<and> mset (sysSubmitted s) = held s + mset (map fst (wReleased (sysW s)))
     \<and> list_all (\<lambda>x. sliceItem x \<and> unat (itPriority x) < 5) (sysWaiting s)
     \<and> (wInFlight (sysW s) \<longleftrightarrow> sysCurrent s \<noteq> None)
     \<and> wQueueWaiters (sysW s) = int (length (sysWaiting s))
     \<and> (\<not> sysRunning s \<longrightarrow> sysCurrent s = None \<and> wClosed (sysW s))"

lemma sum_list_replicate_empty: "sum_list (replicate n {#}) = {#}"
  by (induction n) simp_all

lemma ringItems_new: "ringItems \<lparr>rItems = xs, rHead = 0, rSize = 0\<rparr> = []"
  by (simp add: ringItems_def)

lemma queued_new: "queued (newSessionWriter cfg) = {#}"
  by (simp add: queued_def newSessionWriter_def ringItems_new map_replicate sum_list_replicate_empty)

lemma writerInv_new: "writerInv (newSessionWriter cfg)"
  using queued_new [of cfg]
  by (simp add: writerInv_def withinLimits_def)
    (simp add: newSessionWriter_def queuesInv_def ringInv_def ringItems_new)

lemma sysInv_init: "sysInv cfg (initSys cfg)"
  using writerInv_new [of cfg] queued_new [of cfg]
  by (simp add: sysInv_def initSys_def held_def) (simp add: newSessionWriter_def)

lemma sysInv_enqueue:
  assumes "sysInv cfg s" "cfgOk cfg" "sliceItem item" "enqueue c x (sysW s) item = (w, r)"
  shows "sysInv cfg (s\<lparr>sysW := w, sysSubmitted := clampItem item # sysSubmitted s,
    sysWaiting := (if r = Waiting then [clampItem item] else []) @ sysWaiting s\<rparr>)"
proof -
  have "roundKeeps (sysW s) (clampItem item) w r"
    using assms by (intro enqueue_keeps) (simp_all add: sysInv_def)
  then show ?thesis
    using assms(1,3) clampItem_priority [of item]
    by (auto simp: sysInv_def roundKeeps_def held_def ac_simps)
qed

lemma sysInv_wake:
  assumes "sysInv cfg s" "cfgOk cfg" "sysWaiting s = xs @ item # ys" "enqueueWake c x (sysW s) item = (w, r)"
  shows "sysInv cfg (s\<lparr>sysW := w, sysWaiting := xs @ (if r = Waiting then [item] else []) @ ys\<rparr>)"
proof -
  have "roundKeeps (sysW s\<lparr>wQueueWaiters := wQueueWaiters (sysW s) - 1\<rparr>) item w r"
    using assms by (intro enqueueRound_keeps) (simp_all add: sysInv_def enqueueWake_def)
  then show ?thesis
    using assms(1,3) by (auto simp: sysInv_def roundKeeps_def held_def ac_simps)
qed

lemma sysInv_take:
  assumes "sysInv cfg s" "sysRunning s" "sysCurrent s = None" "runTake (sysW s) = (r, w)"
  shows "sysInv cfg (s\<lparr>sysW := w, sysCurrent := r\<rparr>)"
proof -
  obtain r' w' where pop: "popLocked (sysW s) = (r', w')" by fastforce
  have inv: "writerInv (sysW s)"
    using assms(1) by (simp add: sysInv_def)
  from pop assms(4) have "r = r'" "w = (case r of None \<Rightarrow> w' | Some _ \<Rightarrow> w'\<lparr>wInFlight := True\<rparr>)"
    by (auto simp: runTake_def split: option.splits)
  then show ?thesis
    using popLocked_inv [OF inv pop] assms
    by (cases r') (auto simp: sysInv_def held_def ac_simps)
qed

lemma sysInv_releaseQueued:
  assumes "sysInv cfg s" "wQueue w = wQueue (sysW s)" "wReleased w = wReleased (sysW s)"
    "wScheduleAt w = wScheduleAt (sysW s)" "wClosed w \<longrightarrow> wErr w \<noteq> None" "wCfg w = cfg"
    "wInFlight w = wInFlight (sysW s)" "wQueueWaiters w = wQueueWaiters (sysW s)"
    "wClosed (sysW s) \<longrightarrow> wClosed w"
  shows "sysInv cfg (s\<lparr>sysW := releaseQueuedLocked w e\<rparr>)"
proof -
  have inv: "writerInv (sysW s)"
    using assms(1) by (simp add: sysInv_def)
  have qs: "queuesInv (wQueue w)" "queued w = queued (sysW s)"
    using inv assms(2) by (simp_all add: writerInv_def queued_def)
  show ?thesis
    using writerInv_releaseQueued [OF inv qs(1) assms(4,5), of e] releaseQueued_spec [OF qs(1), of e]
      assms qs(2) by (simp add: sysInv_def held_def ac_simps)
qed

lemma sysInv_stop:
  "sysInv cfg s \<Longrightarrow> sysCurrent s = None \<Longrightarrow> wClosed (sysW s) \<Longrightarrow> sysInv cfg (s\<lparr>sysRunning := False\<rparr>)"
  by (simp add: sysInv_def held_def)

lemma sysInv_done:
  assumes "sysInv cfg s" "sysRunning s" "sysCurrent s = Some item" "runDone (sysW s) item err = (w, k)"
  shows "sysInv cfg (s\<lparr>sysW := w, sysCurrent := None, sysRunning := k\<rparr>)"
proof -
  let ?w = "(releaseItem (sysW s) item err)\<lparr>wInFlight := False\<rparr>"
  let ?s = "s\<lparr>sysW := ?w, sysCurrent := None\<rparr>"
  have s: "sysInv cfg ?s"
    using assms(1-3) by (simp add: sysInv_def held_def) (simp add: releaseItem_def)
  show ?thesis
  proof (cases err)
    case None
    with assms(4) s assms(2) show ?thesis
      by (auto simp: runDone_def sysInv_def held_def)
  next
    case (Some e)
    define v where "v = ?w\<lparr>wErr := (if wErr ?w = None then err else wErr ?w), wClosed := True\<rparr>"
    have v: "wQueue v = wQueue ?w" "wReleased v = wReleased ?w" "wScheduleAt v = wScheduleAt ?w"
        "wClosed v" "wErr v \<noteq> None" "wCfg v = wCfg ?w" "wInFlight v = wInFlight ?w"
        "wQueueWaiters v = wQueueWaiters ?w"
      by (simp_all add: v_def Some)
    have "runDone (sysW s) item err = (releaseQueuedLocked v err, False)"
      unfolding runDone_def Let_def v_def Some by (simp only: option.distinct not_False_eq_True if_True)
    then have w: "w = releaseQueuedLocked v err" "k = False"
      using assms(4) by (simp_all only: prod.inject)
    have "sysInv cfg (?s\<lparr>sysW := w\<rparr>)"
      unfolding w(1) using s v by (intro sysInv_releaseQueued) (simp_all add: sysInv_def)
    moreover have "wClosed w"
      using v(4) by (simp add: w(1) releaseQueuedLocked_def Let_def)
    ultimately show ?thesis
      using sysInv_stop [of cfg "?s\<lparr>sysW := w\<rparr>"] w(2) by (cases s) simp
  qed
qed

lemma sysInv_step: "writer_step s s' \<Longrightarrow> sysInv cfg s \<Longrightarrow> cfgOk cfg \<Longrightarrow> sysInv cfg s'"
proof (induction rule: writer_step.induct)
  case (enqueue_returns item c x s w e)
  with sysInv_enqueue [of cfg s item c x w "Returned e"] show ?case by simp
next
  case (enqueue_waits item c x s w)
  with sysInv_enqueue [of cfg s item c x w Waiting] show ?case by simp
next
  case (wake_returns s xs item ys c x w e)
  with sysInv_wake [of cfg s xs item ys c x w "Returned e"] show ?case by simp
next
  case (wake_waits s xs item ys c x w)
  then have eq: "s\<lparr>sysW := w, sysWaiting := xs @ item # ys\<rparr> = s\<lparr>sysW := w\<rparr>"
    by (cases s) simp
  have "sysInv cfg (s\<lparr>sysW := w, sysWaiting := xs @ item # ys\<rparr>)"
    using wake_waits sysInv_wake [of cfg s xs item ys c x w Waiting] by simp
  then show ?case
    by (simp only: eq)
next
  case (run_take s next' w)
  then show ?case by (intro sysInv_take)
next
  case (run_done s item t w continue)
  then show ?case by (intro sysInv_done)
next
  case (run_stop s)
  then show ?case by (intro sysInv_stop)
next
  case (begin_closing s)
  then show ?case
    unfolding beginClosing_def by (intro sysInv_releaseQueued) (auto simp: sysInv_def writerInv_def)
next
  case (close_writer s)
  then show ?case
    unfolding close_def by (auto intro!: sysInv_releaseQueued) (simp_all add: sysInv_def)
qed

lemma sysInv_reachable: "writer_reachable cfg s \<Longrightarrow> cfgOk cfg \<Longrightarrow> sysInv cfg s"
  by (induction rule: writer_reachable.induct) (auto intro: sysInv_init sysInv_step)

section \<open>Properties\<close>

abbreviation sampleCfg :: SendQueueConfig where
  "sampleCfg \<equiv> \<lparr>sqEnabled = True, sqMaxFrames = 4, sqMaxBytes = 100, sqEnqueueTimeout = 1, sqWriteTimeout = 1\<rparr>"

abbreviation sampleItem :: "nat \<Rightarrow> sendItem" where
  "sampleItem n \<equiv> \<lparr>itPriority = PriorityIdle, itChannel = ChannelBulk, itData = [1, 2], itBufp = None, itDone = Some n\<rparr>"

lemma sampleCfg_ok: "cfgOk sampleCfg"
  by (simp add: cfgOk_def)

lemma sample_enqueue:
  "enqueue None False (newSessionWriter sampleCfg) (sampleItem n)
     = (accept (newSessionWriter sampleCfg) (sampleItem n), Returned None)"
  unfolding enqueue_cases clampItem_def controlRefused_def enqueueRound_def canEnqueue_def
    closedErrLocked_def Let_def newSessionWriter_def by simp

text \<open>C24: In every reachable state of the writer, whatever goroutines enqueue, wait, write, fail or
  close: the counters are exact and within the configured limits, each queue holds items of its
  own priority, after \<open>beginClosing\<close> only critical control frames are queued, and a closed writer
  has an error and an empty queue.\<close>

theorem writer_invariant:
  assumes "writer_reachable cfg s" "cfgOk cfg"
  shows "queuesInv (wQueue (sysW s))
    \<and> wQueuedItems (sysW s) = int (size (queued (sysW s)))
    \<and> unat (wQueuedBytes (sysW s)) = totalBytes (queued (sysW s))
    \<and> withinLimits cfg (queued (sysW s))
    \<and> wQueueWaiters (sysW s) = int (length (sysWaiting s))
    \<and> (wInFlight (sysW s) \<longleftrightarrow> sysCurrent s \<noteq> None)
    \<and> (wControlOnly (sysW s) \<longrightarrow> (\<forall>x \<in># queued (sysW s). itPriority x = PriorityCritical \<and> itChannel x = ChannelControl))
    \<and> (wClosed (sysW s) \<longrightarrow> wErr (sysW s) \<noteq> None \<and> queued (sysW s) = {#})"
  using sysInv_reachable [OF assms] by (auto simp: sysInv_def writerInv_def)

lemma sample_reachable:
  "writer_reachable sampleCfg ((initSys sampleCfg)
     \<lparr>sysW := accept (newSessionWriter sampleCfg) (sampleItem n), sysSubmitted := [sampleItem n]\<rparr>)"
proof -
  have "writer_step (initSys sampleCfg) ((initSys sampleCfg)\<lparr>sysW := accept (newSessionWriter sampleCfg) (sampleItem n),
      sysSubmitted := clampItem (sampleItem n) # sysSubmitted (initSys sampleCfg)\<rparr>)"
    by (rule enqueue_returns [where c = None and x = False and e = None])
      (use sample_enqueue [of n] in \<open>simp_all add: initSys_def sliceItem_def\<close>)
  then show ?thesis
    by (intro reach_step [OF reach_init]) (simp add: initSys_def clampItem_def)
qed

theorem writer_invariant_witness:
  "wQueuedItems (accept (newSessionWriter sampleCfg) (sampleItem 7))
     = int (size (queued (accept (newSessionWriter sampleCfg) (sampleItem 7))))"
  using writer_invariant [OF sample_reachable [of 7] sampleCfg_ok] by simp

lemma doneSent_count:
  "length (filter (\<lambda>m. fst m = c) (doneSent w)) = size {#x \<in># mset (map fst (wReleased w)). itDone x = Some c#}"
proof -
  have "length (filter (\<lambda>m. fst m = c) (concat (map (\<lambda>(item, e). case itDone item of None \<Rightarrow> [] | Some c \<Rightarrow> [(c, e)]) rs)))
      = size {#x \<in># mset (map fst rs). itDone x = Some c#}" for rs
    by (induction rs) (auto split: option.splits)
  then show ?thesis
    by (simp only: doneSent_def)
qed

text \<open>C9: Every submitted item is accounted for exactly once: it is queued, waiting, being written, or
  released, never two of these and never lost. So the completion channel of an item receives
  exactly one message when the item leaves the writer, and none before: the messages sent on a
  channel are as many as the submitted items with that channel that are not held any more.\<close>

theorem writer_releases_once:
  assumes "writer_reachable cfg s" "cfgOk cfg"
  shows "mset (sysSubmitted s) = held s + mset (map fst (wReleased (sysW s)))
    \<and> length (filter (\<lambda>m. fst m = c) (doneSent (sysW s))) + size {#x \<in># held s. itDone x = Some c#}
      = size {#x \<in># mset (sysSubmitted s). itDone x = Some c#}"
proof -
  have "mset (sysSubmitted s) = held s + mset (map fst (wReleased (sysW s)))"
    using sysInv_reachable [OF assms] by (simp add: sysInv_def)
  then show ?thesis
    by (simp add: doneSent_count)
qed

theorem writer_releases_once_witness:
  "length (filter (\<lambda>m. fst m = 7) (doneSent (accept (newSessionWriter sampleCfg) (sampleItem 7)))) \<le> 1"
  using writer_releases_once [OF sample_reachable [of 7] sampleCfg_ok, of 7] by simp

theorem writer_no_starvation_witness:
  "sampleItem 7 \<in> set (writerTrace (replicate 16 OpPop) (accept (newSessionWriter sampleCfg) (sampleItem 7)))"
proof -
  have inv: "sysInv sampleCfg ((initSys sampleCfg)
      \<lparr>sysW := accept (newSessionWriter sampleCfg) (sampleItem 7), sysSubmitted := [sampleItem 7]\<rparr>)"
    by (rule sysInv_reachable [OF sample_reachable sampleCfg_ok])
  show ?thesis
  proof (rule writer_no_starvation [where p = 4 and xs = "[]" and ys = "[]"])
    show "ringItems (wQueue (accept (newSessionWriter sampleCfg) (sampleItem 7)) ! 4) = [] @ sampleItem 7 # []"
      using push_ring [of "\<lparr>rItems = replicate 64 zeroItem, rHead = 0, rSize = 0\<rparr>" "sampleItem 7"]
      by (simp add: newSessionWriter_def ringInv_def ringItems_new)
    show "16 * (length [] + 1) \<le> count_list (replicate 16 OpPop) OpPop"
      by (simp add: eval_nat_numeral)
  qed (use inv sampleCfg_ok in \<open>simp_all add: sysInv_def newSessionWriter_def list_all_iff\<close>)
qed

text \<open>A closed writer never blocks and never accepts: once the writer is closed, every new
  \<open>enqueue\<close> and every woken waiter returns an error at once and releases its item, so no caller
  waits for ever.\<close>

theorem closed_writer_refuses:
  assumes "wClosed w"
  shows "(\<exists>e. enqueue c x w item = (releaseItem w (clampItem item) (Some e), Returned (Some e)))
    \<and> (\<exists>e w'. enqueueWake c x w item = (releaseItem w' item (Some e), Returned (Some e)))"
proof -
  have round: "\<exists>e. enqueueRound c x v item = (releaseItem v item (Some e), Returned (Some e))"
    if closed: "wClosed v" for v item
  proof -
    obtain e where "closedErrLocked v = Some e"
      using closed by (cases "wErr v") (auto simp: closedErrLocked_def)
    then have "enqueueRound c x v item = (releaseItem v item (Some e), Returned (Some e))"
      unfolding enqueueRound_def Let_def by simp
    then show ?thesis by blast
  qed
  show ?thesis
    using assms round [of w "clampItem item"] round [of "w\<lparr>wQueueWaiters := wQueueWaiters w - 1\<rparr>" item]
    by (auto simp: enqueue_cases enqueueWake_def)
qed

theorem closed_writer_refuses_witness:
  "\<exists>e. enqueue None False (close (newSessionWriter sampleCfg)) (sampleItem 1)
     = (releaseItem (close (newSessionWriter sampleCfg)) (clampItem (sampleItem 1)) (Some e), Returned (Some e))"
  by (rule closed_writer_refuses [THEN conjunct1])
    (simp add: close_def newSessionWriter_def releaseQueuedLocked_def)

end
