(* ===== verification/Etp_Router.thy ===== *)
theory Etp_Router
  imports Etp_Prelude
begin

text \<open>
  The event router, \<open>router.go\<close>: patterns, groups, middleware scopes, compilation and dispatch. A
  router and its groups are linked by pointers (a group knows its parent, a parent its groups), so
  the model keeps a store of nodes: node 0 is the root and a pointer is an index. A handler is a
  value of an arbitrary type, a middleware a function on handlers, and \<open>None\<close> is the nil of the
  source. The lemmas show what a compiled router runs for an event: the handler registered for it,
  wrapped by exactly the matching middlewares of its group and the groups above, in registration
  order.
\<close>

section \<open>Patterns\<close>

definition trimDots :: "string \<Rightarrow> string" where
  "trimDots s = rev (dropWhile (\<lambda>c. c = CHR ''.'') (rev (dropWhile (\<lambda>c. c = CHR ''.'') s)))"

definition joinPattern :: "string \<Rightarrow> string \<Rightarrow> string" where
  "joinPattern prefix pattern =
     (let prefix = trimDots prefix; pattern = trimDots pattern
      in if prefix = '''' then pattern
         else if pattern = '''' then prefix
         else prefix @ ''.'' @ pattern)"

text \<open>\<open>strings.CutSuffix\<close> and \<open>strings.HasPrefix\<close>.\<close>

definition cutSuffix :: "string \<Rightarrow> string \<Rightarrow> string option" where
  "cutSuffix s suffix =
     (if length suffix \<le> length s \<and> drop (length s - length suffix) s = suffix
      then Some (take (length s - length suffix) s) else None)"

definition hasPrefix :: "string \<Rightarrow> string \<Rightarrow> bool" where
  "hasPrefix s prefix \<longleftrightarrow> take (length prefix) s = prefix"

definition matchPattern :: "string \<Rightarrow> string \<Rightarrow> bool" where
  "matchPattern pattern event =
     (if pattern = ''*'' then True
      else case cutSuffix pattern ''.*'' of
        Some before \<Rightarrow> hasPrefix event (before @ ''.'')
      | None \<Rightarrow> pattern = event)"

section \<open>Routers and groups\<close>

definition ErrRouterCompiled :: go_error where "ErrRouterCompiled = Err ''transport: router is already compiled''"
definition ErrRouterNotCompiled :: go_error where "ErrRouterNotCompiled = Err ''transport: router is not compiled''"
definition ErrRouteNotFound :: go_error where "ErrRouteNotFound = Err ''transport: route not found''"
definition ErrRouteAlreadyExists :: go_error where "ErrRouteAlreadyExists = Err ''transport: route already exists''"
definition ErrRoutePatternEmpty :: go_error where "ErrRoutePatternEmpty = Err ''transport: route pattern is empty''"
definition ErrGroupPrefixCount :: go_error where "ErrGroupPrefixCount = Err ''transport: group accepts at most one prefix''"
definition ErrMiddlewareNil :: go_error where "ErrMiddlewareNil = Err ''transport: middleware is nil''"
definition ErrHandlerNil :: go_error where "ErrHandlerNil = Err ''transport: handler is nil''"

record 'h middlewareRoute =
  mwPattern :: string
  mwFn :: "'h \<Rightarrow> 'h"

record 'h endpointRoute =
  epPattern :: string
  epFn :: 'h

record 'h compiledRouter =
  rPrefix :: string
  rParent :: "nat option"
  rMiddlewares :: "'h middlewareRoute list"
  rEndpoints :: "'h endpointRoute list"
  rGroups :: "nat list"
  rCompiled :: "string \<rightharpoonup> 'h"
  rRegistered :: "string list"
  rIsCompiled :: bool

type_synonym 'h routers = "'h compiledRouter list"

definition newNode :: "string \<Rightarrow> nat option \<Rightarrow> 'h compiledRouter" where
  "newNode prefix parent = \<lparr>rPrefix = prefix, rParent = parent, rMiddlewares = [], rEndpoints = [],
     rGroups = [], rCompiled = Map.empty, rRegistered = [], rIsCompiled = False\<rparr>"

definition NewRouter :: "'h routers" where
  "NewRouter = [newNode '''' None]"

text \<open>The walk along the parent pointers, from a node to the root. A group is created after its
  parent, so a parent has a smaller index; the guard makes the walk total.\<close>

fun ancestry :: "'h routers \<Rightarrow> nat \<Rightarrow> nat list" where
  "ancestry rs i =
     (case rParent (rs ! i) of None \<Rightarrow> [i] | Some p \<Rightarrow> if p < i then i # ancestry rs p else [i])"

declare ancestry.simps [simp del]

definition root :: "'h routers \<Rightarrow> nat \<Rightarrow> nat" where
  "root rs i = last (ancestry rs i)"

fun joinDots :: "string list \<Rightarrow> string" where
  "joinDots [] = ''''"
| "joinDots [s] = s"
| "joinDots (s # ss) = s @ ''.'' @ joinDots ss"

definition fullPrefix :: "'h routers \<Rightarrow> nat \<Rightarrow> string" where
  "fullPrefix rs i =
     joinDots (rev (filter (\<lambda>s. s \<noteq> '''') (map (\<lambda>j. rPrefix (rs ! j)) (ancestry rs i))))"

definition scopedMiddlewarePattern :: "'h routers \<Rightarrow> nat \<Rightarrow> string \<Rightarrow> string" where
  "scopedMiddlewarePattern rs i pattern =
     (let prefix = fullPrefix rs i
      in if pattern = '''' \<or> pattern = ''*''
         then (if prefix = '''' then ''*'' else prefix @ ''.*'')
         else joinPattern prefix pattern)"

definition Use :: "'h routers \<Rightarrow> nat \<Rightarrow> string \<Rightarrow> ('h \<Rightarrow> 'h) option \<Rightarrow> 'h routers go" where
  "Use rs i pattern middleware =
     (if rIsCompiled (rs ! i) then Inl ErrRouterCompiled
      else case middleware of None \<Rightarrow> Inl ErrMiddlewareNil
      | Some fn \<Rightarrow> Inr (rs[i := (rs ! i)\<lparr>rMiddlewares := rMiddlewares (rs ! i) @
          [\<lparr>mwPattern = scopedMiddlewarePattern rs i pattern, mwFn = fn\<rparr>]\<rparr>]))"

definition On :: "'h routers \<Rightarrow> nat \<Rightarrow> string \<Rightarrow> 'h option \<Rightarrow> 'h routers go" where
  "On rs i pattern handler =
     (if rIsCompiled (rs ! i) then Inl ErrRouterCompiled
      else case handler of None \<Rightarrow> Inl ErrHandlerNil
      | Some fn \<Rightarrow>
          (let fullPattern = joinPattern (fullPrefix rs i) pattern; r = root rs i
           in if fullPattern = '''' then Inl ErrRoutePatternEmpty
              else if fullPattern \<in> set (rRegistered (rs ! r)) then Inl ErrRouteAlreadyExists
              else
                (let rs = rs[r := (rs ! r)\<lparr>rRegistered := rRegistered (rs ! r) @ [fullPattern]\<rparr>]
                 in Inr (rs[i := (rs ! i)\<lparr>rEndpoints := rEndpoints (rs ! i) @
                      [\<lparr>epPattern = fullPattern, epFn = fn\<rparr>]\<rparr>]))))"

text \<open>\<open>Group\<close> panics with an error value; the model returns that value.\<close>

definition Group :: "'h routers \<Rightarrow> nat \<Rightarrow> string list \<Rightarrow> ('h routers \<times> nat) go" where
  "Group rs i prefix =
     (if rIsCompiled (rs ! i) then Inl ErrRouterCompiled
      else if length prefix > 1 then Inl ErrGroupPrefixCount
      else
        (let groupPrefix = (if length prefix = 1 then prefix ! 0 else '''');
             g = length rs
         in Inr (rs[i := (rs ! i)\<lparr>rGroups := rGroups (rs ! i) @ [g]\<rparr>] @ [newNode groupPrefix (Some i)], g)))"

section \<open>Compilation and dispatch\<close>

text \<open>The loop \<open>for i := len(middlewares) - 1; i >= 0; i--\<close> wraps from the last middleware to the first.\<close>

definition wrapHandler :: "'h middlewareRoute list \<Rightarrow> string \<Rightarrow> 'h \<Rightarrow> 'h" where
  "wrapHandler middlewares pattern handler =
     foldl (\<lambda>handler m. if matchPattern (mwPattern m) pattern then mwFn m handler else handler)
       handler (rev middlewares)"

text \<open>The recursion follows the groups down; the number of nodes bounds its depth.\<close>

fun compileInto ::
    "nat \<Rightarrow> 'h routers \<Rightarrow> nat \<Rightarrow> 'h middlewareRoute list \<Rightarrow> (string \<rightharpoonup> 'h) \<Rightarrow> (string \<rightharpoonup> 'h)" where
  "compileInto 0 rs i inherited compiled = compiled"
| "compileInto (Suc n) rs i inherited compiled =
     (let middlewares = inherited @ rMiddlewares (rs ! i);
          compiled = foldl (\<lambda>m e. m(epPattern e \<mapsto> wrapHandler middlewares (epPattern e) (epFn e)))
            compiled (rEndpoints (rs ! i))
      in foldl (\<lambda>m g. compileInto n rs g middlewares m) compiled (rGroups (rs ! i)))"

definition Compile :: "'h routers \<Rightarrow> nat \<Rightarrow> 'h routers" where
  "Compile rs i =
     (let r = root rs i
      in if rIsCompiled (rs ! r) then rs
         else rs[r := (rs ! r)\<lparr>rCompiled := compileInto (length rs) rs r [] Map.empty, rIsCompiled := True\<rparr>])"

text \<open>\<open>Emit\<close> returns the handler it calls, or the error it returns without calling one.\<close>

definition Emit :: "'h routers \<Rightarrow> nat \<Rightarrow> string \<Rightarrow> 'h go" where
  "Emit rs i event =
     (let r = root rs i
      in if \<not> rIsCompiled (rs ! r) then Inl ErrRouterNotCompiled
         else case rCompiled (rs ! r) event of None \<Rightarrow> Inl ErrRouteNotFound | Some h \<Rightarrow> Inr h)"

text \<open>\<open>App.emit\<close>: an error \<open>ErrRouteNotFound\<close>, from the router or from a handler, goes to the not-found
  handler when there is one. The second result is what the error callback is called with.\<close>

definition emit ::
    "('c \<Rightarrow> go_error option) option \<Rightarrow> bool \<Rightarrow> ('c \<Rightarrow> go_error option) routers \<Rightarrow> nat \<Rightarrow> string \<Rightarrow> 'c \<Rightarrow>
       go_error option \<times> go_error list" where
  "emit onNotFound hasOnError rs i event ctx =
     (let err = (case Emit rs i event of Inl e \<Rightarrow> Some e | Inr h \<Rightarrow> h ctx);
          err = (case onNotFound of
                   Some f \<Rightarrow> if err = Some ErrRouteNotFound then f ctx else err
                 | None \<Rightarrow> err)
      in (err, case err of Some e \<Rightarrow> if hasOnError then [e] else [] | None \<Rightarrow> []))"

section \<open>The invariant of a router under construction\<close>

definition treeInv :: "'h routers \<Rightarrow> bool" where
  "treeInv rs \<longleftrightarrow> 0 < length rs \<and> rParent (rs ! 0) = None
     \<and> (\<forall>i. 0 < i \<and> i < length rs \<longrightarrow> (\<exists>p<i. rParent (rs ! i) = Some p \<and> i \<in> set (rGroups (rs ! p))))
     \<and> (\<forall>p<length rs. \<forall>g\<in>set (rGroups (rs ! p)). p < g \<and> g < length rs \<and> rParent (rs ! g) = Some p)"

definition routes :: "'h routers \<Rightarrow> (nat \<times> 'h endpointRoute) set" where
  "routes rs = {(i, e). i < length rs \<and> e \<in> set (rEndpoints (rs ! i))}"

definition routeInv :: "'h routers \<Rightarrow> bool" where
  "routeInv rs \<longleftrightarrow> set (rRegistered (rs ! 0)) = (epPattern \<circ> snd) ` routes rs
     \<and> inj_on (epPattern \<circ> snd) (routes rs) \<and> (\<forall>i<length rs. \<not> rIsCompiled (rs ! i))"

definition routersInv :: "'h routers \<Rightarrow> bool" where
  "routersInv rs \<longleftrightarrow> treeInv rs \<and> routeInv rs"

lemma treeInv_root: "treeInv rs \<Longrightarrow> 0 < length rs \<and> rParent (rs ! 0) = None"
  by (simp add: treeInv_def)

lemma treeInv_parent:
  "treeInv rs \<Longrightarrow> 0 < i \<Longrightarrow> i < length rs \<Longrightarrow> \<exists>p<i. rParent (rs ! i) = Some p \<and> i \<in> set (rGroups (rs ! p))"
  unfolding treeInv_def by blast

lemma treeInv_child:
  "treeInv rs \<Longrightarrow> p < length rs \<Longrightarrow> g \<in> set (rGroups (rs ! p)) \<Longrightarrow>
     p < g \<and> g < length rs \<and> rParent (rs ! g) = Some p"
  unfolding treeInv_def by blast

lemma treeInvI:
  "0 < length rs \<Longrightarrow> rParent (rs ! 0) = None \<Longrightarrow>
   (\<And>i. 0 < i \<Longrightarrow> i < length rs \<Longrightarrow> \<exists>p<i. rParent (rs ! i) = Some p \<and> i \<in> set (rGroups (rs ! p))) \<Longrightarrow>
   (\<And>p g. p < length rs \<Longrightarrow> g \<in> set (rGroups (rs ! p)) \<Longrightarrow> p < g \<and> g < length rs \<and> rParent (rs ! g) = Some p) \<Longrightarrow>
   treeInv rs"
  unfolding treeInv_def by blast

lemma last_ancestry:
  assumes "treeInv rs" shows "i < length rs \<Longrightarrow> last (ancestry rs i) = 0"
proof (induction i rule: less_induct)
  case (less i)
  show ?case
  proof (cases "i = 0")
    case True
    then show ?thesis using assms by (simp add: ancestry.simps [of rs 0] treeInv_def)
  next
    case False
    then obtain p where p: "p < i" "rParent (rs ! i) = Some p"
      using treeInv_parent [OF assms, of i] less.prems by blast
    have "ancestry rs p \<noteq> []" by (subst ancestry.simps) (simp split: option.splits)
    with p less show ?thesis by (simp add: ancestry.simps [of rs i])
  qed
qed

lemma root_0: "treeInv rs \<Longrightarrow> i < length rs \<Longrightarrow> root rs i = 0"
  by (simp add: root_def last_ancestry)

lemma routersInv_new: "routersInv NewRouter"
proof -
  have "routes (NewRouter :: 'a routers) = {}"
    by (simp add: routes_def NewRouter_def newNode_def cong: conj_cong)
  then show ?thesis
    by (auto simp: routersInv_def treeInv_def routeInv_def) (simp_all add: NewRouter_def newNode_def)
qed

lemma treeInv_cong:
  assumes "treeInv rs" "length rs' = length rs"
    "\<And>i. i < length rs \<Longrightarrow> rParent (rs' ! i) = rParent (rs ! i) \<and> rGroups (rs' ! i) = rGroups (rs ! i)"
  shows "treeInv rs'"
proof (rule treeInvI)
  show "0 < length rs'" "rParent (rs' ! 0) = None"
    using treeInv_root [OF assms(1)] assms(2,3) by simp_all
next
  fix i assume "0 < i" "i < length rs'"
  then obtain p where "p < i" "rParent (rs ! i) = Some p" "i \<in> set (rGroups (rs ! p))"
    using treeInv_parent [OF assms(1), of i] assms(2) by auto
  then show "\<exists>p<i. rParent (rs' ! i) = Some p \<and> i \<in> set (rGroups (rs' ! p))"
    using assms(2) assms(3) [of i] assms(3) [of p] \<open>i < length rs'\<close> by auto
next
  fix p g assume "p < length rs'" "g \<in> set (rGroups (rs' ! p))"
  then show "p < g \<and> g < length rs' \<and> rParent (rs' ! g) = Some p"
    using treeInv_child [OF assms(1), of p g] assms(2) assms(3) [of p] assms(3) [of g] by simp
qed

lemma routersInv_Use:
  assumes "routersInv rs" "i < length rs" "Use rs i pattern m = Inr rs'"
  shows "routersInv rs' \<and> length rs' = length rs"
proof -
  obtain fn where rs': "rs' = rs[i := (rs ! i)\<lparr>rMiddlewares := rMiddlewares (rs ! i) @
      [\<lparr>mwPattern = scopedMiddlewarePattern rs i pattern, mwFn = fn\<rparr>]\<rparr>]"
    using assms(3) by (auto simp: Use_def split: if_splits option.splits)
  have same: "j < length rs \<Longrightarrow> rParent (rs' ! j) = rParent (rs ! j) \<and> rGroups (rs' ! j) = rGroups (rs ! j)
      \<and> rEndpoints (rs' ! j) = rEndpoints (rs ! j) \<and> rRegistered (rs' ! j) = rRegistered (rs ! j)
      \<and> rIsCompiled (rs' ! j) = rIsCompiled (rs ! j)" for j
    using assms(2) by (simp add: rs' nth_list_update)
  have len: "length rs' = length rs" "0 < length rs"
    using assms(2) by (simp only: rs' length_list_update, linarith)
  have "treeInv rs'"
    using assms(1) same len by (simp add: routersInv_def treeInv_cong [of rs])
  moreover have "routes rs' = routes rs"
    using same len by (auto simp: routes_def)
  ultimately show ?thesis
    using assms(1) same len by (simp add: routersInv_def routeInv_def)
qed

lemma routersInv_On:
  assumes "routersInv rs" "i < length rs" "On rs i pattern h = Inr rs'"
  shows "routersInv rs' \<and> length rs' = length rs"
proof -
  define q where "q = joinPattern (fullPrefix rs i) pattern"
  define rs1 where "rs1 = rs[0 := (rs ! 0)\<lparr>rRegistered := rRegistered (rs ! 0) @ [q]\<rparr>]"
  have root: "root rs i = 0" and len: "0 < length rs"
    using assms(1,2) treeInv_root [of rs] by (simp_all add: routersInv_def root_0)
  obtain fn where fresh: "q \<notin> set (rRegistered (rs ! 0))" and
      rs': "rs' = rs1[i := (rs1 ! i)\<lparr>rEndpoints := rEndpoints (rs1 ! i) @ [\<lparr>epPattern = q, epFn = fn\<rparr>]\<rparr>]"
    using assms(3) by (auto simp: On_def root Let_def q_def rs1_def split: if_splits option.splits)
  have same: "j < length rs \<Longrightarrow> rParent (rs' ! j) = rParent (rs ! j) \<and> rGroups (rs' ! j) = rGroups (rs ! j)
      \<and> rIsCompiled (rs' ! j) = rIsCompiled (rs ! j)
      \<and> rEndpoints (rs' ! j) = rEndpoints (rs ! j) @ (if j = i then [\<lparr>epPattern = q, epFn = fn\<rparr>] else [])
      \<and> rRegistered (rs' ! j) = rRegistered (rs ! j) @ (if j = 0 then [q] else [])" for j
    using len assms(2) by (auto simp: rs' rs1_def nth_list_update)
  have len': "length rs' = length rs"
    by (simp add: rs' rs1_def)
  have "treeInv rs'"
    using assms(1) same len' by (simp add: routersInv_def treeInv_cong [of rs])
  moreover have "routes rs' = insert (i, \<lparr>epPattern = q, epFn = fn\<rparr>) (routes rs)"
    using same len' assms(2) by (auto simp: routes_def split: if_splits)
  ultimately show ?thesis
    using assms(1) same len len' fresh by (auto simp: routersInv_def routeInv_def)
qed

lemma routersInv_Group:
  assumes "routersInv rs" "i < length rs" "Group rs i prefix = Inr (rs', g)"
  shows "routersInv rs' \<and> length rs' = Suc (length rs) \<and> g = length rs"
proof -
  define pre where "pre = (if length prefix = 1 then prefix ! 0 else '''')"
  have rs': "rs' = rs[i := (rs ! i)\<lparr>rGroups := rGroups (rs ! i) @ [length rs]\<rparr>] @ [newNode pre (Some i)]"
      and g: "g = length rs"
    using assms(3) by (auto simp: Group_def Let_def pre_def split: if_splits)
  have tree: "treeInv rs"
    using assms(1) by (simp add: routersInv_def)
  have len: "0 < length rs" "length rs' = Suc (length rs)"
    using treeInv_root [OF tree] by (simp_all add: rs')
  have same: "j < length rs \<Longrightarrow> rParent (rs' ! j) = rParent (rs ! j)
      \<and> rGroups (rs' ! j) = rGroups (rs ! j) @ (if j = i then [length rs] else [])
      \<and> rEndpoints (rs' ! j) = rEndpoints (rs ! j) \<and> rRegistered (rs' ! j) = rRegistered (rs ! j)
      \<and> rIsCompiled (rs' ! j) = rIsCompiled (rs ! j)" for j
    using assms(2) by (auto simp: rs' nth_append nth_list_update)
  have new: "rs' ! length rs = newNode pre (Some i)"
    by (simp add: rs' nth_append)
  have parent: "\<exists>p<k. rParent (rs' ! k) = Some p \<and> k \<in> set (rGroups (rs' ! p))"
    if k: "0 < k" "k < length rs'" for k
  proof (cases "k = length rs")
    case True
    then show ?thesis using assms(2) same [of i] new by (auto simp: newNode_def)
  next
    case False
    then obtain p where "p < k" "rParent (rs ! k) = Some p" "k \<in> set (rGroups (rs ! p))"
      using treeInv_parent [OF tree, of k] k len by auto
    then show ?thesis using same [of k] same [of p] k len False by auto
  qed
  have child: "p < g \<and> g < length rs' \<and> rParent (rs' ! g) = Some p"
    if p: "p < length rs'" "g \<in> set (rGroups (rs' ! p))" for p g
  proof (cases "p = length rs")
    case True
    then show ?thesis using p new by (simp add: newNode_def)
  next
    case False
    then have "p < length rs" using p len by simp
    then show ?thesis
      using p(2) same [of p] same [of g] new len treeInv_child [OF tree, of p g]
      by (cases "g = length rs") (auto simp: newNode_def split: if_splits)
  qed
  have "treeInv rs'"
  proof (rule treeInvI)
    show "0 < length rs'" "rParent (rs' ! 0) = None"
      using treeInv_root [OF tree] same [of 0] len by simp_all
  qed (erule (1) parent, erule (1) child)
  moreover have "routes rs' = routes rs"
    using same new len by (auto simp: routes_def newNode_def less_Suc_eq)
  ultimately show ?thesis
    using assms(1) same new len g by (auto simp: routersInv_def routeInv_def less_Suc_eq newNode_def)
qed

section \<open>What compilation computes\<close>

text \<open>The middlewares in force at a node: those of the nodes above it and its own, from the root
  down, each node's in registration order.\<close>

definition inherited :: "'h routers \<Rightarrow> nat \<Rightarrow> 'h middlewareRoute list" where
  "inherited rs i = concat (map (\<lambda>j. rMiddlewares (rs ! j)) (rev (tl (ancestry rs i))))"

definition inForce :: "'h routers \<Rightarrow> nat \<Rightarrow> 'h middlewareRoute list" where
  "inForce rs i = concat (map (\<lambda>j. rMiddlewares (rs ! j)) (rev (ancestry rs i)))"

text \<open>The nodes that compilation visits, each with the middlewares it is given.\<close>

fun visits :: "nat \<Rightarrow> 'h routers \<Rightarrow> nat \<Rightarrow> 'h middlewareRoute list \<Rightarrow> (nat \<times> 'h middlewareRoute list) list" where
  "visits 0 rs i inh = []"
| "visits (Suc n) rs i inh =
     (i, inh @ rMiddlewares (rs ! i)) # concat (map (\<lambda>g. visits n rs g (inh @ rMiddlewares (rs ! i))) (rGroups (rs ! i)))"

definition entries :: "'h routers \<Rightarrow> (nat \<times> 'h middlewareRoute list) list \<Rightarrow> (string \<times> 'h) list" where
  "entries rs vs = concat (map (\<lambda>(i, ms). map (\<lambda>e. (epPattern e, wrapHandler ms (epPattern e) (epFn e)))
     (rEndpoints (rs ! i))) vs)"

lemma foldl_upds: "foldl (\<lambda>m e. m(f e \<mapsto> g e)) m es = m ++ map_of (rev (map (\<lambda>e. (f e, g e)) es))"
  by (induction es arbitrary: m) (simp_all add: map_add_upd_left map_add_assoc)

lemma compileInto_entries: "compileInto n rs i inh m = m ++ map_of (rev (entries rs (visits n rs i inh)))"
proof (induction n arbitrary: i inh m)
  case 0
  then show ?case by (simp add: entries_def)
next
  case (Suc n)
  have groups: "foldl (\<lambda>m g. compileInto n rs g ms m) m gs
      = m ++ map_of (rev (entries rs (concat (map (\<lambda>g. visits n rs g ms) gs))))" for gs ms m
    by (induction gs arbitrary: m) (simp_all add: Suc.IH entries_def)
  show ?case
    by (simp add: Let_def groups foldl_upds) (simp add: entries_def)
qed

lemma ancestry_root: "treeInv rs \<Longrightarrow> ancestry rs 0 = [0]"
  using treeInv_root [of rs] by (simp add: ancestry.simps [of rs 0])

lemma ancestry_child: "rParent (rs ! g) = Some p \<Longrightarrow> p < g \<Longrightarrow> ancestry rs g = g # ancestry rs p"
  by (simp add: ancestry.simps [of rs g])

lemma visits_inForce:
  assumes "treeInv rs"
  shows "(j, ms) \<in> set (visits n rs i inh) \<Longrightarrow> i < length rs \<Longrightarrow> inh @ rMiddlewares (rs ! i) = inForce rs i \<Longrightarrow>
    j < length rs \<and> ms = inForce rs j"
proof (induction n arbitrary: i inh)
  case (Suc n)
  show ?case
  proof (cases "(j, ms) = (i, inh @ rMiddlewares (rs ! i))")
    case False
    then obtain g where g: "g \<in> set (rGroups (rs ! i))" "(j, ms) \<in> set (visits n rs g (inForce rs i))"
      using Suc.prems by auto
    note c = treeInv_child [OF assms Suc.prems(2) g(1)]
    then have "inForce rs i @ rMiddlewares (rs ! g) = inForce rs g"
      by (simp add: inForce_def ancestry_child)
    with Suc.IH [OF g(2)] c show ?thesis by simp
  qed (use Suc.prems in simp)
qed simp

lemma visits_mono: "v \<in> set (visits n rs i inh) \<Longrightarrow> v \<in> set (visits (Suc n) rs i inh)"
proof (induction n arbitrary: i inh)
  case (Suc n)
  show ?case
  proof (cases "v = (i, inh @ rMiddlewares (rs ! i))")
    case False
    then obtain g where g: "g \<in> set (rGroups (rs ! i))" "v \<in> set (visits n rs g (inh @ rMiddlewares (rs ! i)))"
      using Suc.prems by auto
    with Suc.IH [OF g(2)] show ?thesis
      by (subst visits.simps) auto
  qed simp
qed simp

lemma visits_mono_le: "v \<in> set (visits n rs i inh) \<Longrightarrow> n \<le> m \<Longrightarrow> v \<in> set (visits m rs i inh)"
  by (induction m) (auto simp: le_Suc_eq simp del: visits.simps intro: visits_mono)

lemma visits_child:
  "(p, ms) \<in> set (visits n rs i inh) \<Longrightarrow> g \<in> set (rGroups (rs ! p)) \<Longrightarrow>
     (g, ms @ rMiddlewares (rs ! g)) \<in> set (visits (Suc n) rs i inh)"
proof (induction n arbitrary: i inh)
  case (Suc n)
  show ?case
  proof (cases "(p, ms) = (i, inh @ rMiddlewares (rs ! i))")
    case True
    have "(g, ms @ rMiddlewares (rs ! g)) \<in> set (visits (Suc n) rs g ms)" by simp
    with True Suc.prems(2) show ?thesis
      by (subst visits.simps) auto
  next
    case False
    then obtain h where h: "h \<in> set (rGroups (rs ! i))" "(p, ms) \<in> set (visits n rs h (inh @ rMiddlewares (rs ! i)))"
      using Suc.prems(1) by auto
    from Suc.IH [OF h(2) Suc.prems(2)] h(1) show ?thesis
      by (subst visits.simps) auto
  qed
qed simp

lemma visits_all:
  assumes "treeInv rs" shows "j < length rs \<Longrightarrow> (j, inForce rs j) \<in> set (visits (Suc j) rs 0 [])"
proof (induction j rule: less_induct)
  case (less j)
  show ?case
  proof (cases "j = 0")
    case True
    then show ?thesis using ancestry_root [OF assms] by (simp add: inForce_def)
  next
    case False
    then obtain p where p: "p < j" "rParent (rs ! j) = Some p" "j \<in> set (rGroups (rs ! p))"
      using treeInv_parent [OF assms, of j] less.prems by blast
    then have "(p, inForce rs p) \<in> set (visits (Suc p) rs 0 [])"
      using less by simp
    from visits_child [OF this p(3)] p show ?thesis
      using visits_mono_le [of _ "Suc (Suc p)" rs 0 "[]" "Suc j"]
      by (simp add: inForce_def ancestry_child del: visits.simps)
  qed
qed

section \<open>Dispatch\<close>

text \<open>The routers a program builds: a new one, then any successful registrations and groups.\<close>

inductive built :: "'h routers \<Rightarrow> bool" where
  built_new: "built NewRouter"
| built_use: "built rs \<Longrightarrow> i < length rs \<Longrightarrow> Use rs i pattern m = Inr rs' \<Longrightarrow> built rs'"
| built_on: "built rs \<Longrightarrow> i < length rs \<Longrightarrow> On rs i pattern h = Inr rs' \<Longrightarrow> built rs'"
| built_group: "built rs \<Longrightarrow> i < length rs \<Longrightarrow> Group rs i prefix = Inr (rs', g) \<Longrightarrow> built rs'"

lemma built_inv: "built rs \<Longrightarrow> routersInv rs"
  by (induction rule: built.induct)
    (auto intro: routersInv_new dest: routersInv_Use routersInv_On routersInv_Group)

lemma wrapHandler_foldr:
  "wrapHandler ms p h = foldr (\<lambda>m h. if matchPattern (mwPattern m) p then mwFn m h else h) ms h"
  by (simp add: wrapHandler_def foldl_conv_foldr)

lemma Compile_eq:
  assumes "routersInv rs" "i < length rs"
  shows "Compile rs i = rs[0 := (rs ! 0)\<lparr>rCompiled := map_of (rev (entries rs (visits (length rs) rs 0 []))), rIsCompiled := True\<rparr>]"
  using assms treeInv_root [of rs]
  by (simp add: Compile_def Let_def root_0 routersInv_def routeInv_def compileInto_entries)

lemma Compile_tree:
  assumes "routersInv rs" "i < length rs"
  shows "treeInv (Compile rs i)" "length (Compile rs i) = length rs"
proof -
  have tree: "treeInv rs" using assms(1) by (simp add: routersInv_def)
  then have "0 < length rs" using treeInv_root by blast
  with tree show "treeInv (Compile rs i)"
    by (elim treeInv_cong) (simp_all add: Compile_eq [OF assms] nth_list_update)
qed (simp add: Compile_eq [OF assms])

lemma entries_iff:
  assumes "routersInv rs"
  shows "(q, h) \<in> set (entries rs (visits (length rs) rs 0 [])) \<longleftrightarrow>
    (\<exists>j<length rs. \<exists>e\<in>set (rEndpoints (rs ! j)). q = epPattern e \<and> h = wrapHandler (inForce rs j) q (epFn e))"
proof -
  have tree: "treeInv rs" "0 < length rs"
    using assms treeInv_root [of rs] by (auto simp: routersInv_def)
  have "inForce rs 0 = rMiddlewares (rs ! 0)"
    using ancestry_root [OF tree(1)] by (simp add: inForce_def)
  then have "(j, ms) \<in> set (visits (length rs) rs 0 []) \<longleftrightarrow> j < length rs \<and> ms = inForce rs j" for j ms
    using visits_inForce [OF tree(1), of j ms "length rs" 0 "[]"] tree(2)
      visits_mono_le [OF visits_all [OF tree(1)], of j "length rs"] by auto
  then have vs: "set (visits (length rs) rs 0 []) = {(j, inForce rs j) | j. j < length rs}"
    by auto
  show ?thesis
    by (auto simp: entries_def vs)
qed

lemma Emit_Compile:
  assumes "routersInv rs" "i < length rs" "k < length rs"
  shows "Emit (Compile rs i) k q = (case map_of (rev (entries rs (visits (length rs) rs 0 []))) q of
    None \<Rightarrow> Inl ErrRouteNotFound | Some h \<Rightarrow> Inr h)"
proof -
  have "root (Compile rs i) k = 0"
    using Compile_tree [OF assms(1,2)] assms(3) by (simp add: root_0)
  moreover have "0 < length rs"
    using assms(3) by linarith
  ultimately show ?thesis
    by (simp add: Emit_def Compile_eq [OF assms(1,2)])
qed

lemma compiled_registered:
  assumes inv: "routersInv rs" and e: "j < length rs" "e \<in> set (rEndpoints (rs ! j))"
  shows "map_of (rev (entries rs (visits (length rs) rs 0 []))) (epPattern e)
    = Some (wrapHandler (inForce rs j) (epPattern e) (epFn e))"
proof -
  let ?m = "map_of (rev (entries rs (visits (length rs) rs 0 [])))"
  have inj: "inj_on (epPattern \<circ> snd) (routes rs)"
    using inv by (simp add: routersInv_def routeInv_def)
  have "(epPattern e, wrapHandler (inForce rs j) (epPattern e) (epFn e)) \<in> set (rev (entries rs (visits (length rs) rs 0 [])))"
    using e entries_iff [OF inv] by auto
  then obtain h where h: "?m (epPattern e) = Some h"
    using weak_map_of_SomeI by metis
  then obtain j' e' where "j' < length rs" "e' \<in> set (rEndpoints (rs ! j'))" "epPattern e = epPattern e'"
      "h = wrapHandler (inForce rs j') (epPattern e) (epFn e')"
    using map_of_SomeD [OF h] entries_iff [OF inv] by auto
  with h e inj_onD [OF inj, of "(j, e)" "(j', e')"] show ?thesis
    by (auto simp: routes_def)
qed

lemma compiled_unregistered:
  assumes inv: "routersInv rs" and q: "q \<notin> set (rRegistered (rs ! 0))"
  shows "map_of (rev (entries rs (visits (length rs) rs 0 []))) q = None"
proof (rule ccontr)
  assume "map_of (rev (entries rs (visits (length rs) rs 0 []))) q \<noteq> None"
  then obtain h where "(q, h) \<in> set (entries rs (visits (length rs) rs 0 []))"
    using map_of_SomeD by fastforce
  then obtain j e where "(j, e) \<in> routes rs" "q = epPattern e"
    by (auto simp: entries_iff [OF inv] routes_def)
  moreover have "set (rRegistered (rs ! 0)) = (epPattern \<circ> snd) ` routes rs"
    using inv by (simp add: routersInv_def routeInv_def)
  ultimately show False
    using q by force
qed



section \<open>The scope of a group's middleware\<close>

lemma dropWhile_dots: "\<exists>a. s = replicate a CHR ''.'' @ dropWhile (\<lambda>c. c = CHR ''.'') s"
proof (induction s)
  case (Cons c s)
  then obtain a where "s = replicate a CHR ''.'' @ dropWhile (\<lambda>c. c = CHR ''.'') s" ..
  then show ?case
    by (cases "c = CHR ''.''") (auto intro: exI [of _ "Suc a"] exI [of _ 0])
qed simp

lemma dropWhile_hd: "dropWhile P s = [] \<or> \<not> P (hd (dropWhile P s))"
  by (metis hd_dropWhile)

lemma trimDots_split: "\<exists>a b. s = replicate a CHR ''.'' @ trimDots s @ replicate b CHR ''.''"
proof -
  obtain a where a: "s = replicate a CHR ''.'' @ dropWhile (\<lambda>c. c = CHR ''.'') s"
    using dropWhile_dots by blast
  obtain b where "rev (dropWhile (\<lambda>c. c = CHR ''.'') s) = replicate b CHR ''.'' @ rev (trimDots s)"
    using dropWhile_dots [of "rev (dropWhile (\<lambda>c. c = CHR ''.'') s)"] by (auto simp: trimDots_def)
  then have "dropWhile (\<lambda>c. c = CHR ''.'') s = trimDots s @ replicate b CHR ''.''"
    by (metis rev_append rev_replicate rev_rev_ident)
  with a show ?thesis by metis
qed

lemma trimDots_hd: "trimDots s = [] \<or> hd (trimDots s) \<noteq> CHR ''.''"
proof -
  let ?d = "dropWhile (\<lambda>c. c = CHR ''.'') s"
  obtain b where "rev ?d = replicate b CHR ''.'' @ rev (trimDots s)"
    using dropWhile_dots [of "rev ?d"] by (auto simp: trimDots_def)
  then have "?d = trimDots s @ replicate b CHR ''.''"
    by (metis rev_append rev_replicate rev_rev_ident)
  then show ?thesis
    using dropWhile_hd [of "\<lambda>c. c = CHR ''.''" s] by (cases "trimDots s") auto
qed

lemma matchPattern_star:
  assumes "p \<noteq> ''''"
  shows "matchPattern (p @ ''.*'') event \<longleftrightarrow> (\<exists>rest. event = p @ ''.'' @ rest)"
proof -
  have "cutSuffix (p @ ''.*'') ''.*'' = Some p" "p @ ''.*'' \<noteq> ''*''"
    using assms by (auto simp: cutSuffix_def Cons_eq_append_conv)
  then have "matchPattern (p @ ''.*'') event \<longleftrightarrow> take (length (p @ ''.'')) event = p @ ''.''"
    by (simp add: matchPattern_def hasPrefix_def)
  also have "\<dots> \<longleftrightarrow> (\<exists>rest. event = (p @ ''.'') @ rest)"
    by (metis append_eq_conv_conj)
  finally show ?thesis by simp
qed

lemma dots_prefix_eq:
  assumes "replicate a CHR ''.'' @ t @ replicate b CHR ''.'' @ ''.'' @ rest = t @ u"
    "t \<noteq> []" "hd t \<noteq> CHR ''.''" "u = [] \<or> (\<exists>v. u = CHR ''.'' # v \<and> v \<noteq> [] \<and> hd v \<noteq> CHR ''.'')"
  shows "a = 0 \<and> b = 0"
proof -
  have a: "a = 0"
    using assms(1-3) by (cases a; cases t) auto
  then have "replicate b CHR ''.'' @ ''.'' @ rest = u"
    using assms(1) by simp
  moreover have "hd (replicate n CHR ''.'' @ CHR ''.'' # rest) = CHR ''.''" for n
    by (cases n) simp_all
  ultimately show ?thesis
    using a assms(4) by (cases b) auto
qed

text \<open>C33: The exact reach of \<open>Use("*")\<close> on a group with a prefix. Documentation says it covers every
  route in the current group. It covers the route registered as \<open>q\<close> just when \<open>q\<close> is not empty and the
  prefix has no dot at its ends: routes are registered under the trimmed prefix, the middleware
  pattern keeps the untrimmed one, and the group's own route has no trailing segment.\<close>

theorem group_star_scope:
  assumes "trimDots (fullPrefix rs i) \<noteq> ''''"
  shows "matchPattern (scopedMiddlewarePattern rs i ''*'') (joinPattern (fullPrefix rs i) q)
    \<longleftrightarrow> trimDots (fullPrefix rs i) = fullPrefix rs i \<and> trimDots q \<noteq> ''''"
proof -
  let ?p = "fullPrefix rs i" and ?t = "trimDots (fullPrefix rs i)"
  define u where "u = (if trimDots q = '''' then '''' else CHR ''.'' # trimDots q)"
  have p: "?p \<noteq> ''''" using assms by (auto simp: trimDots_def)
  have ev: "joinPattern ?p q = ?t @ u"
    using assms by (simp add: joinPattern_def u_def)
  have pat: "scopedMiddlewarePattern rs i ''*'' = ?p @ ''.*''"
    using p by (simp add: scopedMiddlewarePattern_def)
  obtain a b where ab: "?p = replicate a CHR ''.'' @ ?t @ replicate b CHR ''.''"
    using trimDots_split by blast
  have u: "u = [] \<or> (\<exists>v. u = CHR ''.'' # v \<and> v \<noteq> [] \<and> hd v \<noteq> CHR ''.'')"
    using trimDots_hd [of q] by (auto simp: u_def)
  show ?thesis
    unfolding pat ev matchPattern_star [OF p]
  proof
    assume "\<exists>rest. ?t @ u = ?p @ ''.'' @ rest"
    then obtain rest where rest: "?t @ u = ?p @ ''.'' @ rest" ..
    then have "replicate a CHR ''.'' @ ?t @ replicate b CHR ''.'' @ ''.'' @ rest = ?t @ u"
      by (subst (asm) (2) ab) simp
    then have "a = 0 \<and> b = 0"
      using dots_prefix_eq assms trimDots_hd u by blast
    with ab have "?t = ?p" by simp
    with rest show "?t = ?p \<and> trimDots q \<noteq> ''''"
      by (auto simp: u_def split: if_splits)
  next
    assume "?t = ?p \<and> trimDots q \<noteq> ''''"
    then show "\<exists>rest. ?t @ u = ?p @ ''.'' @ rest"
      by (simp add: u_def)
  qed
qed

lemma sample_group:
  "Group NewRouter 0 [''.control''] = Inr ([(newNode '''' None)\<lparr>rGroups := [1]\<rparr>, newNode ''.control'' (Some 0)], 1)"
  by (simp add: Group_def NewRouter_def newNode_def)

theorem group_star_scope_witness:
  "\<not> matchPattern (scopedMiddlewarePattern ([(newNode '''' None)\<lparr>rGroups := [1]\<rparr>, newNode ''.control'' (Some 0)] :: nat routers) 1 ''*'')
      (joinPattern (fullPrefix ([(newNode '''' None)\<lparr>rGroups := [1]\<rparr>, newNode ''.control'' (Some 0)] :: nat routers) 1) ''get'')"
proof -
  let ?rs = "[(newNode '''' None)\<lparr>rGroups := [1]\<rparr>, newNode ''.control'' (Some 0)] :: nat routers"
  have "fullPrefix ?rs 1 = ''.control''"
    by (simp add: fullPrefix_def ancestry.simps [of _ "Suc 0"] ancestry.simps [of _ 0] newNode_def)
  then show ?thesis
    using group_star_scope [of ?rs 1 "''get''"] by (simp add: trimDots_def)
qed

lemma ancestry_cong:
  "(\<And>j. j \<le> i \<Longrightarrow> rParent (rs' ! j) = rParent (rs ! j)) \<Longrightarrow> ancestry rs' i = ancestry rs i \<and> set (ancestry rs i) \<subseteq> {..i}"
proof (induction i rule: less_induct)
  case (less i)
  show ?case
  proof (cases "rParent (rs ! i)")
    case None
    with less.prems [of i] show ?thesis by (simp add: ancestry.simps [of _ i])
  next
    case (Some p)
    with less.prems [of i] less.IH [of p] less.prems show ?thesis
      by (cases "p < i") (force simp: ancestry.simps [of _ i])+
  qed
qed

lemma fullPrefix_cong:
  assumes "\<And>j. j \<le> i \<Longrightarrow> rParent (rs' ! j) = rParent (rs ! j) \<and> rPrefix (rs' ! j) = rPrefix (rs ! j)"
  shows "fullPrefix rs' i = fullPrefix rs i"
proof -
  have "ancestry rs' i = ancestry rs i" "set (ancestry rs i) \<subseteq> {..i}"
    using assms ancestry_cong [of i rs' rs] by auto
  moreover from this have "map (\<lambda>j. rPrefix (rs' ! j)) (ancestry rs i) = map (\<lambda>j. rPrefix (rs ! j)) (ancestry rs i)"
    using assms by auto
  ultimately show ?thesis
    by (simp only: fullPrefix_def)
qed

text \<open>C39: Only the root remembers that it was compiled. After \<open>Compile\<close>, registering a fresh route on a
  group still succeeds, although the documentation promises \<open>ErrRouterCompiled\<close>, and the route is
  never found: the handler is accepted and silently lost.\<close>

theorem late_group_route_lost:
  assumes "built rs" "0 < i" "i < length rs" "joinPattern (fullPrefix rs i) pattern \<noteq> ''''"
    "joinPattern (fullPrefix rs i) pattern \<notin> set (rRegistered (rs ! 0))"
  shows "\<exists>rs'. On (Compile rs 0) i pattern (Some h) = Inr rs'
    \<and> Emit rs' 0 (joinPattern (fullPrefix rs i) pattern) = Inl ErrRouteNotFound"
proof -
  let ?c = "Compile rs 0" and ?q = "joinPattern (fullPrefix rs i) pattern"
  have inv: "routersInv rs" and len: "0 < length rs"
    using built_inv [OF assms(1)] assms(3) by linarith+
  note c = Compile_eq [OF inv len] and tree = Compile_tree [OF inv len]
  have same: "j < length rs \<Longrightarrow> rParent (?c ! j) = rParent (rs ! j) \<and> rPrefix (?c ! j) = rPrefix (rs ! j)" for j
    using len by (simp add: c nth_list_update)
  then have prefix: "fullPrefix ?c i = fullPrefix rs i"
    using assms(3) by (intro fullPrefix_cong) simp
  define r where "r = (?c ! 0)\<lparr>rRegistered := rRegistered (?c ! 0) @ [?q]\<rparr>"
  define rs' where "rs' = ?c[0 := r, i := (?c ! i)\<lparr>rEndpoints := rEndpoints (?c ! i) @ [\<lparr>epPattern = ?q, epFn = h\<rparr>]\<rparr>]"
  have "\<not> rIsCompiled (?c ! i)" "rRegistered (?c ! 0) = rRegistered (rs ! 0)"
    using inv assms(2,3) len by (simp_all add: c routersInv_def routeInv_def)
  then have on: "On ?c i pattern (Some h) = Inr rs'"
    using assms(2-5) prefix tree by (simp add: On_def Let_def root_0 rs'_def r_def)
  have "rs' ! 0 = r" "0 < length rs'"
    using len tree(2) assms(2) by (simp_all add: rs'_def)
  moreover have "rParent r = None" "rIsCompiled r" "rCompiled r ?q = None"
    using same [of 0] len inv treeInv_root [of rs] compiled_unregistered [OF inv assms(5)]
    by (simp_all add: r_def c routersInv_def)
  ultimately have "Emit rs' 0 ?q = Inl ErrRouteNotFound"
    by (simp add: Emit_def Let_def root_def ancestry.simps [of _ 0])
  with on show ?thesis by blast
qed

theorem late_group_route_lost_witness:
  "\<exists>rs'. On (Compile [(newNode '''' None)\<lparr>rGroups := [1]\<rparr>, newNode ''.control'' (Some 0)] 0) 1 ''get'' (Some (3 :: nat)) = Inr rs'
    \<and> Emit rs' 0 ''control.get'' = Inl ErrRouteNotFound"
proof -
  let ?rs = "[(newNode '''' None)\<lparr>rGroups := [1]\<rparr>, newNode ''.control'' (Some 0)] :: nat routers"
  have "built ?rs"
    using sample_group by (intro built_group [OF built_new, of 0 "[''.control'']"]) (simp_all add: NewRouter_def)
  moreover have prefix: "fullPrefix ?rs 1 = ''.control''"
    by (simp add: fullPrefix_def ancestry.simps [of _ "Suc 0"] ancestry.simps [of _ 0] newNode_def)
  moreover have "joinPattern ''.control'' ''get'' = ''control.get''"
    by (simp add: joinPattern_def trimDots_def)
  ultimately show ?thesis
    using late_group_route_lost [of ?rs 1 "''get''" 3] by (simp add: newNode_def)
qed

end
