(* ===== verification/Etp_Config.thy ===== *)
theory Etp_Config
  imports Etp_Messages Etp_Writer
begin

text \<open>
  Session configuration, \<open>internal/etp/session.go\<close>: the configuration records, the defaults and
  \<open>normalizeSessionConfig\<close>, which \<open>App.New\<close> and \<open>NewSessionWithConfig\<close> both apply. Durations are counted
  in nanoseconds. Callbacks and stores that the configuration only carries along are not part of the
  records. The lemmas show which invariants a normalized configuration has, and where
  normalization falls short of what its guards intend.
\<close>

section \<open>Configuration records\<close>

definition RoleClient :: string where "RoleClient = ''client''"
definition RoleServer :: string where "RoleServer = ''server''"

abbreviation Millisecond :: int where "Millisecond \<equiv> 1000000"
abbreviation Second :: int where "Second \<equiv> 1000000000"

definition maxHeartbeatWire :: int where "maxHeartbeatWire = (2 ^ 32 - 1) * Millisecond"

record FlowControlConfig =
  fcMaxConcurrentTransfers :: int
  fcMaxInFlightChunks :: int
  fcMaxInFlightBytes :: u64
  fcMaxSendBufferBytes :: u64
  fcMaxReceiveBufferBytes :: u64
  fcAckTimeout :: int
  fcRetryLimit :: int
  fcMaxTransferBytes :: u64
  fcMaxChunkSize :: int
  fcMaxCompletedTransfers :: int
  fcCompletedTransferTTL :: int
  fcTransferOpenTimeout :: int
  fcTransferCommitTimeout :: int

record HeartbeatConfig =
  hbInterval :: int
  hbTimeout :: int

record AuthConfig =
  acRequired :: bool
  acTimeout :: int
  acMaxPayloadBytes :: u32

record RateLimitConfig =
  rlMaxFramesPerSecond :: int
  rlMaxBytesPerSecond :: u64

record PayloadLimitConfig =
  plMaxFrameBytes :: u32
  plPreHandshakeBytes :: u32
  plMaxTextBytes :: u32
  plMaxRequestBytes :: u32
  plMaxResponseBytes :: u32
  plMaxInlineBodyBytes :: u32

record HandlerConfig =
  hcWorkers :: int
  hcQueue :: int

record SessionConfig =
  scRole :: string
  scCapabilities :: u64
  scFlowControl :: FlowControlConfig
  scHeartbeat :: HeartbeatConfig
  scAuth :: AuthConfig
  scRateLimit :: RateLimitConfig
  scSchedulerEnabled :: bool
  scPayload :: PayloadLimitConfig
  scSendQueue :: SendQueueConfig
  scHandlers :: HandlerConfig
  scCloseAckTimeout :: int

section \<open>Defaults\<close>

definition DefaultSessionConfig :: "string \<Rightarrow> SessionConfig" where
  "DefaultSessionConfig role =
     \<lparr>scRole = (if role \<noteq> RoleServer \<and> role \<noteq> RoleClient then RoleClient else role),
      scCapabilities = DefaultCapabilities,
      scFlowControl = \<lparr>
        fcMaxConcurrentTransfers = 8, fcMaxInFlightChunks = 16,
        fcMaxInFlightBytes = push_bit 20 8, fcMaxSendBufferBytes = push_bit 20 16,
        fcMaxReceiveBufferBytes = push_bit 20 32, fcAckTimeout = 3 * Second, fcRetryLimit = 3,
        fcMaxTransferBytes = push_bit 20 512, fcMaxChunkSize = 64 * 1024,
        fcMaxCompletedTransfers = 1024, fcCompletedTransferTTL = 60 * Second,
        fcTransferOpenTimeout = 5 * Second, fcTransferCommitTimeout = 30 * Second\<rparr>,
      scHeartbeat = \<lparr>hbInterval = 10 * Second, hbTimeout = 20 * Second\<rparr>,
      scAuth = \<lparr>acRequired = False, acTimeout = 5 * Second, acMaxPayloadBytes = push_bit 10 16\<rparr>,
      scRateLimit = \<lparr>rlMaxFramesPerSecond = 4096, rlMaxBytesPerSecond = push_bit 20 64\<rparr>,
      scSchedulerEnabled = True,
      scPayload = \<lparr>plMaxFrameBytes = of_nat MaxFrameBytes, plPreHandshakeBytes = push_bit 10 64,
        plMaxTextBytes = push_bit 20 1, plMaxRequestBytes = push_bit 20 1,
        plMaxResponseBytes = push_bit 20 1, plMaxInlineBodyBytes = push_bit 10 64\<rparr>,
      scSendQueue = \<lparr>sqEnabled = True, sqMaxFrames = 4096, sqMaxBytes = push_bit 20 16,
        sqEnqueueTimeout = 2 * Second, sqWriteTimeout = 5 * Second\<rparr>,
      scHandlers = \<lparr>hcWorkers = 1, hcQueue = 64\<rparr>,
      scCloseAckTimeout = 2 * Second\<rparr>"

definition DefaultClientConfig :: SessionConfig where
  "DefaultClientConfig = DefaultSessionConfig RoleClient"

definition DefaultServerConfig :: SessionConfig where
  "DefaultServerConfig = DefaultSessionConfig RoleServer"

section \<open>Normalization\<close>

text \<open>\<open>if x <= 0 { x = d }\<close> and \<open>if x == 0 { x = d }\<close>.\<close>

definition orDefault :: "int \<Rightarrow> int \<Rightarrow> int" where
  "orDefault x d = (if x \<le> 0 then d else x)"

definition orDefaultW :: "'a::len word \<Rightarrow> 'a word \<Rightarrow> 'a word" where
  "orDefaultW x d = (if x = 0 then d else x)"

text \<open>\<open>if max := limit; max > 0 && uint64(chunk) > max { chunk = int(max) }\<close>\<close>

definition capChunk :: "u64 \<Rightarrow> int \<Rightarrow> int" where
  "capChunk limit chunk = (if limit > 0 \<and> word_of_int chunk > limit then uint limit else chunk)"

text \<open>The statements of \<open>normalizeSessionConfig\<close> in their order, grouped by the part they set. The chunk
  size is limited by the normalized frame size and buffer sizes, so that group comes after them.\<close>

definition normalizeFlow :: "FlowControlConfig \<Rightarrow> FlowControlConfig \<Rightarrow> FlowControlConfig" where
  "normalizeFlow d c =
     \<lparr>fcMaxConcurrentTransfers = orDefault (fcMaxConcurrentTransfers c) (fcMaxConcurrentTransfers d),
      fcMaxInFlightChunks = orDefault (fcMaxInFlightChunks c) (fcMaxInFlightChunks d),
      fcMaxInFlightBytes = orDefaultW (fcMaxInFlightBytes c) (fcMaxInFlightBytes d),
      fcMaxSendBufferBytes = orDefaultW (fcMaxSendBufferBytes c) (fcMaxSendBufferBytes d),
      fcMaxReceiveBufferBytes = orDefaultW (fcMaxReceiveBufferBytes c) (fcMaxReceiveBufferBytes d),
      fcAckTimeout = orDefault (fcAckTimeout c) (fcAckTimeout d),
      fcRetryLimit = orDefault (fcRetryLimit c) (fcRetryLimit d),
      fcMaxTransferBytes = orDefaultW (fcMaxTransferBytes c) (fcMaxTransferBytes d),
      fcMaxChunkSize = orDefault (fcMaxChunkSize c) (fcMaxChunkSize d),
      fcMaxCompletedTransfers = orDefault (fcMaxCompletedTransfers c) (fcMaxCompletedTransfers d),
      fcCompletedTransferTTL = orDefault (fcCompletedTransferTTL c) (fcCompletedTransferTTL d),
      fcTransferOpenTimeout = orDefault (fcTransferOpenTimeout c) (fcTransferOpenTimeout d),
      fcTransferCommitTimeout = orDefault (fcTransferCommitTimeout c) (fcTransferCommitTimeout d)\<rparr>"

definition normalizeHeartbeat :: "HeartbeatConfig \<Rightarrow> HeartbeatConfig \<Rightarrow> HeartbeatConfig" where
  "normalizeHeartbeat d c =
     (let interval = orDefault (hbInterval c) (hbInterval d);
          interval = (if interval < Millisecond then Millisecond else interval);
          interval = (if interval > maxHeartbeatWire then maxHeartbeatWire else interval);
          timeout = orDefault (hbTimeout c) (hbTimeout d);
          timeout = (if timeout \<le> interval then interval * 2 else timeout)
      in \<lparr>hbInterval = interval, hbTimeout = timeout\<rparr>)"

definition normalizeFrameLimits :: "PayloadLimitConfig \<Rightarrow> PayloadLimitConfig \<Rightarrow> PayloadLimitConfig" where
  "normalizeFrameLimits d c =
     (let maxText = orDefaultW (plMaxTextBytes c) (plMaxTextBytes d);
          maxFrame = (if plMaxFrameBytes c < of_nat HeaderSize \<or> plMaxFrameBytes c > of_nat MaxFrameBytes
                      then plMaxFrameBytes d else plMaxFrameBytes c);
          pre = (if plPreHandshakeBytes c < of_nat HeaderSize \<or> plPreHandshakeBytes c > maxFrame
                 then plPreHandshakeBytes d else plPreHandshakeBytes c)
      in c\<lparr>plMaxTextBytes := maxText, plMaxFrameBytes := maxFrame, plPreHandshakeBytes := pre\<rparr>)"

definition normalizeChunk :: "PayloadLimitConfig \<Rightarrow> FlowControlConfig \<Rightarrow> FlowControlConfig" where
  "normalizeChunk p f =
     (let maxChunkForFrame = uint (plMaxFrameBytes p) - int HeaderSize;
          chunk = (if fcMaxChunkSize f > maxChunkForFrame then maxChunkForFrame else fcMaxChunkSize f);
          chunk = capChunk (fcMaxInFlightBytes f) chunk;
          chunk = capChunk (fcMaxSendBufferBytes f) chunk;
          chunk = capChunk (fcMaxReceiveBufferBytes f) chunk;
          chunk = (if chunk \<le> 0 then 1 else chunk)
      in f\<lparr>fcMaxChunkSize := chunk\<rparr>)"

definition normalizeInline :: "PayloadLimitConfig \<Rightarrow> PayloadLimitConfig \<Rightarrow> PayloadLimitConfig" where
  "normalizeInline d p =
     (let maxRequest = orDefaultW (plMaxRequestBytes p) (plMaxRequestBytes d);
          maxResponse = orDefaultW (plMaxResponseBytes p) (plMaxResponseBytes d);
          inline = orDefaultW (plMaxInlineBodyBytes p) (plMaxInlineBodyBytes d);
          maxInline = maxRequest;
          maxInline = (if maxResponse < maxInline then maxResponse else maxInline);
          framePayload = plMaxFrameBytes p - of_nat HeaderSize;
          maxInline = (if framePayload < maxInline then framePayload else maxInline)
      in p\<lparr>plMaxRequestBytes := maxRequest, plMaxResponseBytes := maxResponse,
           plMaxInlineBodyBytes := (if inline > maxInline then maxInline else inline)\<rparr>)"

definition normalizeSendQueue :: "SendQueueConfig \<Rightarrow> SendQueueConfig \<Rightarrow> SendQueueConfig" where
  "normalizeSendQueue d c =
     \<lparr>sqEnabled = (if \<not> sqEnabled c \<and> sqMaxFrames c = 0 \<and> sqMaxBytes c = 0 \<and> sqEnqueueTimeout c = 0
                    \<and> sqWriteTimeout c = 0 then sqEnabled d else sqEnabled c),
      sqMaxFrames = (if sqMaxFrames c = 0 then sqMaxFrames d else sqMaxFrames c),
      sqMaxBytes = orDefaultW (sqMaxBytes c) (sqMaxBytes d),
      sqEnqueueTimeout = orDefault (sqEnqueueTimeout c) (sqEnqueueTimeout d),
      sqWriteTimeout = orDefault (sqWriteTimeout c) (sqWriteTimeout d)\<rparr>"

definition normalizeSessionConfig :: "SessionConfig \<Rightarrow> SessionConfig" where
  "normalizeSessionConfig c =
     (let d = DefaultSessionConfig (scRole c);
          caps = orDefaultW (scCapabilities c) (scCapabilities d) AND AllCapabilities;
          flow = normalizeFlow (scFlowControl d) (scFlowControl c);
          heartbeat = normalizeHeartbeat (scHeartbeat d) (scHeartbeat c);
          auth = (scAuth c)\<lparr>acTimeout := orDefault (acTimeout (scAuth c)) (acTimeout (scAuth d)),
            acMaxPayloadBytes := orDefaultW (acMaxPayloadBytes (scAuth c)) (acMaxPayloadBytes (scAuth d))\<rparr>;
          rate = \<lparr>rlMaxFramesPerSecond = orDefault (rlMaxFramesPerSecond (scRateLimit c)) (rlMaxFramesPerSecond (scRateLimit d)),
            rlMaxBytesPerSecond = orDefaultW (rlMaxBytesPerSecond (scRateLimit c)) (rlMaxBytesPerSecond (scRateLimit d))\<rparr>;
          payload = normalizeFrameLimits (scPayload d) (scPayload c);
          flow = normalizeChunk payload flow;
          payload = normalizeInline (scPayload d) payload;
          queue = normalizeSendQueue (scSendQueue d) (scSendQueue c);
          handlers = \<lparr>hcWorkers = orDefault (hcWorkers (scHandlers c)) (hcWorkers (scHandlers d)),
            hcQueue = orDefault (hcQueue (scHandlers c)) (hcQueue (scHandlers d))\<rparr>
      in c\<lparr>scRole := scRole d, scCapabilities := caps, scFlowControl := flow, scHeartbeat := heartbeat,
           scAuth := auth, scRateLimit := rate, scPayload := payload, scSendQueue := queue,
           scHandlers := handlers,
           scCloseAckTimeout := orDefault (scCloseAckTimeout c) (scCloseAckTimeout d)\<rparr>)"

definition NormalizeSessionConfig :: "SessionConfig \<Rightarrow> SessionConfig" where
  "NormalizeSessionConfig c = normalizeSessionConfig c"

section \<open>What normalization guarantees\<close>

definition flowOk :: "FlowControlConfig \<Rightarrow> bool" where
  "flowOk f \<longleftrightarrow> 0 < fcMaxConcurrentTransfers f \<and> 0 < fcMaxInFlightChunks f \<and> 0 < fcMaxInFlightBytes f
     \<and> 0 < fcMaxSendBufferBytes f \<and> 0 < fcMaxReceiveBufferBytes f \<and> 0 < fcAckTimeout f \<and> 0 < fcRetryLimit f
     \<and> 0 < fcMaxTransferBytes f \<and> 0 < fcMaxChunkSize f \<and> 0 < fcMaxCompletedTransfers f
     \<and> 0 < fcCompletedTransferTTL f \<and> 0 < fcTransferOpenTimeout f \<and> 0 < fcTransferCommitTimeout f
     \<and> fcMaxChunkSize f \<le> uint (fcMaxInFlightBytes f) \<and> fcMaxChunkSize f \<le> uint (fcMaxSendBufferBytes f)
     \<and> fcMaxChunkSize f \<le> uint (fcMaxReceiveBufferBytes f)"

lemma orDefault_pos: "0 < d \<Longrightarrow> 0 < orDefault x d"
  by (simp add: orDefault_def)

lemma orDefaultW_pos: "0 < d \<Longrightarrow> 0 < orDefaultW x d"
  by (simp add: orDefaultW_def word_gt_0)

lemma orDefault_idem [simp]: "orDefault (orDefault x d) d = orDefault x d"
  by (simp add: orDefault_def)

lemma orDefaultW_idem [simp]: "orDefaultW (orDefaultW x d) d = orDefaultW x d"
  by (simp add: orDefaultW_def)

lemma capChunk_min:
  assumes "0 \<le> c" "c < 2 ^ 63"
  shows "capChunk limit c = (if limit = 0 then c else min c (uint limit))"
proof -
  have "uint (word_of_int c :: u64) = c"
    using assms by (simp add: uint_word_of_int)
  then show ?thesis
    using word_gt_0 [of limit] by (auto simp: capChunk_def word_less_def)
qed

lemma uint_pos: "0 < (w :: 'a::len word) \<Longrightarrow> 1 \<le> uint w"
  by (simp add: word_less_def)

lemma normalizeChunk_eq:
  assumes "0 < fcMaxChunkSize f" "40 \<le> uint (plMaxFrameBytes p)" "uint (plMaxFrameBytes p) \<le> 8388608"
    "0 < fcMaxInFlightBytes f" "0 < fcMaxSendBufferBytes f" "0 < fcMaxReceiveBufferBytes f"
  shows "fcMaxChunkSize (normalizeChunk p f) =
    max 1 (min (min (min (min (fcMaxChunkSize f) (uint (plMaxFrameBytes p) - 40))
      (uint (fcMaxInFlightBytes f))) (uint (fcMaxSendBufferBytes f))) (uint (fcMaxReceiveBufferBytes f)))"
proof -
  define c0 where "c0 = min (fcMaxChunkSize f) (uint (plMaxFrameBytes p) - 40)"
  have c0: "0 \<le> c0" "c0 < 2 ^ 63"
    using assms(1-3) by (auto simp: c0_def min_def)
  have nz: "fcMaxInFlightBytes f \<noteq> 0" "fcMaxSendBufferBytes f \<noteq> 0" "fcMaxReceiveBufferBytes f \<noteq> 0"
    using assms(4-6) by auto
  have "fcMaxChunkSize (normalizeChunk p f) = max 1 (capChunk (fcMaxReceiveBufferBytes f)
      (capChunk (fcMaxSendBufferBytes f) (capChunk (fcMaxInFlightBytes f) c0)))"
    by (auto simp: normalizeChunk_def c0_def Let_def min_def)
  also have "\<dots> = max 1 (min (min (min c0 (uint (fcMaxInFlightBytes f))) (uint (fcMaxSendBufferBytes f)))
      (uint (fcMaxReceiveBufferBytes f)))"
    using c0 nz by (simp add: capChunk_min min_def)
  finally show ?thesis
    by (simp only: c0_def)
qed

lemma normalizeChunk_bounds:
  assumes "0 < fcMaxChunkSize f" "40 \<le> uint (plMaxFrameBytes p)" "uint (plMaxFrameBytes p) \<le> 8388608"
    "0 < fcMaxInFlightBytes f" "0 < fcMaxSendBufferBytes f" "0 < fcMaxReceiveBufferBytes f"
  shows "0 < fcMaxChunkSize (normalizeChunk p f)"
    "fcMaxChunkSize (normalizeChunk p f) \<le> uint (fcMaxInFlightBytes f)"
    "fcMaxChunkSize (normalizeChunk p f) \<le> uint (fcMaxSendBufferBytes f)"
    "fcMaxChunkSize (normalizeChunk p f) \<le> uint (fcMaxReceiveBufferBytes f)"
  unfolding normalizeChunk_eq [OF assms]
  using assms(4-6) [THEN uint_pos] by (simp_all only: max.bounded_iff min_le_iff_disj) simp_all

lemma normalizeFlow_pos:
  "f = normalizeFlow (scFlowControl (DefaultSessionConfig r)) c \<Longrightarrow>
   0 < fcMaxConcurrentTransfers f \<and> 0 < fcMaxInFlightChunks f \<and> 0 < fcMaxInFlightBytes f
     \<and> 0 < fcMaxSendBufferBytes f \<and> 0 < fcMaxReceiveBufferBytes f \<and> 0 < fcAckTimeout f \<and> 0 < fcRetryLimit f
     \<and> 0 < fcMaxTransferBytes f \<and> 0 < fcMaxChunkSize f \<and> 0 < fcMaxCompletedTransfers f
     \<and> 0 < fcCompletedTransferTTL f \<and> 0 < fcTransferOpenTimeout f \<and> 0 < fcTransferCommitTimeout f"
  by (simp add: normalizeFlow_def DefaultSessionConfig_def orDefault_pos orDefaultW_pos)

lemma normalizeFrameLimits_range:
  "p = normalizeFrameLimits (scPayload (DefaultSessionConfig r)) c \<Longrightarrow>
   40 \<le> uint (plMaxFrameBytes p) \<and> uint (plMaxFrameBytes p) \<le> 8388608"
  by (auto simp: normalizeFrameLimits_def DefaultSessionConfig_def Let_def word_less_def not_less)

lemma normalizeChunk_rest [simp]:
  "fcMaxConcurrentTransfers (normalizeChunk p f) = fcMaxConcurrentTransfers f"
  "fcMaxInFlightChunks (normalizeChunk p f) = fcMaxInFlightChunks f"
  "fcMaxInFlightBytes (normalizeChunk p f) = fcMaxInFlightBytes f"
  "fcMaxSendBufferBytes (normalizeChunk p f) = fcMaxSendBufferBytes f"
  "fcMaxReceiveBufferBytes (normalizeChunk p f) = fcMaxReceiveBufferBytes f"
  "fcAckTimeout (normalizeChunk p f) = fcAckTimeout f" "fcRetryLimit (normalizeChunk p f) = fcRetryLimit f"
  "fcMaxTransferBytes (normalizeChunk p f) = fcMaxTransferBytes f"
  "fcMaxCompletedTransfers (normalizeChunk p f) = fcMaxCompletedTransfers f"
  "fcCompletedTransferTTL (normalizeChunk p f) = fcCompletedTransferTTL f"
  "fcTransferOpenTimeout (normalizeChunk p f) = fcTransferOpenTimeout f"
  "fcTransferCommitTimeout (normalizeChunk p f) = fcTransferCommitTimeout f"
  by (simp_all add: normalizeChunk_def Let_def)

lemma normalize_flow:
  defines "d r \<equiv> DefaultSessionConfig r"
  shows "scFlowControl (normalizeSessionConfig c) =
    normalizeChunk (normalizeFrameLimits (scPayload (d (scRole c))) (scPayload c))
      (normalizeFlow (scFlowControl (d (scRole c))) (scFlowControl c))"
    "scPayload (normalizeSessionConfig c) =
      normalizeInline (scPayload (d (scRole c))) (normalizeFrameLimits (scPayload (d (scRole c))) (scPayload c))"
    "scHeartbeat (normalizeSessionConfig c) = normalizeHeartbeat (scHeartbeat (d (scRole c))) (scHeartbeat c)"
    "scSendQueue (normalizeSessionConfig c) = normalizeSendQueue (scSendQueue (d (scRole c))) (scSendQueue c)"
    "scRole (normalizeSessionConfig c) = scRole (d (scRole c))"
    "scCapabilities (normalizeSessionConfig c) =
      orDefaultW (scCapabilities c) (scCapabilities (d (scRole c))) AND AllCapabilities"
  by (simp_all add: normalizeSessionConfig_def d_def Let_def)

lemma normalizeInline_frame [simp]:
  "plMaxFrameBytes (normalizeInline d p) = plMaxFrameBytes p"
  "plPreHandshakeBytes (normalizeInline d p) = plPreHandshakeBytes p"
  "plMaxTextBytes (normalizeInline d p) = plMaxTextBytes p"
  by (simp_all add: normalizeInline_def Let_def)

lemma normalizeInline_le:
  "plMaxInlineBodyBytes (normalizeInline d p) \<le> plMaxRequestBytes (normalizeInline d p)"
  "plMaxInlineBodyBytes (normalizeInline d p) \<le> plMaxResponseBytes (normalizeInline d p)"
  "plMaxInlineBodyBytes (normalizeInline d p) \<le> plMaxFrameBytes p - of_nat HeaderSize"
  unfolding normalizeInline_def Let_def by (simp_all only: PayloadLimitConfig.simps split: if_split) (auto simp: not_less)

lemma uint_range_unat:
  assumes "40 \<le> uint (m :: u32)" "uint m \<le> 8388608"
  shows "40 \<le> unat m \<and> unat m \<le> 8388608"
proof -
  have "(40 :: u32) \<le> m" "m \<le> 8388608"
    using assms by (simp_all add: word_le_def)
  then show ?thesis
    by (simp add: word_le_nat_alt)
qed

lemma inline_fits:
  assumes "40 \<le> uint (m :: u32)" "(b :: u32) \<le> m - of_nat HeaderSize"
  shows "HeaderSize + unat b \<le> unat m"
proof -
  have "(40 :: u32) \<le> m" using assms(1) by (simp add: word_le_def)
  then have "unat (m - 40) = unat m - 40" "40 \<le> unat m"
    by (simp_all add: unat_sub word_le_nat_alt)
  with assms(2) show ?thesis
    by (simp add: word_le_nat_alt)
qed

section \<open>Properties\<close>


text \<open>A data chunk of the normalized size fits a frame of the normalized size, unless the caller set
  the frame limit to the bare header: then the chunk size is forced to 1 and no chunk fits.\<close>

theorem normalized_chunk_fits_frame:
  fixes c :: SessionConfig
  defines "n \<equiv> normalizeSessionConfig c"
  shows "int HeaderSize + fcMaxChunkSize (scFlowControl n) \<le> uint (plMaxFrameBytes (scPayload n))
    \<longleftrightarrow> plMaxFrameBytes (scPayload n) \<noteq> of_nat HeaderSize"
proof -
  define p where "p = normalizeFrameLimits (scPayload (DefaultSessionConfig (scRole c))) (scPayload c)"
  define f where "f = normalizeFlow (scFlowControl (DefaultSessionConfig (scRole c))) (scFlowControl c)"
  have p: "40 \<le> uint (plMaxFrameBytes p)" "uint (plMaxFrameBytes p) \<le> 8388608"
    using normalizeFrameLimits_range [OF p_def] by auto
  have f: "0 < fcMaxChunkSize f" "0 < fcMaxInFlightBytes f" "0 < fcMaxSendBufferBytes f" "0 < fcMaxReceiveBufferBytes f"
    using normalizeFlow_pos [OF f_def] by auto
  have chunk: "fcMaxChunkSize (normalizeChunk p f) \<le> max 1 (uint (plMaxFrameBytes p) - 40)"
    unfolding normalizeChunk_eq [OF f(1) p f(2-4)]
    using linear [of "uint (plMaxFrameBytes p)" 41]
    by (simp only: max.bounded_iff le_max_iff_disj min_le_iff_disj) auto
  have n: "fcMaxChunkSize (scFlowControl n) = fcMaxChunkSize (normalizeChunk p f)"
      "plMaxFrameBytes (scPayload n) = plMaxFrameBytes p"
    by (simp_all only: n_def normalize_flow(1,2) p_def f_def normalizeInline_frame)
  have "plMaxFrameBytes p = of_nat HeaderSize \<longleftrightarrow> uint (plMaxFrameBytes p) = 40"
    by (simp add: word_uint_eq_iff)
  then show ?thesis
    unfolding n using chunk p normalizeChunk_bounds(1) [OF f(1) p f(2-4)] by auto
qed

lemma normalizeHeartbeat_idem:
  "0 < hbInterval d \<Longrightarrow> 0 < hbTimeout d \<Longrightarrow> normalizeHeartbeat d (normalizeHeartbeat d c) = normalizeHeartbeat d c"
  by (auto simp: normalizeHeartbeat_def Let_def orDefault_def maxHeartbeatWire_def)

lemma normalizeSendQueue_idem:
  "0 < sqMaxBytes d \<Longrightarrow> normalizeSendQueue d (normalizeSendQueue d c) = normalizeSendQueue d c"
  by (auto simp: normalizeSendQueue_def orDefaultW_def orDefault_def)

lemma normalizeFlow_idem: "normalizeFlow d (normalizeFlow d c) = normalizeFlow d c"
  by (simp add: normalizeFlow_def)

lemma normalizeFrameLimits_idem: "normalizeFrameLimits d (normalizeInline d' (normalizeFrameLimits d c))
    = normalizeInline d' (normalizeFrameLimits d c)"
  by (auto simp: normalizeFrameLimits_def normalizeInline_def Let_def orDefaultW_def)

lemma default_role_idem: "DefaultSessionConfig (scRole (DefaultSessionConfig r)) = DefaultSessionConfig r"
  by (simp add: DefaultSessionConfig_def)

lemma inline_cap_idem:
  fixes d i m :: "'a::len word"
  assumes "0 < d"
  shows "(if orDefaultW (if orDefaultW i d > m then m else orDefaultW i d) d > m then m
      else orDefaultW (if orDefaultW i d > m then m else orDefaultW i d) d)
    = (if orDefaultW i d > m then m else orDefaultW i d)" (is "(if orDefaultW ?j d > m then m else _) = ?j")
proof (cases "?j = 0")
  case True
  have "orDefaultW i d \<noteq> 0"
    using orDefaultW_pos [OF assms, of i] by auto
  with True have "m = 0" by (auto split: if_splits)
  with assms show ?thesis by (auto simp: orDefaultW_def)
next
  case False
  then show ?thesis by (auto simp: orDefaultW_def)
qed

lemma normalizeInline_idem:
  assumes "0 < plMaxInlineBodyBytes d"
  shows "normalizeInline d (normalizeInline d p) = normalizeInline d p"
  by (simp add: normalizeInline_def Let_def inline_cap_idem [OF assms] del: not_less split del: if_split)

lemma normalizeFlow_chunk:
  assumes "f = normalizeFlow d c" "0 < k"
  shows "normalizeFlow d (f\<lparr>fcMaxChunkSize := k\<rparr>) = f\<lparr>fcMaxChunkSize := k\<rparr>"
  using assms(2) by (simp add: assms(1) normalizeFlow_def) (simp add: orDefault_def)

lemma normalizeChunk_update: "normalizeChunk p f = f\<lparr>fcMaxChunkSize := fcMaxChunkSize (normalizeChunk p f)\<rparr>"
  by (simp add: normalizeChunk_def Let_def)

lemma min_chain_absorb:
  fixes x m a b c :: int
  shows "1 \<le> a \<Longrightarrow> 1 \<le> b \<Longrightarrow> 1 \<le> c \<Longrightarrow>
    max 1 (min (min (min (min (max 1 (min (min (min (min x m) a) b) c)) m) a) b) c) = max 1 (min (min (min (min x m) a) b) c)"
  by (auto simp: min_def max_def)

lemma normalizeChunk_idem:
  assumes "0 < fcMaxChunkSize f" "40 \<le> uint (plMaxFrameBytes p)" "uint (plMaxFrameBytes p) \<le> 8388608"
    "0 < fcMaxInFlightBytes f" "0 < fcMaxSendBufferBytes f" "0 < fcMaxReceiveBufferBytes f"
    "plMaxFrameBytes p' = plMaxFrameBytes p"
  shows "normalizeChunk p' (normalizeChunk p f) = normalizeChunk p f"
proof -
  let ?g = "normalizeChunk p f"
  have lim: "1 \<le> uint (fcMaxInFlightBytes f)" "1 \<le> uint (fcMaxSendBufferBytes f)" "1 \<le> uint (fcMaxReceiveBufferBytes f)"
    using assms(4-6) by (simp_all only: uint_pos)
  have "fcMaxChunkSize (normalizeChunk p' ?g) =
      max 1 (min (min (min (min (fcMaxChunkSize ?g) (uint (plMaxFrameBytes p) - 40))
      (uint (fcMaxInFlightBytes f))) (uint (fcMaxSendBufferBytes f))) (uint (fcMaxReceiveBufferBytes f)))"
    using normalizeChunk_eq [of ?g p'] normalizeChunk_bounds(1) [OF assms(1-6)] assms(2-7)
    by (simp only: normalizeChunk_rest)
  then have "fcMaxChunkSize (normalizeChunk p' ?g) = fcMaxChunkSize ?g"
    unfolding normalizeChunk_eq [OF assms(1-6)] by (simp only: min_chain_absorb [OF lim])
  moreover have "normalizeChunk p' g = g" if "fcMaxChunkSize (normalizeChunk p' g) = fcMaxChunkSize g" for g
    by (subst normalizeChunk_update) (use that in \<open>cases g; simp\<close>)
  ultimately show ?thesis by blast
qed

text \<open>Normalizing twice, as \<open>App.New\<close> followed by \<open>NewSessionWithConfig\<close> does, changes nothing but
  possibly the capabilities.\<close>

theorem normalize_idempotent_but_capabilities:
  "(normalizeSessionConfig (normalizeSessionConfig c))\<lparr>scCapabilities := k\<rparr> = (normalizeSessionConfig c)\<lparr>scCapabilities := k\<rparr>"
proof -
  define d where "d = DefaultSessionConfig (scRole c)"
  define p where "p = normalizeFrameLimits (scPayload d) (scPayload c)"
  define f where "f = normalizeFlow (scFlowControl d) (scFlowControl c)"
  have d: "DefaultSessionConfig (scRole (normalizeSessionConfig c)) = d"
    by (simp add: d_def normalize_flow default_role_idem)
  have p: "40 \<le> uint (plMaxFrameBytes p)" "uint (plMaxFrameBytes p) \<le> 8388608"
    using normalizeFrameLimits_range [of p "scRole c" "scPayload c"] by (auto simp: p_def d_def)
  have f: "0 < fcMaxChunkSize f" "0 < fcMaxInFlightBytes f" "0 < fcMaxSendBufferBytes f" "0 < fcMaxReceiveBufferBytes f"
    using normalizeFlow_pos [of f "scRole c" "scFlowControl c"] by (auto simp: f_def d_def)
  have "normalizeInline (scPayload d) (normalizeFrameLimits (scPayload d) (normalizeInline (scPayload d) p)) = normalizeInline (scPayload d) p"
    unfolding p_def normalizeFrameLimits_idem
    by (rule normalizeInline_idem) (simp add: d_def DefaultSessionConfig_def)
  moreover have "normalizeChunk (normalizeFrameLimits (scPayload d) (normalizeInline (scPayload d) p))
      (normalizeFlow (scFlowControl d) (normalizeChunk p f)) = normalizeChunk p f"
  proof -
    have "normalizeFlow (scFlowControl d) (normalizeChunk p f) = normalizeChunk p f"
      using normalizeFlow_chunk [OF f_def normalizeChunk_bounds(1) [OF f(1) p f(2-4)]] normalizeChunk_update [of p f]
      by simp
    then show ?thesis
      using normalizeChunk_idem [OF f(1) p f(2-4)] by (simp add: p_def normalizeFrameLimits_idem)
  qed
  moreover have "normalizeHeartbeat (scHeartbeat d) (normalizeHeartbeat (scHeartbeat d) h) = normalizeHeartbeat (scHeartbeat d) h" for h
    by (rule normalizeHeartbeat_idem) (simp_all add: d_def DefaultSessionConfig_def)
  moreover have "normalizeSendQueue (scSendQueue d) (normalizeSendQueue (scSendQueue d) q) = normalizeSendQueue (scSendQueue d) q" for q
    by (rule normalizeSendQueue_idem) (simp add: d_def DefaultSessionConfig_def)
  ultimately show ?thesis
    using d by (intro SessionConfig.equality)
      (simp_all add: normalizeSessionConfig_def Let_def flip: d_def p_def f_def)
qed

lemma and_zero_default:
  fixes c d m :: "'a::len word"
  assumes "c \<noteq> 0" "c AND m = 0"
  shows "orDefaultW c d AND m = 0" "orDefaultW (orDefaultW c d AND m) d AND m = d AND m"
  using assms by (simp_all add: orDefaultW_def)

text \<open>The capabilities are the exception: when all bits the caller sets are unknown, the first
  normalization masks them to the empty set and the second takes that for ``not configured'' and
  offers all default capabilities.\<close>

theorem unknown_capabilities_become_default:
  assumes "scCapabilities c \<noteq> 0" "scCapabilities c AND AllCapabilities = 0"
  shows "scCapabilities (normalizeSessionConfig c) = 0
    \<and> scCapabilities (normalizeSessionConfig (normalizeSessionConfig c)) = DefaultCapabilities"
  using and_zero_default [OF assms, of DefaultCapabilities]
  by (simp add: normalize_flow DefaultSessionConfig_def) (simp add: DefaultCapabilities_def AllCapabilities_def)

theorem unknown_capabilities_become_default_witness:
  defines "c \<equiv> (DefaultSessionConfig RoleClient)\<lparr>scCapabilities := push_bit 40 1\<rparr>"
  shows "scCapabilities (normalizeSessionConfig c) = 0
    \<and> scCapabilities (normalizeSessionConfig (normalizeSessionConfig c)) = DefaultCapabilities"
  unfolding c_def by (rule unknown_capabilities_become_default) (simp_all add: AllCapabilities_def)

text \<open>The limit for frames before the handshake falls back to 64 KiB without a comparison with the
  frame limit: with a smaller frame limit and no explicit value it exceeds the frame limit.\<close>

theorem pre_handshake_default_exceeds_frame_limit:
  assumes "of_nat HeaderSize \<le> plMaxFrameBytes (scPayload c)" "plMaxFrameBytes (scPayload c) < push_bit 10 64"
    "plPreHandshakeBytes (scPayload c) = 0"
  shows "plMaxFrameBytes (scPayload (normalizeSessionConfig c)) < plPreHandshakeBytes (scPayload (normalizeSessionConfig c))"
proof -
  have "plMaxFrameBytes (scPayload c) \<le> of_nat MaxFrameBytes"
    using assms(2) by (simp add: word_less_nat_alt word_le_nat_alt)
  then show ?thesis
    using assms by (simp add: normalize_flow normalizeFrameLimits_def Let_def DefaultSessionConfig_def not_less)
qed

theorem pre_handshake_default_exceeds_frame_limit_witness:
  defines "c \<equiv> DefaultServerConfig\<lparr>scPayload := (scPayload DefaultServerConfig)\<lparr>plMaxFrameBytes := 4096, plPreHandshakeBytes := 0\<rparr>\<rparr>"
  shows "plMaxFrameBytes (scPayload (normalizeSessionConfig c)) < plPreHandshakeBytes (scPayload (normalizeSessionConfig c))"
  unfolding c_def
  by (rule pre_handshake_default_exceeds_frame_limit) (simp_all add: DefaultServerConfig_def DefaultSessionConfig_def)

end
