(* ===== verification/Etp_State.thy ===== *)
theory Etp_State
  imports Etp_Config Etp_TransferMeta Etp_Scheduler
begin

text \<open>
  The session state and its sending half: \<open>internal/etp/state.go\<close>, the structs of \<open>session.go\<close> and
  \<open>incoming.go\<close>, and the operations that build a frame and hand it to the writer. An operation maps a
  session to the error it returns (\<open>None\<close> for nil) and the session after it. Frames handed over,
  events reported and calls of application code are appended to logs of the record, so that the
  lemmas can speak about them. The outcome of handing over the \<open>n\<close>-th frame depends on the writing
  goroutine and the peer; it is a parameter, as is what application handlers return. Buffer pools,
  reference counts and mutexes do not appear.
\<close>

section \<open>States and events\<close>

datatype SessionState =
    SessionNew | SessionAuthPending | SessionAuthAccepted | SessionAuthRejected | SessionHelloSent
  | SessionEstablished | SessionDraining | SessionClosing | SessionClosed | SessionFailed

fun sessionStateCode :: "SessionState \<Rightarrow> u8" where
  "sessionStateCode SessionNew = 0"
| "sessionStateCode SessionAuthPending = 1"
| "sessionStateCode SessionAuthAccepted = 2"
| "sessionStateCode SessionAuthRejected = 3"
| "sessionStateCode SessionHelloSent = 4"
| "sessionStateCode SessionEstablished = 5"
| "sessionStateCode SessionDraining = 6"
| "sessionStateCode SessionClosing = 7"
| "sessionStateCode SessionClosed = 8"
| "sessionStateCode SessionFailed = 9"

definition SessionState_String :: "u8 \<Rightarrow> string" where
  "SessionState_String s =
     (if s = sessionStateCode SessionNew then ''NEW''
      else if s = sessionStateCode SessionAuthPending then ''AUTH_PENDING''
      else if s = sessionStateCode SessionAuthAccepted then ''AUTH_ACCEPTED''
      else if s = sessionStateCode SessionAuthRejected then ''AUTH_REJECTED''
      else if s = sessionStateCode SessionHelloSent then ''HELLO_SENT''
      else if s = sessionStateCode SessionEstablished then ''ESTABLISHED''
      else if s = sessionStateCode SessionDraining then ''DRAINING''
      else if s = sessionStateCode SessionClosing then ''CLOSING''
      else if s = sessionStateCode SessionClosed then ''CLOSED''
      else if s = sessionStateCode SessionFailed then ''FAILED''
      else ''UNKNOWN'')"

datatype TransferState =
    TransferInit | TransferSending | TransferCanceling | TransferCanceled | TransferCompleted
  | TransferFailed | TransferAcked

fun transferStateCode :: "TransferState \<Rightarrow> u8" where
  "transferStateCode TransferInit = 0"
| "transferStateCode TransferSending = 1"
| "transferStateCode TransferCanceling = 2"
| "transferStateCode TransferCanceled = 3"
| "transferStateCode TransferCompleted = 4"
| "transferStateCode TransferFailed = 5"
| "transferStateCode TransferAcked = 6"

definition TransferState_String :: "u8 \<Rightarrow> string" where
  "TransferState_String s =
     (if s = transferStateCode TransferInit then ''INIT''
      else if s = transferStateCode TransferSending then ''SENDING''
      else if s = transferStateCode TransferCanceling then ''CANCELING''
      else if s = transferStateCode TransferCanceled then ''CANCELED''
      else if s = transferStateCode TransferCompleted then ''COMPLETED''
      else if s = transferStateCode TransferFailed then ''FAILED''
      else if s = transferStateCode TransferAcked then ''ACKED''
      else ''UNKNOWN'')"

record ProtocolEvent =
  peCode :: u16
  peMessage :: string
  peFrameType :: u8
  peTransferID :: u64
  peChunkID :: u32

definition EventProtocolViolation :: u16 where [simp]: "EventProtocolViolation = 1"
definition EventSlowloris :: u16 where [simp]: "EventSlowloris = 2"
definition EventTransferFailed :: u16 where [simp]: "EventTransferFailed = 3"
definition EventTransferUnknown :: u16 where [simp]: "EventTransferUnknown = 4"
definition EventTransferCanceled :: u16 where [simp]: "EventTransferCanceled = 5"
definition EventWriteFailed :: u16 where [simp]: "EventWriteFailed = 6"
definition EventNackReceived :: u16 where [simp]: "EventNackReceived = 7"
definition EventAckTimeout :: u16 where [simp]: "EventAckTimeout = 8"
definition EventAuthAccepted :: u16 where [simp]: "EventAuthAccepted = 9"
definition EventAuthRejected :: u16 where [simp]: "EventAuthRejected = 10"
definition EventAuthTimeout :: u16 where [simp]: "EventAuthTimeout = 11"
definition EventAuthRequired :: u16 where [simp]: "EventAuthRequired = 12"
definition EventErrorReceived :: u16 where [simp]: "EventErrorReceived = 13"
definition EventGoAwayReceived :: u16 where [simp]: "EventGoAwayReceived = 14"
definition EventCloseAckReceived :: u16 where [simp]: "EventCloseAckReceived = 15"
definition EventHandlerFailed :: u16 where [simp]: "EventHandlerFailed = 16"
definition EventRateLimited :: u16 where [simp]: "EventRateLimited = 17"
definition EventChecksumMismatch :: u16 where [simp]: "EventChecksumMismatch = 18"

definition newEvent :: "u16 \<Rightarrow> string \<Rightarrow> ProtocolEvent" where
  "newEvent code message =
     \<lparr>peCode = code, peMessage = message, peFrameType = 0, peTransferID = 0, peChunkID = 0\<rparr>"

section \<open>Transfers\<close>

text \<open>A time is a number of nanoseconds; \<open>None\<close> is the zero time.\<close>

record Progress =
  pgTransferID :: u64
  pgTotalBytes :: u64
  pgLocalWrittenBytes :: u64
  pgRemoteAckedBytes :: u64
  pgSentChunks :: u32
  pgAckedChunks :: u32
  pgState :: TransferState

record sentChunk =
  skChunkID :: u32
  skFrame :: Frame
  skSentAt :: int
  skRetries :: int
  skAcked :: bool
  skPayloadN :: u64

record outgoingTransfer =
  otId :: u64
  otTotalBytes :: u64
  otChunkCount :: u32
  otChunkSize :: u32
  otAckTimeout :: int
  otRetryLimit :: int
  otMaxInFlight :: int
  otMaxInFlightBytes :: u64
  otPending :: "sentChunk list"
  otPendingBytes :: u64
  otRemoteWindowBytes :: u64
  otRemoteWindowChunks :: u32
  otHasRemoteWindow :: bool
  otAckedBytes :: u64
  otDoneSending :: bool
  otCompleted :: bool
  otEndFrame :: Frame
  otCommitSentAt :: "int option"
  otCommitRetries :: int
  otResumeDecided :: bool
  otResumeAccepted :: bool
  otResumeBytes :: u64
  otResumeChunk :: u32
  otFailed :: "go_error option"

text \<open>The hash state is the bytes hashed so far. \<open>incWriting\<close> is the chunk the transfer's goroutine has
  taken from the queue and not finished, \<open>incWritten\<close> what the application's writer has taken.\<close>

datatype writerEnd = WriterClosed | WriterAborted | WriterSuspended

record incomingTransfer =
  incMeta :: TransferBegin
  incReceivedBytes :: u64
  incAcceptedBytes :: u64
  incFirstChunk :: u32
  incLastChunk :: u32
  incNextChunk :: u32
  incAcceptedNextChunk :: u32
  incHash :: "bytes option"
  incQueue :: "Frame list"
  incQueueCap :: nat
  incFailed :: "go_error option"
  incAccepting :: bool
  incEnding :: bool
  incFlowBlocked :: bool
  incSuspendOnFailure :: bool
  incCanceled :: bool
  incDone :: bool
  incWriting :: "Frame option"
  incWritten :: bytes

record IncomingTransferInfo =
  iiTransferID :: u64
  iiRequestID :: u64
  iiMeta :: TransferBegin

record completedTransfer =
  ctState :: TransferStateMessage
  ctExpiresAt :: int

section \<open>The session\<close>

record rateLimitState =
  rlWindowStart :: "int option"
  rlFrames :: int
  rlBytes :: u64

record AuthAttribute =
  attrKey :: string
  attrValue :: string

record SessionIdentity =
  siUserID :: string
  siAttributes :: "AuthAttribute list"

record AuthResult =
  authOK :: bool
  authUserID :: string
  authAttributes :: "AuthAttribute list"
  authRejectCode :: u16
  authReason :: string

datatype authOutcome = AuthReturned AuthResult | AuthErred go_error | AuthTimedOut go_error

text \<open>Calls of application code, and jobs queued for the handler goroutines.\<close>

datatype appCall =
    TextCall Frame string
  | RequestCall Frame EventMessageView
  | ResponseCall Frame EventMessageView

text \<open>\<open>sDetached\<close> are transfers no longer in the map whose goroutine has not finished, \<open>sOpens\<close> the
  goroutines started to open a transfer, \<open>sPeerClose\<close> the goroutine that answers the peer's close (its
  message, whether it drains, whether this side was closing already), \<open>sWriterLog\<close> how the session finished with the writers.
  Go maps with the keys a session uses are association lists; the order in which Go iterates over
  them is not specified, and the model's order is one of the possible ones.\<close>

record Session =
  sConfig :: SessionConfig
  sHasTransport :: bool
  sHasWriter :: bool
  sWriterClosed :: bool
  sScheduler :: FrameScheduler
  sState :: SessionState
  sMonitorStopped :: bool
  sNextRequest :: u64
  sNextTransfer :: u64
  sRemoteCaps :: u64
  sRemoteFrame :: u32
  sRemoteHello :: "Hello option"
  sReceiveLimit :: u32
  sReceiveBytes :: u64
  sRunning :: bool
  sStarted :: bool
  sPeerCloseSeen :: bool
  sPeerClose :: "(CloseMessage \<times> bool \<times> bool) option"
  sIdentity :: SessionIdentity
  sRate :: rateLimitState
  sOutgoing :: "(u64 \<times> outgoingTransfer) list"
  sIncoming :: "(u64 \<times> incomingTransfer) list"
  sDetached :: "(u64 \<times> incomingTransfer) list"
  sOpening :: "u64 list"
  sOpens :: "IncomingTransferInfo list"
  sWriterLog :: "(u64 \<times> writerEnd) list"
  sCompleted :: "(u64 \<times> completedTransfer) list"
  sCompletedIDs :: "u64 list"
  sLastIncoming :: u64
  sCloseAck :: "CloseMessage list"
  sPeerCloseDone :: "go_error option list"
  sHandlerJobs :: "appCall list"
  sTransportClosed :: bool
  sSends :: nat
  sSent :: "Frame list"
  sEvents :: "ProtocolEvent list"
  sProgress :: "Progress list"
  sCalls :: "appCall list"

text \<open>What the session depends on from outside: the outcome of handing over the \<open>n\<close>-th frame, the
  flush and the closing of the transport, and the application's handlers (\<open>None\<close> when not set).\<close>

record SessionEnv =
  envSend :: "nat \<Rightarrow> go_error option"
  envFlush :: "go_error option"
  envTransportClose :: "go_error option"
  envEstablished :: "go_error option"
  envAuth :: "(AuthRequest \<Rightarrow> authOutcome) option"
  envText :: "(Frame \<Rightarrow> string \<Rightarrow> go_error option) option"
  envRequest :: "(Frame \<Rightarrow> EventMessageView \<Rightarrow> go_error option) option"
  envResponse :: "(Frame \<Rightarrow> EventMessageView \<Rightarrow> go_error option) option"

type_synonym op = "Session \<Rightarrow> go_error option \<times> Session"

text \<open>Sequencing: \<open>if err := m(); err != nil { return err }\<close>, \<open>_ = m()\<close>, and plain assignments.\<close>

definition ret :: "go_error option \<Rightarrow> op" where
  "ret e s = (e, s)"

definition op_try :: "op \<Rightarrow> op \<Rightarrow> op" where
  "op_try m k s = (case m s of (Some e, s') \<Rightarrow> (Some e, s') | (None, s') \<Rightarrow> k s')"

definition op_seq :: "op \<Rightarrow> op \<Rightarrow> op" where
  "op_seq m k s = k (snd (m s))"

definition with_result :: "'a go \<Rightarrow> ('a \<Rightarrow> op) \<Rightarrow> op" where
  "with_result r k = (case r of Inl e \<Rightarrow> ret (Some e) | Inr x \<Rightarrow> k x)"

section \<open>Small operations\<close>

definition emitEvent :: "ProtocolEvent \<Rightarrow> op" where
  "emitEvent e s = (None, s\<lparr>sEvents := sEvents s @ [e]\<rparr>)"

definition emitProgress :: "Progress \<Rightarrow> op" where
  "emitProgress p s = (None, s\<lparr>sProgress := sProgress s @ [p]\<rparr>)"

definition markBadFrame :: "Frame \<Rightarrow> string \<Rightarrow> op" where
  "markBadFrame frame message =
     emitEvent ((newEvent EventProtocolViolation message)\<lparr>peFrameType := hFrameType (fHeader frame)\<rparr>)"

definition setState :: "SessionState \<Rightarrow> Session \<Rightarrow> Session" where
  "setState state s =
     (let s = s\<lparr>sState := state\<rparr>
      in if state = SessionClosed \<or> state = SessionFailed \<or> state = SessionAuthRejected
         then s\<lparr>sMonitorStopped := True\<rparr> else s)"

definition RemoteSupports :: "Session \<Rightarrow> u64 \<Rightarrow> bool" where
  "RemoteSupports s capability \<longleftrightarrow> sRemoteCaps s AND capability \<noteq> 0"

definition requireRemoteCapability :: "Session \<Rightarrow> u64 \<Rightarrow> string \<Rightarrow> go_error option" where
  "requireRemoteCapability s capability name =
     (if RemoteSupports s capability then None else Some (Err (''remote does not support '' @ name)))"

definition requireCapability :: "Session \<Rightarrow> u64 \<Rightarrow> string \<Rightarrow> go_error option" where
  "requireCapability s capability name =
     (if scCapabilities (sConfig s) AND capability = 0
      then Some (Err (''local '' @ name @ '' support is disabled''))
      else requireRemoteCapability s capability name)"

definition requireEstablished :: "Session \<Rightarrow> string \<Rightarrow> go_error option" where
  "requireEstablished s operation =
     (if sState s \<noteq> SessionEstablished
      then Some (Err (operation @ '' requires an established session, current state is ''
             @ SessionState_String (sessionStateCode (sState s))))
      else None)"

definition remoteLimits :: "Session \<Rightarrow> Hello" where
  "remoteLimits s = (case sRemoteHello s of Some limits \<Rightarrow> limits
     | None \<Rightarrow> \<lparr>helloRole = '''', helloCapabilities = 0, helloMaxFrameBytes = 0, helloMaxChunkSize = 0,
         helloMaxTransferBytes = 0, helloMaxInFlightChunks = 0, helloHeartbeatMillis = 0\<rparr>)"

definition remoteMaxFrameBytes :: "Session \<Rightarrow> u32" where
  "remoteMaxFrameBytes s = sRemoteFrame s"

definition checkRemoteFrameSize :: "Session \<Rightarrow> int \<Rightarrow> go_error option" where
  "checkRemoteFrameSize s size' =
     (if size' < int HeaderSize \<or> size' > int MaxFrameBytes
      then Some (Errf ''frame exceeds local max size'' [size'])
      else let max' = remoteMaxFrameBytes s
           in if max' > 0 \<and> word_of_int size' > max'
              then Some (Errf ''frame exceeds remote max size'' [size', uint max'])
              else None)"

definition applyReceiveFrameLimit :: "Session \<Rightarrow> Session" where
  "applyReceiveFrameLimit s =
     s\<lparr>sReceiveLimit := (if sState s = SessionEstablished then plMaxFrameBytes (scPayload (sConfig s))
                         else plPreHandshakeBytes (scPayload (sConfig s)))\<rparr>"

section \<open>Sending\<close>

text \<open>The \<open>n\<close>-th hand-over of a frame. A closed writer refuses it; otherwise the outcome is the
  environment's. \<open>sendAndWait\<close> returns the outcome of writing the frame, \<open>send\<close> that of queueing it.\<close>

definition handOver :: "SessionEnv \<Rightarrow> Frame \<Rightarrow> op" where
  "handOver env frame s =
     (let s' = s\<lparr>sSends := sSends s + 1\<rparr>
      in if sHasWriter s \<and> sWriterClosed s then (Some ErrSessionClosed, s')
         else case envSend env (sSends s) of
                Some e \<Rightarrow> (Some e, s')
              | None \<Rightarrow> (None, s'\<lparr>sSent := sSent s @ [frame]\<rparr>))"

definition sendContext :: "SessionEnv \<Rightarrow> Frame \<Rightarrow> op" where
  "sendContext env frame s =
     (if \<not> sHasTransport s then (Some (Err ''frame transport is nil''), s)
      else if length (fPayload frame) > MaxFrameBytes - HeaderSize
      then (Some (Err ''frame exceeds max size''), s)
      else case checkRemoteFrameSize s (int (EncodedFrameSize frame)) of
        Some e \<Rightarrow> (Some e, s)
      | None \<Rightarrow>
          let (frame, s) =
                (if \<not> sHasWriter s \<and> scSchedulerEnabled (sConfig s)
                 then let (frame, sch) = PushPop (sScheduler s) frame in (frame, s\<lparr>sScheduler := sch\<rparr>)
                 else (frame, s))
          in with_result (EncodeFrameInto [] frame) (\<lambda>_. handOver env frame) s)"

definition send :: "SessionEnv \<Rightarrow> Frame \<Rightarrow> op" where
  "send env frame = sendContext env frame"

definition sendAndWait :: "SessionEnv \<Rightarrow> Frame \<Rightarrow> op" where
  "sendAndWait env frame s =
     (if \<not> sHasWriter s then sendContext env frame s
      else case checkRemoteFrameSize s (int (EncodedFrameSize frame)) of
        Some e \<Rightarrow> (Some e, s)
      | None \<Rightarrow> with_result (EncodeFrameInto [] frame) (\<lambda>_. handOver env frame) s)"

text \<open>\<open>f := NewFrame(...)\<close> followed by the assignments to its header.\<close>

definition headed :: "u8 \<Rightarrow> u32 \<Rightarrow> bytes \<Rightarrow> u8 \<Rightarrow> u16 \<Rightarrow> u16 \<Rightarrow> u64 \<Rightarrow> Frame" where
  "headed frameType schemaID payload priority channel flags transferID =
     (let f = NewFrame frameType schemaID payload
      in f\<lparr>fHeader := (fHeader f)\<lparr>hPriority := priority, hChannelID := channel, hFlags := flags,
            hTransferID := transferID\<rparr>\<rparr>)"

definition sendAck :: "SessionEnv \<Rightarrow> u64 \<Rightarrow> u32 \<Rightarrow> u32 \<Rightarrow> u64 \<Rightarrow> op" where
  "sendAck env transferID chunkFrom chunkTo receivedBytes =
     with_result (EncodeAck \<lparr>ackTransferID = transferID, ackChunkFrom = chunkFrom, ackChunkTo = chunkTo,
         ackReceivedBytes = receivedBytes\<rparr>) (\<lambda>payload.
       send env (headed FrameAck SchemaAck payload PriorityHigh ChannelControl FlagControl transferID))"

definition sendNack :: "SessionEnv \<Rightarrow> u64 \<Rightarrow> u32 \<Rightarrow> u32 \<Rightarrow> u16 \<Rightarrow> op" where
  "sendNack env transferID chunkFrom chunkTo reason =
     with_result (EncodeNack \<lparr>nackTransferID = transferID, nackChunkFrom = chunkFrom,
         nackChunkTo = chunkTo, nackReasonCode = reason, nackFlags = 0\<rparr>) (\<lambda>payload.
       send env (headed FrameNack SchemaNack payload PriorityHigh ChannelControl FlagControl transferID))"

definition SendWindow :: "SessionEnv \<Rightarrow> Window \<Rightarrow> op" where
  "SendWindow env window s =
     (case requireCapability s CapabilityFlowControl ''flow control'' of Some e \<Rightarrow> (Some e, s)
      | None \<Rightarrow> with_result (EncodeWindowInto [] window) (\<lambda>payload.
          send env (headed FrameWindow SchemaWindow payload PriorityHigh ChannelControl FlagControl
            (winTransferID window))) s)"

definition SendTransferState :: "SessionEnv \<Rightarrow> TransferStateMessage \<Rightarrow> op" where
  "SendTransferState env state =
     with_result (EncodeTransferStateMessageInto [] state) (\<lambda>payload.
       send env (headed FrameTransferState SchemaTransferState payload PriorityHigh ChannelControl
         FlagControl (tsmTransferID state)))"

definition requestTransferResume :: "SessionEnv \<Rightarrow> u64 \<Rightarrow> TransferResume \<Rightarrow> op" where
  "requestTransferResume env requestID resume s =
     (case requireEstablished s ''resume transfer'' of Some e \<Rightarrow> (Some e, s)
      | None \<Rightarrow>
     (case requireCapability s CapabilityTransferResume ''transfer resume'' of Some e \<Rightarrow> (Some e, s)
      | None \<Rightarrow>
        with_result (EncodeTransferResumeInto [] (trTransferID resume) (trReceivedBytes resume)
          (trNextChunk resume) (trToken resume)) (\<lambda>payload.
          let f = headed FrameTransferResume SchemaTransferState payload PriorityHigh ChannelBulk
                    FlagControl (trTransferID resume)
          in send env (f\<lparr>fHeader := (fHeader f)\<lparr>hRequestID := requestID\<rparr>\<rparr>)) s))"

definition RequestTransferResume :: "SessionEnv \<Rightarrow> TransferResume \<Rightarrow> op" where
  "RequestTransferResume env resume = requestTransferResume env 0 resume"

definition CancelTransfer :: "SessionEnv \<Rightarrow> u64 \<Rightarrow> u16 \<Rightarrow> u16 \<Rightarrow> op" where
  "CancelTransfer env transferID reason flags s =
     (case requireCapability s CapabilityCancel ''cancel'' of Some e \<Rightarrow> (Some e, s)
      | None \<Rightarrow> with_result (EncodeCancel \<lparr>cancelTransferID = transferID, cancelReasonCode = reason,
            cancelFlags = flags\<rparr>) (\<lambda>payload.
          send env (headed FrameCancel SchemaCancel payload PriorityCritical ChannelControl FlagControl
            transferID)) s)"

definition SendPing :: "SessionEnv \<Rightarrow> op" where
  "SendPing env s =
     (case requireCapability s CapabilityHeartbeat ''heartbeat'' of Some e \<Rightarrow> (Some e, s)
      | None \<Rightarrow> send env (headed FramePing 0 [] PriorityCritical ChannelControl FlagControl 0) s)"

definition SendPong :: "SessionEnv \<Rightarrow> op" where
  "SendPong env s =
     (case requireCapability s CapabilityHeartbeat ''heartbeat'' of Some e \<Rightarrow> (Some e, s)
      | None \<Rightarrow> send env (headed FramePong 0 [] PriorityCritical ChannelControl FlagControl 0) s)"

definition SendCloseAck :: "SessionEnv \<Rightarrow> CloseMessage \<Rightarrow> op" where
  "SendCloseAck env closeMessage =
     with_result (EncodeCloseMessage closeMessage) (\<lambda>payload.
       send env (headed FrameCloseAck SchemaClose payload PriorityCritical ChannelControl FlagControl 0))"

definition sendCloseAckAndWait :: "SessionEnv \<Rightarrow> CloseMessage \<Rightarrow> op" where
  "sendCloseAckAndWait env closeMessage =
     with_result (EncodeCloseMessage closeMessage) (\<lambda>payload.
       sendAndWait env (headed FrameCloseAck SchemaClose payload PriorityCritical ChannelControl FlagControl 0))"

text \<open>\<open>SendError\<close> encodes header and payload into one buffer and skips \<open>sendContext\<close>. The subtraction
  from the frame limit is on 32 bits; a normalized limit is at least the header size. The text of a
  formatted error is its message without the arguments.\<close>

definition errorText :: "go_error \<Rightarrow> string" where
  "errorText e = (case e of GoPanic \<Rightarrow> ''panic'' | Err m \<Rightarrow> m | Errf m _ \<Rightarrow> m)"

definition SendError :: "SessionEnv \<Rightarrow> u32 \<Rightarrow> Frame \<Rightarrow> string \<Rightarrow> op" where
  "SendError env code frame message s =
     (if (of_nat (length message) + 32 :: u64) > ucast (plMaxFrameBytes (scPayload (sConfig s)) - of_nat HeaderSize)
      then (Some (Err ''error message exceeds max frame size''), s)
      else
      let payloadSize = ErrorMessagePayloadSizeString message;
          size' = int HeaderSize + payloadSize
      in case checkRemoteFrameSize s size' of Some e \<Rightarrow> (Some e, s)
      | None \<Rightarrow>
        with_result (EncodeErrorMessageStringInto [] code (hFrameType (fHeader frame))
            (hSchemaID (fHeader frame)) (hRequestID (fHeader frame)) (hTransferID (fHeader frame)) message)
          (\<lambda>payload s.
             let f = headed FrameError SchemaError payload PriorityCritical ChannelControl
                       (FlagControl OR FlagFirst OR FlagLast) (hTransferID (fHeader frame));
                 f = f\<lparr>fHeader := (fHeader f)\<lparr>hRequestID := hRequestID (fHeader frame)\<rparr>\<rparr>
             in if \<not> sHasWriter s \<and> \<not> sHasTransport s then (Some (Err ''frame transport is nil''), s)
                else handOver env f s) s)"

section \<open>What sending leaves alone\<close>

text \<open>\<open>chat s s'\<close>: from \<open>s\<close> to \<open>s'\<close> only frames were handed over, events reported and progress noted.\<close>

named_theorems chats "operations that only send and report"

definition core :: "Session \<Rightarrow> Session" where
  "core s = s\<lparr>sSends := 0, sSent := [], sScheduler := NewFrameScheduler, sEvents := [], sProgress := []\<rparr>"

definition chat :: "Session \<Rightarrow> Session \<Rightarrow> bool" where
  "chat s s' \<longleftrightarrow> core s' = core s \<and> (\<exists>es. sEvents s' = sEvents s @ es) \<and> (\<exists>fs. sSent s' = sSent s @ fs)"

lemma chat_refl [simp, chats]: "chat s s"
  by (simp add: chat_def)

lemma chat_trans: "chat s s' \<Longrightarrow> chat s' s'' \<Longrightarrow> chat s s''"
  by (auto simp: chat_def)

lemma chat_fields:
  assumes "chat s s'"
  shows "sState s' = sState s" "sConfig s' = sConfig s" "sHasTransport s' = sHasTransport s"
    "sHasWriter s' = sHasWriter s" "sWriterClosed s' = sWriterClosed s" "sRemoteCaps s' = sRemoteCaps s"
    "sRemoteFrame s' = sRemoteFrame s" "sRemoteHello s' = sRemoteHello s" "sReceiveLimit s' = sReceiveLimit s"
    "sReceiveBytes s' = sReceiveBytes s" "sRunning s' = sRunning s" "sPeerCloseSeen s' = sPeerCloseSeen s"
    "sPeerClose s' = sPeerClose s" "sOutgoing s' = sOutgoing s" "sIncoming s' = sIncoming s"
    "sDetached s' = sDetached s" "sOpening s' = sOpening s" "sOpens s' = sOpens s" "sWriterLog s' = sWriterLog s"
    "sCompleted s' = sCompleted s" "sCompletedIDs s' = sCompletedIDs s" "sLastIncoming s' = sLastIncoming s"
    "sCloseAck s' = sCloseAck s" "sPeerCloseDone s' = sPeerCloseDone s" "sHandlerJobs s' = sHandlerJobs s"
    "sCalls s' = sCalls s" "sTransportClosed s' = sTransportClosed s" "sRate s' = sRate s"
    "sIdentity s' = sIdentity s" "sMonitorStopped s' = sMonitorStopped s"
proof -
  have c: "core s' = core s" using assms by (simp add: chat_def)
  show "sState s' = sState s" "sConfig s' = sConfig s" "sHasTransport s' = sHasTransport s"
    "sHasWriter s' = sHasWriter s" "sWriterClosed s' = sWriterClosed s" "sRemoteCaps s' = sRemoteCaps s"
    "sRemoteFrame s' = sRemoteFrame s" "sRemoteHello s' = sRemoteHello s" "sReceiveLimit s' = sReceiveLimit s"
    "sReceiveBytes s' = sReceiveBytes s" "sRunning s' = sRunning s" "sPeerCloseSeen s' = sPeerCloseSeen s"
    "sPeerClose s' = sPeerClose s" "sOutgoing s' = sOutgoing s" "sIncoming s' = sIncoming s"
    "sDetached s' = sDetached s" "sOpening s' = sOpening s" "sOpens s' = sOpens s" "sWriterLog s' = sWriterLog s"
    "sCompleted s' = sCompleted s" "sCompletedIDs s' = sCompletedIDs s" "sLastIncoming s' = sLastIncoming s"
    "sCloseAck s' = sCloseAck s" "sPeerCloseDone s' = sPeerCloseDone s" "sHandlerJobs s' = sHandlerJobs s"
    "sCalls s' = sCalls s" "sTransportClosed s' = sTransportClosed s" "sRate s' = sRate s"
    "sIdentity s' = sIdentity s" "sMonitorStopped s' = sMonitorStopped s"
    using c [THEN arg_cong, of sState] c [THEN arg_cong, of sConfig] c [THEN arg_cong, of sHasTransport]
      c [THEN arg_cong, of sHasWriter] c [THEN arg_cong, of sWriterClosed] c [THEN arg_cong, of sRemoteCaps]
      c [THEN arg_cong, of sRemoteFrame] c [THEN arg_cong, of sRemoteHello] c [THEN arg_cong, of sReceiveLimit]
      c [THEN arg_cong, of sReceiveBytes] c [THEN arg_cong, of sRunning] c [THEN arg_cong, of sPeerCloseSeen]
      c [THEN arg_cong, of sPeerClose] c [THEN arg_cong, of sOutgoing] c [THEN arg_cong, of sIncoming]
      c [THEN arg_cong, of sDetached] c [THEN arg_cong, of sOpening] c [THEN arg_cong, of sOpens]
      c [THEN arg_cong, of sWriterLog] c [THEN arg_cong, of sCompleted] c [THEN arg_cong, of sCompletedIDs]
      c [THEN arg_cong, of sLastIncoming] c [THEN arg_cong, of sCloseAck] c [THEN arg_cong, of sPeerCloseDone]
      c [THEN arg_cong, of sHandlerJobs] c [THEN arg_cong, of sCalls] c [THEN arg_cong, of sTransportClosed]
      c [THEN arg_cong, of sRate] c [THEN arg_cong, of sIdentity] c [THEN arg_cong, of sMonitorStopped]
    by (simp_all add: core_def)
qed

lemma chat_ret [chats]: "chat s (snd (ret e s))"
  by (simp add: ret_def)

lemma chat_with_result [chats]: "(\<And>x. chat s (snd (k x s))) \<Longrightarrow> chat s (snd (with_result r k s))"
  by (simp add: with_result_def ret_def split: sum.split)

lemma chat_op_try [chats]:
  "chat s (snd (m s)) \<Longrightarrow> (\<And>s'. chat s s' \<Longrightarrow> chat s' (snd (k s'))) \<Longrightarrow> chat s (snd (op_try m k s))"
  by (auto simp: op_try_def split: prod.split option.split intro: chat_trans)

lemma chat_op_seq [chats]:
  "chat s (snd (m s)) \<Longrightarrow> (\<And>s'. chat s s' \<Longrightarrow> chat s' (snd (k s'))) \<Longrightarrow> chat s (snd (op_seq m k s))"
  by (auto simp: op_seq_def intro: chat_trans)

lemma chat_emit [chats]: "chat s (snd (emitEvent e s))" "chat s (snd (emitProgress p s))"
    "chat s (snd (markBadFrame frame message s))"
  by (simp_all add: chat_def core_def emitEvent_def emitProgress_def markBadFrame_def)

lemma chat_handOver [chats]: "chat s (snd (handOver env frame s))"
  by (simp add: chat_def core_def handOver_def Let_def split: option.split)

lemma chat_scheduled: "chat s (snd (with_result r (\<lambda>_. handOver env frame) (s\<lparr>sScheduler := sch\<rparr>)))"
proof -
  have "chat s (s\<lparr>sScheduler := sch\<rparr>)" by (simp add: chat_def core_def)
  then show ?thesis by (rule chat_trans) (intro chats)
qed

lemma chat_sendContext [chats]: "chat s (snd (sendContext env frame s))"
  unfolding sendContext_def
  by (auto simp: Let_def split: option.split prod.split intro!: chat_handOver chat_scheduled chat_with_result)

lemma chat_send [chats]: "chat s (snd (send env frame s))"
  unfolding send_def by (rule chat_sendContext)

lemma chat_sendAndWait [chats]: "chat s (snd (sendAndWait env frame s))"
  unfolding sendAndWait_def by (auto split: option.split intro: chats intro!: chat_with_result)

lemma chat_SendError [chats]: "chat s (snd (SendError env code frame message s))"
  unfolding SendError_def by (auto simp: Let_def split: option.split intro: chats intro!: chat_with_result)

lemma chat_messages [chats]:
  "chat s (snd (sendAck env i a b n s))" "chat s (snd (sendNack env i a b r s))"
  "chat s (snd (SendTransferState env st s))" "chat s (snd (SendCloseAck env msg s))"
  "chat s (snd (sendCloseAckAndWait env msg s))"
  unfolding sendAck_def sendNack_def SendTransferState_def SendCloseAck_def sendCloseAckAndWait_def
  by (intro chats)+

lemma chat_guarded [chats]:
  "chat s (snd (SendWindow env w s))" "chat s (snd (SendPing env s))" "chat s (snd (SendPong env s))"
  "chat s (snd (CancelTransfer env i r f s))" "chat s (snd (requestTransferResume env q resume s))"
  unfolding SendWindow_def SendPing_def SendPong_def CancelTransfer_def requestTransferResume_def
  by (auto simp: Let_def split: option.split intro: chats intro!: chat_with_result)

end
