(* ===== verification/Etp_Outgoing.thy ===== *)
theory Etp_Outgoing
  imports Etp_State "HOL-Library.AList"
begin

text \<open>
  Outgoing transfers, \<open>session.go\<close> and \<open>incoming.go\<close>: registration, the window that admits chunks,
  acknowledgements, negative acknowledgements, window updates, transfer states, and the monitor
  that resends after a timeout. Operations on one transfer are functions on its record; the
  session operations look the transfer up and store it back. The condition variable does not
  appear: an operation that would wait returns \<open>Blocked\<close>, and is called again after any change.
\<close>

section \<open>Chunk arithmetic\<close>

text \<open>Go panics on a division by zero.\<close>

definition chunkCountFor :: "u64 \<Rightarrow> u32 \<Rightarrow> u32 go" where
  "chunkCountFor totalSize chunkSize =
     (if totalSize = 0 then Inr 0
      else if chunkSize = 0 then Inl GoPanic
      else let chunks = 1 + (totalSize - 1) div ucast chunkSize :: u64
           in if chunks > ucast (- 1 :: u32) then Inr (- 1) else Inr (ucast chunks))"

definition transferOffsetForChunk :: "u64 \<Rightarrow> u32 \<Rightarrow> u32 \<Rightarrow> u64 option" where
  "transferOffsetForChunk totalSize chunkSize nextChunk =
     (if chunkSize = 0 then None
      else case chunkCountFor totalSize chunkSize of
        Inl _ \<Rightarrow> None
      | Inr chunkCount \<Rightarrow>
          if nextChunk > chunkCount then None
          else if nextChunk = chunkCount then Some totalSize
          else let offset = ucast nextChunk * ucast chunkSize :: u64
               in if offset \<ge> totalSize then None else Some offset)"

definition checksumFlag :: "u8 \<Rightarrow> u32" where
  "checksumFlag mode = (if mode = 1 then TransferFlagChecksumSHA256 else 0)"

section \<open>Options and registration\<close>

text \<open>The reader of an outgoing transfer is application code; the options say whether there is one.\<close>

record TransferOptions =
  toRequestID :: u64
  toEvent :: string
  toField :: string
  toIndex :: u32
  toParts :: "TransferPart list"
  toName :: string
  toContentType :: u32
  toHasReader :: bool
  toTotalSize :: u64
  toFields :: "TransferField list"
  toChunkSize :: int
  toAckTimeout :: int
  toRetryLimit :: int
  toMaxInFlight :: int
  toMaxInFlightBytes :: u64
  toChecksum :: bytes
  toChecksumMode :: u8
  toData :: bytes
  toUseData :: bool

definition normalizeTransferOptions :: "Session \<Rightarrow> TransferOptions \<Rightarrow> TransferOptions" where
  "normalizeTransferOptions s opts =
     (let chunk = (if toChunkSize opts \<le> 0 then int DefaultChunkSize else toChunkSize opts);
          maxChunk = fcMaxChunkSize (scFlowControl (sConfig s));
          chunk = (if chunk > maxChunk then maxChunk else chunk);
          remote = helloMaxChunkSize (remoteLimits s);
          chunk = (if remote > 0 \<and> word_of_int chunk > remote then uint remote else chunk)
      in opts\<lparr>toChunkSize := chunk\<rparr>)"

definition newOutgoing :: "Session \<Rightarrow> u64 \<Rightarrow> TransferOptions \<Rightarrow> outgoingTransfer go" where
  "newOutgoing s transferID opts =
     (let flow = scFlowControl (sConfig s);
          ackTimeout = (if toAckTimeout opts \<le> 0 then fcAckTimeout flow else toAckTimeout opts);
          retryLimit = (if toRetryLimit opts \<le> 0 then fcRetryLimit flow else toRetryLimit opts);
          maxInFlight = (if toMaxInFlight opts \<le> 0 then fcMaxInFlightChunks flow else toMaxInFlight opts);
          remote = helloMaxInFlightChunks (remoteLimits s);
          maxInFlight = (if remote > 0 \<and> word_of_int maxInFlight > remote then uint remote else maxInFlight);
          maxInFlightBytes = (if toMaxInFlightBytes opts = 0 then fcMaxInFlightBytes flow else toMaxInFlightBytes opts);
          maxInFlightBytes = (if maxInFlightBytes > fcMaxSendBufferBytes flow then fcMaxSendBufferBytes flow
                              else maxInFlightBytes)
      in go_try (chunkCountFor (toTotalSize opts) (word_of_int (toChunkSize opts))) (\<lambda>chunkCount.
        Inr \<lparr>otId = transferID, otTotalBytes = toTotalSize opts, otChunkCount = chunkCount,
          otChunkSize = word_of_int (toChunkSize opts), otAckTimeout = ackTimeout,
          otRetryLimit = retryLimit, otMaxInFlight = maxInFlight, otMaxInFlightBytes = maxInFlightBytes,
          otPending = [], otPendingBytes = 0, otRemoteWindowBytes = 0, otRemoteWindowChunks = 0,
          otHasRemoteWindow = (RemoteSupports s CapabilityFlowControl \<and> helloMaxInFlightChunks (remoteLimits s) > 0),
          otAckedBytes = 0, otDoneSending = False, otCompleted = False, otEndFrame = \<lparr>fHeader = emptyHeader, fPayload = [], fLease = None\<rparr>,
          otCommitSentAt = None, otCommitRetries = 0, otResumeDecided = False, otResumeAccepted = False,
          otResumeBytes = 0, otResumeChunk = 0, otFailed = None\<rparr>))"

definition registerOutgoing :: "u64 \<Rightarrow> TransferOptions \<Rightarrow> op" where
  "registerOutgoing transferID opts s =
     with_result (newOutgoing s transferID opts) (\<lambda>ot s.
       if map_of (sOutgoing s) transferID \<noteq> None
       then (Some (Errf ''duplicate outgoing transfer id'' [uint transferID]), s)
       else if int (length (sOutgoing s)) \<ge> fcMaxConcurrentTransfers (scFlowControl (sConfig s))
       then (Some (Errf ''too many concurrent transfers'' [fcMaxConcurrentTransfers (scFlowControl (sConfig s))]), s)
       else (None, s\<lparr>sOutgoing := AList.update transferID ot (sOutgoing s)\<rparr>)) s"

definition unregisterOutgoing :: "u64 \<Rightarrow> Session \<Rightarrow> Session" where
  "unregisterOutgoing transferID s = s\<lparr>sOutgoing := AList.delete transferID (sOutgoing s)\<rparr>"

definition bumpTransferID :: "u64 \<Rightarrow> Session \<Rightarrow> Session" where
  "bumpTransferID transferID s =
     (if sNextTransfer s \<ge> transferID then s else s\<lparr>sNextTransfer := transferID\<rparr>)"

definition outgoingFailure :: "Session \<Rightarrow> u64 \<Rightarrow> go_error option" where
  "outgoingFailure s transferID =
     (case map_of (sOutgoing s) transferID of None \<Rightarrow> None | Some ot \<Rightarrow> otFailed ot)"

definition fail :: "go_error \<Rightarrow> outgoingTransfer \<Rightarrow> outgoingTransfer" where
  "fail err ot = ot\<lparr>otFailed := Some err\<rparr>"

definition failOutgoing :: "go_error option \<Rightarrow> Session \<Rightarrow> Session" where
  "failOutgoing err s =
     (let err = (case err of None \<Rightarrow> ErrSessionClosed | Some e \<Rightarrow> e)
      in s\<lparr>sOutgoing := map (\<lambda>(i, ot). (i, fail err ot)) (sOutgoing s)\<rparr>)"

text \<open>Storing a transfer back.\<close>

definition putOutgoing :: "u64 \<Rightarrow> outgoingTransfer \<Rightarrow> Session \<Rightarrow> Session" where
  "putOutgoing transferID ot s = s\<lparr>sOutgoing := AList.update transferID ot (sOutgoing s)\<rparr>"

section \<open>Sending chunks\<close>

datatype opResult = Blocked | Done "go_error option"

text \<open>The condition of the waiting loop in \<open>sendReliableChunk\<close>.\<close>

definition chunkBlocked :: "outgoingTransfer \<Rightarrow> u64 \<Rightarrow> bool" where
  "chunkBlocked ot payloadN \<longleftrightarrow>
     (int (length (otPending ot)) \<ge> otMaxInFlight ot
      \<or> otPendingBytes ot + payloadN > otMaxInFlightBytes ot
      \<or> (otHasRemoteWindow ot \<and> (otRemoteWindowBytes ot < payloadN \<or> otRemoteWindowChunks ot = 0)))
     \<and> otFailed ot = None"

definition admitChunk :: "int \<Rightarrow> Frame \<Rightarrow> u64 \<Rightarrow> outgoingTransfer \<Rightarrow> outgoingTransfer" where
  "admitChunk now frame payloadN ot =
     (let ot = ot\<lparr>otPending := otPending ot @ [\<lparr>skChunkID = hChunkID (fHeader frame), skFrame = frame,
                  skSentAt = now, skRetries = 0, skAcked = False, skPayloadN = payloadN\<rparr>],
                  otPendingBytes := otPendingBytes ot + payloadN\<rparr>
      in if otHasRemoteWindow ot
         then ot\<lparr>otRemoteWindowBytes := otRemoteWindowBytes ot - payloadN,
                 otRemoteWindowChunks := otRemoteWindowChunks ot - 1\<rparr>
         else ot)"

definition sendReliableChunk :: "SessionEnv \<Rightarrow> int \<Rightarrow> u64 \<Rightarrow> Frame \<Rightarrow> u64 \<Rightarrow> Session \<Rightarrow> opResult \<times> Session" where
  "sendReliableChunk env now transferID frame payloadN s =
     (case map_of (sOutgoing s) transferID of
        None \<Rightarrow> apfst Done (send env frame s)
      | Some ot \<Rightarrow>
          if chunkBlocked ot payloadN then (Blocked, s)
          else case otFailed ot of Some err \<Rightarrow> (Done (Some err), s)
          | None \<Rightarrow>
              let s = putOutgoing transferID (admitChunk now frame payloadN ot) s
              in case sendContext env frame s of
                   (Some err, s) \<Rightarrow>
                     (Done (Some err), (case map_of (sOutgoing s) transferID of
                        None \<Rightarrow> s | Some ot \<Rightarrow> putOutgoing transferID (fail err ot) s))
                 | (None, s) \<Rightarrow> (Done None, s))"

definition waitOutgoingAcked :: "u64 \<Rightarrow> Session \<Rightarrow> opResult \<times> Session" where
  "waitOutgoingAcked transferID s =
     (case map_of (sOutgoing s) transferID of
        None \<Rightarrow> (Done None, s)
      | Some ot \<Rightarrow>
          let ot = ot\<lparr>otDoneSending := True\<rparr>; s = putOutgoing transferID ot s
          in if (otPending ot \<noteq> [] \<or> \<not> otCompleted ot) \<and> otFailed ot = None then (Blocked, s)
             else (Done (otFailed ot), s))"

section \<open>Acknowledgements\<close>

text \<open>The loop over the pending chunks: the chunks in the range leave, their bytes move from pending to
  acknowledged.\<close>

fun ackLoop :: "u32 \<Rightarrow> u32 \<Rightarrow> sentChunk list \<Rightarrow> bool \<times> u64 \<times> u64 \<Rightarrow> sentChunk list \<times> bool \<times> u64 \<times> u64" where
  "ackLoop from to [] acc = ([], acc)"
| "ackLoop from to (chunk # rest) (matched, acked, pending) =
     (if skChunkID chunk \<ge> from \<and> skChunkID chunk \<le> to
      then ackLoop from to rest (True, acked + skPayloadN chunk,
             if pending \<ge> skPayloadN chunk then pending - skPayloadN chunk else 0)
      else apfst (\<lambda>dst. chunk # dst) (ackLoop from to rest (matched, acked, pending)))"

definition ackTransfer :: "Ack \<Rightarrow> outgoingTransfer \<Rightarrow> go_error option \<times> outgoingTransfer" where
  "ackTransfer ack ot =
     (if ackChunkTo ack \<ge> otChunkCount ot \<or> ackReceivedBytes ack < otAckedBytes ot
         \<or> ackReceivedBytes ack > otTotalBytes ot
      then (Some (Err ''ack counters exceed outgoing transfer''), ot)
      else
      let (dst, matched, ackedBytes, pendingBytes) =
            ackLoop (ackChunkFrom ack) (ackChunkTo ack) (otPending ot) (False, otAckedBytes ot, otPendingBytes ot);
          ot = ot\<lparr>otPending := dst, otAckedBytes := ackedBytes, otPendingBytes := pendingBytes\<rparr>
      in if matched \<and> ackReceivedBytes ack \<noteq> ackedBytes
         then let err = Err ''ack received byte counter does not match committed chunks''
              in (Some err, ot\<lparr>otFailed := Some err\<rparr>)
         else if \<not> matched
         then (if ackReceivedBytes ack \<le> ackedBytes then (None, ot)
               else (Some (Err ''ack does not match pending chunks''), ot))
         else (None, ot))"

definition applyAck :: "Ack \<Rightarrow> op" where
  "applyAck ack s =
     (case map_of (sOutgoing s) (ackTransferID ack) of
        None \<Rightarrow> (None, s)
      | Some ot \<Rightarrow> apsnd (\<lambda>ot. putOutgoing (ackTransferID ack) ot s) (ackTransfer ack ot))"

definition HandleAck :: "Frame \<Rightarrow> op" where
  "HandleAck frame s =
     (case requireCapability s CapabilityAck ''ack'' of Some e \<Rightarrow> (Some e, s)
      | None \<Rightarrow>
        with_result (DecodeAck (fPayload frame)) (\<lambda>ack s.
          if ackTransferID ack = 0
             \<or> (hTransferID (fHeader frame) \<noteq> 0 \<and> ackTransferID ack \<noteq> hTransferID (fHeader frame))
             \<or> ackChunkFrom ack > ackChunkTo ack
          then (Some (Err ''invalid ack range or transfer id''), s)
          else op_try (applyAck ack)
            (emitProgress \<lparr>pgTransferID = ackTransferID ack, pgTotalBytes = 0, pgLocalWrittenBytes = 0,
               pgRemoteAckedBytes = ackReceivedBytes ack, pgSentChunks = 0,
               pgAckedChunks = ackChunkTo ack + 1, pgState = TransferAcked\<rparr>) s) s)"

section \<open>Negative acknowledgements\<close>

text \<open>The loop over the pending chunks in range: each counts a retry and is resent, until one has no retry
  left. Result: the pending chunks after the loop, the frames to resend, the chunk that exhausted
  its retries.\<close>

fun nackLoop :: "int \<Rightarrow> int \<Rightarrow> u32 \<Rightarrow> u32 \<Rightarrow> sentChunk list \<Rightarrow> sentChunk list \<times> Frame list \<times> u32 option" where
  "nackLoop now limit from to [] = ([], [], None)"
| "nackLoop now limit from to (chunk # rest) =
     (if skChunkID chunk \<ge> from \<and> skChunkID chunk \<le> to
      then if skRetries chunk \<ge> limit then (chunk # rest, [], Some (skChunkID chunk))
           else let (rest, frames, exhausted) = nackLoop now limit from to rest
                in (chunk\<lparr>skRetries := skRetries chunk + 1, skSentAt := now\<rparr> # rest,
                    skFrame chunk # frames, exhausted)
      else let (rest, frames, exhausted) = nackLoop now limit from to rest
           in (chunk # rest, frames, exhausted))"

fun sendFrames :: "SessionEnv \<Rightarrow> Frame list \<Rightarrow> op" where
  "sendFrames env [] s = (None, s)"
| "sendFrames env (frame # frames) s = op_try (send env frame) (sendFrames env frames) s"

definition applyNack :: "SessionEnv \<Rightarrow> int \<Rightarrow> Nack \<Rightarrow> op" where
  "applyNack env now nack s =
     (case map_of (sOutgoing s) (nackTransferID nack) of
        None \<Rightarrow> (None, s)
      | Some ot \<Rightarrow>
          if nackReasonCode nack \<noteq> NackMissingChunk \<and> nackReasonCode nack \<noteq> NackFlowControl
          then (None, putOutgoing (nackTransferID nack)
                  (ot\<lparr>otFailed := Some (Errf ''remote rejected transfer''
                     [uint (nackTransferID nack), uint (nackReasonCode nack)])\<rparr>) s)
          else if nackReasonCode nack = NackFlowControl
          then (None, putOutgoing (nackTransferID nack)
                  (ot\<lparr>otHasRemoteWindow := True, otRemoteWindowBytes := 0, otRemoteWindowChunks := 0\<rparr>) s)
          else
            let (pending, frames, exhausted) =
                  nackLoop now (otRetryLimit ot) (nackChunkFrom nack) (nackChunkTo nack) (otPending ot);
                ot = ot\<lparr>otPending := pending\<rparr>
            in case exhausted of
                 Some chunkID \<Rightarrow>
                   let err = Errf ''retry limit exceeded'' [uint (otId ot), uint chunkID]
                   in (Some err, putOutgoing (nackTransferID nack) (ot\<lparr>otFailed := Some err\<rparr>) s)
               | None \<Rightarrow>
                   let s = putOutgoing (nackTransferID nack) ot s
                   in case sendFrames env frames s of
                        (Some err, s) \<Rightarrow> (Some err, (case map_of (sOutgoing s) (nackTransferID nack) of
                           None \<Rightarrow> s | Some ot \<Rightarrow> putOutgoing (nackTransferID nack) (fail err ot) s))
                      | (None, s) \<Rightarrow> (None, s))"

definition HandleNack :: "SessionEnv \<Rightarrow> int \<Rightarrow> Frame \<Rightarrow> op" where
  "HandleNack env now frame s =
     (case requireCapability s CapabilityNack ''nack'' of Some e \<Rightarrow> (Some e, s)
      | None \<Rightarrow>
        with_result (DecodeNack (fPayload frame)) (\<lambda>nack s.
          if nackTransferID nack = 0
             \<or> (hTransferID (fHeader frame) \<noteq> 0 \<and> nackTransferID nack \<noteq> hTransferID (fHeader frame))
             \<or> nackChunkFrom nack > nackChunkTo nack
          then (Some (Err ''invalid nack range or transfer id''), s)
          else op_seq (emitEvent \<lparr>peCode = EventNackReceived, peMessage = ''nack received'',
                 peFrameType = hFrameType (fHeader frame), peTransferID = nackTransferID nack,
                 peChunkID = nackChunkFrom nack\<rparr>) (applyNack env now nack) s) s)"

section \<open>Windows and transfer states\<close>

definition HandleWindow :: "Frame \<Rightarrow> op" where
  "HandleWindow frame =
     with_result (DecodeWindow (fPayload frame)) (\<lambda>window s.
       if winTransferID window = 0
          \<or> (hTransferID (fHeader frame) \<noteq> 0 \<and> winTransferID window \<noteq> hTransferID (fHeader frame))
          \<or> winFlags window \<noteq> WindowFlagTransfer
       then (Some (Err ''invalid transfer window''), s)
       else case map_of (sOutgoing s) (winTransferID window) of
              None \<Rightarrow> (None, s)
            | Some ot \<Rightarrow> (None, putOutgoing (winTransferID window)
                (ot\<lparr>otRemoteWindowBytes := winWindowBytes window,
                   otRemoteWindowChunks := winWindowChunks window, otHasRemoteWindow := True\<rparr>) s))"

text \<open>\<open>state.Flags == 0\<close>, unknown flags, or more than one flag.\<close>

definition transferStateFlagsInvalid :: "u16 \<Rightarrow> bool" where
  "transferStateFlagsInvalid flags \<longleftrightarrow>
     flags = 0
     \<or> flags AND NOT (TransferStateFlagResumeAccepted OR TransferStateFlagResumeRejected
         OR TransferStateFlagCompleted OR TransferStateFlagFailed) \<noteq> 0
     \<or> flags AND (flags - 1) \<noteq> 0"

definition handleIncomingTransferState :: "Frame \<Rightarrow> op" where
  "handleIncomingTransferState frame =
     with_result (DecodeTransferStateMessage (fPayload frame)) (\<lambda>state s.
       let flags = tsmFlags state; transferID = tsmTransferID state in
       if transferID = 0 \<or> transferID \<noteq> hTransferID (fHeader frame)
       then (Some (Err ''transfer state id does not match frame header''), s)
       else if transferStateFlagsInvalid flags then (Some (Err ''invalid transfer state flags''), s)
       else if (flags = TransferStateFlagCompleted \<or> flags = TransferStateFlagResumeAccepted)
               \<and> tsmReasonCode state \<noteq> 0
       then (Some (Err ''successful transfer state contains a reason code''), s)
       else if (flags = TransferStateFlagFailed \<or> flags = TransferStateFlagResumeRejected)
               \<and> tsmReasonCode state = 0
       then (Some (Err ''failed transfer state is missing a reason code''), s)
       else
       let entry = map_of (sOutgoing s) transferID in
       if flags AND TransferStateFlagCompleted \<noteq> 0 then
         (case entry of None \<Rightarrow> (None, s)
          | Some ot \<Rightarrow>
              if tsmReceivedBytes state \<noteq> otTotalBytes ot \<or> tsmNextChunk state \<noteq> otChunkCount ot
              then let err = Err ''invalid transfer completion counters''
                   in (Some err, putOutgoing transferID (ot\<lparr>otFailed := Some err\<rparr>) s)
              else (None, putOutgoing transferID (ot\<lparr>otCompleted := True\<rparr>) s))
       else if flags AND TransferStateFlagFailed \<noteq> 0 then
         (let err = Errf ''remote transfer commit failed'' [uint (tsmReasonCode state)];
              s = (case entry of None \<Rightarrow> s | Some ot \<Rightarrow> putOutgoing transferID (fail err ot) s)
          in emitEvent ((newEvent EventTransferFailed (errorText err))
               \<lparr>peFrameType := hFrameType (fHeader frame), peTransferID := transferID\<rparr>) s)
       else if flags AND TransferStateFlagResumeRejected \<noteq> 0 then
         (let err = Errf ''remote rejected transfer resume'' [uint (tsmReasonCode state)]
          in (None, case entry of None \<Rightarrow> s | Some ot \<Rightarrow> putOutgoing transferID (fail err ot) s))
       else if flags AND TransferStateFlagResumeAccepted \<noteq> 0 then
         (case entry of None \<Rightarrow> (None, s)
          | Some ot \<Rightarrow>
              (case transferOffsetForChunk (otTotalBytes ot) (otChunkSize ot) (tsmNextChunk state) of
                 Some expectedBytes \<Rightarrow>
                   if tsmReceivedBytes state \<noteq> expectedBytes
                   then let err = Err ''invalid transfer resume counters''
                        in (Some err, putOutgoing transferID (fail err ot) s)
                   else (None, putOutgoing transferID
                          (ot\<lparr>otAckedBytes := tsmReceivedBytes state, otResumeBytes := tsmReceivedBytes state,
                             otResumeChunk := tsmNextChunk state, otResumeAccepted := True,
                             otResumeDecided := True\<rparr>) s)
               | None \<Rightarrow>
                   let err = Err ''invalid transfer resume counters''
                   in (Some err, putOutgoing transferID (fail err ot) s)))
       else (Some (Err ''invalid transfer state flags''), s))"

definition waitResumeDecision :: "u64 \<Rightarrow> Session \<Rightarrow> (u64 \<times> u32) go option" where
  "waitResumeDecision transferID s =
     (case map_of (sOutgoing s) transferID of
        None \<Rightarrow> Some (Inl (Err ''resumed outgoing transfer is not registered''))
      | Some ot \<Rightarrow>
          if \<not> otResumeDecided ot \<and> otFailed ot = None then None
          else Some (case otFailed ot of Some e \<Rightarrow> Inl e
             | None \<Rightarrow> if \<not> otResumeAccepted ot then Inl (Err ''remote rejected transfer resume'')
                       else Inr (otResumeBytes ot, otResumeChunk ot)))"

section \<open>The monitor\<close>

record outgoingRetryTask =
  rtTransfer :: u64
  rtFrame :: Frame
  rtChunkID :: u32
  rtCommit :: bool

definition nextOutgoingDeadlineLocked :: "outgoingTransfer \<Rightarrow> int option" where
  "nextOutgoingDeadlineLocked ot =
     foldl (\<lambda>next chunk.
         if skAcked chunk then next
         else let deadline = skSentAt chunk + otAckTimeout ot
              in case next of None \<Rightarrow> Some deadline | Some n \<Rightarrow> Some (if deadline < n then deadline else n))
       (if otDoneSending ot \<and> \<not> otCompleted ot
        then map_option (\<lambda>t. t + otAckTimeout ot) (otCommitSentAt ot) else None)
       (otPending ot)"

text \<open>What one pass collects: events, resend tasks, and the time until the next deadline, negative when
  there is none.\<close>

record timeoutPass =
  tpEvents :: "ProtocolEvent list"
  tpTasks :: "outgoingRetryTask list"
  tpNext :: int

definition noteDelay :: "int \<Rightarrow> timeoutPass \<Rightarrow> timeoutPass" where
  "noteDelay delay p = (if tpNext p < 0 \<or> delay < tpNext p then p\<lparr>tpNext := delay\<rparr> else p)"

definition commitTimeout :: "int \<Rightarrow> outgoingTransfer \<times> timeoutPass \<Rightarrow> outgoingTransfer \<times> timeoutPass" where
  "commitTimeout now = (\<lambda>(ot, p).
     case otCommitSentAt ot of None \<Rightarrow> (ot, p)
     | Some sentAt \<Rightarrow>
         if \<not> otDoneSending ot \<or> otCompleted ot then (ot, p)
         else
         let delay = sentAt + otAckTimeout ot - now in
         if delay \<le> 0 then
           if otCommitRetries ot \<ge> otRetryLimit ot then
             let err = Errf ''commit timeout'' [uint (otId ot)]
             in (ot\<lparr>otFailed := Some err\<rparr>,
                 p\<lparr>tpEvents := tpEvents p @ [(newEvent EventAckTimeout (errorText err))\<lparr>peTransferID := otId ot\<rparr>]\<rparr>)
           else (ot\<lparr>otCommitRetries := otCommitRetries ot + 1, otCommitSentAt := Some now\<rparr>,
                 noteDelay (otAckTimeout ot) (p\<lparr>tpTasks := tpTasks p @
                   [\<lparr>rtTransfer = otId ot, rtFrame = otEndFrame ot, rtChunkID = 0, rtCommit = True\<rparr>]\<rparr>))
         else (ot, noteDelay delay p))"

fun chunkTimeouts :: "int \<Rightarrow> outgoingTransfer \<Rightarrow> sentChunk list \<Rightarrow> timeoutPass \<Rightarrow>
    sentChunk list \<times> go_error option \<times> timeoutPass" where
  "chunkTimeouts now ot [] p = ([], None, p)"
| "chunkTimeouts now ot (chunk # rest) p =
     (if skAcked chunk then apfst (\<lambda>r. chunk # r) (chunkTimeouts now ot rest p)
      else
      let delay = skSentAt chunk + otAckTimeout ot - now in
      if delay \<le> 0 then
        if skRetries chunk \<ge> otRetryLimit ot then
          let err = Errf ''ack timeout'' [uint (otId ot), uint (skChunkID chunk)]
          in (chunk # rest, Some err, p\<lparr>tpEvents := tpEvents p @ [(newEvent EventAckTimeout (errorText err))
               \<lparr>peTransferID := otId ot, peChunkID := skChunkID chunk\<rparr>]\<rparr>)
        else apfst (\<lambda>r. chunk\<lparr>skRetries := skRetries chunk + 1, skSentAt := now\<rparr> # r)
          (chunkTimeouts now ot rest (noteDelay (otAckTimeout ot) (p\<lparr>tpTasks := tpTasks p @
             [\<lparr>rtTransfer = otId ot, rtFrame = skFrame chunk, rtChunkID = skChunkID chunk, rtCommit = False\<rparr>]\<rparr>)))
      else apfst (\<lambda>r. chunk # r) (chunkTimeouts now ot rest (noteDelay delay p)))"

definition timeoutTransfer :: "int \<Rightarrow> outgoingTransfer \<Rightarrow> timeoutPass \<Rightarrow> outgoingTransfer \<times> timeoutPass" where
  "timeoutTransfer now ot p =
     (if otFailed ot \<noteq> None \<or> (otDoneSending ot \<and> otPending ot = [] \<and> otCompleted ot) then (ot, p)
      else
      let (ot, p) = commitTimeout now (ot, p) in
      if otFailed ot \<noteq> None then (ot, p)
      else let (pending, failed, p) = chunkTimeouts now ot (otPending ot) p
           in (ot\<lparr>otPending := pending, otFailed := failed\<rparr>, p))"

fun timeoutAll :: "int \<Rightarrow> (u64 \<times> outgoingTransfer) list \<Rightarrow> timeoutPass \<Rightarrow> (u64 \<times> outgoingTransfer) list \<times> timeoutPass" where
  "timeoutAll now [] p = ([], p)"
| "timeoutAll now ((i, ot) # rest) p =
     (let (ot, p) = timeoutTransfer now ot p; (rest, p) = timeoutAll now rest p in ((i, ot) # rest, p))"

definition taskActive :: "outgoingRetryTask \<Rightarrow> outgoingTransfer \<Rightarrow> bool" where
  "taskActive task ot \<longleftrightarrow> otFailed ot = None \<and>
     (if rtCommit task then \<not> otCompleted ot else list_ex (\<lambda>chunk. skChunkID chunk = rtChunkID task) (otPending ot))"

fun runTasks :: "SessionEnv \<Rightarrow> outgoingRetryTask list \<Rightarrow> Session \<Rightarrow> Session" where
  "runTasks env [] s = s"
| "runTasks env (task # tasks) s =
     (case map_of (sOutgoing s) (rtTransfer task) of
        None \<Rightarrow> runTasks env tasks s
      | Some ot \<Rightarrow>
          if \<not> taskActive task ot then runTasks env tasks s
          else
          let s = (if rtCommit task then s
                   else snd (emitEvent ((newEvent EventAckTimeout ''resend chunk after ack timeout'')
                     \<lparr>peTransferID := otId ot, peChunkID := rtChunkID task\<rparr>) s))
          in case send env (rtFrame task) s of
               (Some err, s) \<Rightarrow> runTasks env tasks (case map_of (sOutgoing s) (rtTransfer task) of
                  None \<Rightarrow> s | Some ot \<Rightarrow> putOutgoing (rtTransfer task) (fail err ot) s)
             | (None, s) \<Rightarrow> runTasks env tasks s)"

definition processOutgoingTimeouts :: "SessionEnv \<Rightarrow> int \<Rightarrow> Session \<Rightarrow> int \<times> Session" where
  "processOutgoingTimeouts env now s =
     (let (outgoing, p) = timeoutAll now (sOutgoing s) \<lparr>tpEvents = [], tpTasks = [], tpNext = - 1\<rparr>;
          s = s\<lparr>sOutgoing := outgoing, sEvents := sEvents s @ tpEvents p\<rparr>
      in (tpNext p, runTasks env (tpTasks p) s))"

section \<open>Sending a transfer\<close>

definition EnsureAuthenticatedFor :: "Frame \<Rightarrow> op" where
  "EnsureAuthenticatedFor frame s =
     (if \<not> acRequired (scAuth (sConfig s)) then (None, s)
      else let t = hFrameType (fHeader frame) in
      if t = FrameAuth \<or> t = FrameAuthAccept \<or> t = FrameAuthReject \<or> t = FrameClose then (None, s)
      else if sState s = SessionAuthAccepted \<or> sState s = SessionHelloSent
              \<or> sState s = SessionEstablished \<or> sState s = SessionDraining then (None, s)
      else op_seq (emitEvent ((newEvent EventAuthRequired ''auth required'')\<lparr>peFrameType := t\<rparr>))
             (ret (Some (Errf ''auth required before frame type'' [uint t]))) s)"

text \<open>The loop over the parts: the running sum never exceeds the total.\<close>

fun partsSizeLoop :: "u64 \<Rightarrow> TransferPart list \<Rightarrow> u64 \<Rightarrow> u64 option" where
  "partsSizeLoop totalSize [] partsSize = Some partsSize"
| "partsSizeLoop totalSize (part # parts) partsSize =
     (if tpTotalSize part > totalSize - partsSize then None
      else partsSizeLoop totalSize parts (partsSize + tpTotalSize part))"

definition checkParts :: "u64 \<Rightarrow> TransferPart list \<Rightarrow> go_error option" where
  "checkParts totalSize parts =
     (if parts = [] then None
      else case partsSizeLoop totalSize parts 0 of
        None \<Rightarrow> Some (Err ''transfer part sizes exceed total size'')
      | Some partsSize \<Rightarrow>
          if partsSize \<noteq> totalSize then Some (Err ''transfer part sizes do not match total size'') else None)"

definition firstError :: "go_error option list \<Rightarrow> go_error option" where
  "firstError checks = (case dropWhile (\<lambda>c. c = None) checks of [] \<Rightarrow> None | c # _ \<Rightarrow> c)"

text \<open>The checks of \<open>validateOutgoingTransfer\<close> in their order; the first that fails is the result. The
  authentication check may report an event, so the checks are split around it.\<close>

definition transferRequired :: u64 where
  "transferRequired = CapabilityTransfers OR CapabilityTransferCommit OR CapabilityAck"

definition validateBefore :: "Session \<Rightarrow> go_error option" where
  "validateBefore s = firstError
     [if scCapabilities (sConfig s) AND transferRequired \<noteq> transferRequired
      then Some (Err ''local transfer, commit, and ack capabilities are required'') else None,
      requireRemoteCapability s CapabilityTransfers ''transfers'',
      requireRemoteCapability s CapabilityTransferCommit ''transfer commit'',
      requireRemoteCapability s CapabilityAck ''ack'']"

definition validateAfter :: "Session \<Rightarrow> TransferOptions \<Rightarrow> bool \<Rightarrow> go_error option" where
  "validateAfter s opts requireReader =
     (let flow = scFlowControl (sConfig s); remote = remoteLimits s;
          beginSize = of_nat HeaderSize + transferBeginPayloadSize64 (toName opts) (toEvent opts)
            (toField opts) (toParts opts) (toFields opts) :: u64
      in firstError
     [if toTotalSize opts > fcMaxTransferBytes flow
      then Some (Errf ''transfer exceeds max size'' [uint (toTotalSize opts), uint (fcMaxTransferBytes flow)]) else None,
      if helloMaxTransferBytes remote > 0 \<and> toTotalSize opts > helloMaxTransferBytes remote
      then Some (Errf ''transfer exceeds remote max size'' [uint (toTotalSize opts), uint (helloMaxTransferBytes remote)]) else None,
      if requireReader \<and> \<not> toHasReader opts \<and> \<not> toUseData opts
      then Some (Err ''transfer reader is required'') else None,
      if toChunkSize opts \<le> 0 \<or> toChunkSize opts > fcMaxChunkSize flow
      then Some (Errf ''invalid transfer chunk size'' [toChunkSize opts]) else None,
      if toTotalSize opts > 0 \<and> chunkCountFor (toTotalSize opts) (word_of_int (toChunkSize opts)) = Inr (- 1)
      then Some (Err ''transfer requires too many chunks'') else None,
      if length (toParts opts) > MaxTransferParts \<or> length (toFields opts) > MaxTransferFields
      then Some (Err ''transfer contains too many parts or fields'') else None,
      checkParts (toTotalSize opts) (toParts opts),
      if (toRequestID opts = 0) \<noteq> (toEvent opts = '''')
      then Some (Err ''transfer event and request id must be set together'') else None,
      if toChecksumMode opts \<noteq> 1 then None
      else if toChecksum opts = replicate 32 0
      then Some (Err ''sha256 checksum is required when checksum mode is enabled'')
      else if scCapabilities (sConfig s) AND CapabilityTransferSHA256 = 0
      then Some (Err ''local transfer checksum support is disabled'')
      else requireRemoteCapability s CapabilityTransferSHA256 ''transfer sha256'',
      if beginSize > ucast (plMaxFrameBytes (scPayload (sConfig s)))
      then Some (Errf ''transfer begin exceeds local max frame size'' [uint beginSize]) else None,
      if remoteMaxFrameBytes s > 0 \<and> beginSize > ucast (remoteMaxFrameBytes s)
      then Some (Errf ''frame exceeds remote max size'' [uint beginSize, uint (remoteMaxFrameBytes s)]) else None])"

definition validateOutgoingTransfer :: "TransferOptions \<Rightarrow> bool \<Rightarrow> op" where
  "validateOutgoingTransfer opts requireReader s =
     (case validateBefore s of Some e \<Rightarrow> (Some e, s)
      | None \<Rightarrow> op_try (EnsureAuthenticatedFor (NewFrame FrameTransferBegin 0 []))
          (\<lambda>s. (validateAfter s opts requireReader, s)) s)"

text \<open>\<open>sendTransfer\<close> up to the body: the checks and the announcement.\<close>

definition beginFrame :: "u64 \<Rightarrow> TransferOptions \<Rightarrow> bytes \<Rightarrow> Frame" where
  "beginFrame transferID opts payload =
     (let f = headed FrameTransferBegin SchemaTransferBegin payload PriorityLow ChannelBulk FlagFirst transferID
      in f\<lparr>fHeader := (fHeader f)\<lparr>hRequestID := toRequestID opts\<rparr>\<rparr>)"

definition sendTransfer :: "SessionEnv \<Rightarrow> u64 \<Rightarrow> TransferOptions \<Rightarrow> op" where
  "sendTransfer env transferID opts s =
     (case requireEstablished s ''start transfer'' of Some e \<Rightarrow> (Some e, s)
      | None \<Rightarrow> op_try (validateOutgoingTransfer opts True) (\<lambda>s.
          case outgoingFailure s transferID of Some e \<Rightarrow> (Some e, s)
          | None \<Rightarrow>
            with_result (chunkCountFor (toTotalSize opts) (word_of_int (toChunkSize opts))) (\<lambda>chunkCount.
            with_result (EncodeTransferBeginInto []
              \<lparr>tbTotalSize = toTotalSize opts, tbChunkSize = word_of_int (toChunkSize opts),
               tbChunkCount = chunkCount, tbContentType = toContentType opts,
               tbFlags = checksumFlag (toChecksumMode opts), tbChecksum = toChecksum opts,
               tbName = toName opts, tbEvent = toEvent opts, tbField = toField opts,
               tbIndex = toIndex opts, tbParts = toParts opts, tbFields = toFields opts\<rparr>) (\<lambda>payload.
              send env (beginFrame transferID opts payload))) s) s)"

text \<open>One iteration of the loop in \<open>sendTransferBody\<close>. \<open>bsRest\<close> is what the reader has still to give; a
  reader that ends early fails the transfer. Reading comes before the wait for the window, so an
  iteration that is blocked keeps its bytes.\<close>

record bodyState =
  bsWritten :: u64
  bsChunkID :: u32
  bsRest :: bytes

datatype bodyResult = BodyBlocked | BodyMore | BodyEnd | BodyFailed go_error

definition bodyProgress :: "u64 \<Rightarrow> TransferOptions \<Rightarrow> bodyState \<Rightarrow> TransferState \<Rightarrow> Progress" where
  "bodyProgress transferID opts b state =
     \<lparr>pgTransferID = transferID, pgTotalBytes = toTotalSize opts, pgLocalWrittenBytes = bsWritten b,
      pgRemoteAckedBytes = 0, pgSentChunks = bsChunkID b, pgAckedChunks = 0, pgState = state\<rparr>"

definition dataFrame :: "u64 \<Rightarrow> u64 \<Rightarrow> u32 \<Rightarrow> bool \<Rightarrow> bytes \<Rightarrow> Frame" where
  "dataFrame transferID requestID chunkID isLast payload =
     (let f = headed FrameData 0 payload PriorityLow ChannelBulk
                (FlagAckRequest OR (if chunkID = 0 then FlagFirst else 0) OR (if isLast then FlagLast else 0)) transferID
      in f\<lparr>fHeader := (fHeader f)\<lparr>hRequestID := requestID, hChunkID := chunkID\<rparr>\<rparr>)"

definition bodyStep :: "SessionEnv \<Rightarrow> int \<Rightarrow> go_error option \<Rightarrow> u64 \<Rightarrow> TransferOptions \<Rightarrow> bodyState \<Rightarrow> Session
    \<Rightarrow> bodyResult \<times> bodyState \<times> Session" where
  "bodyStep env now ctxErr transferID opts b s =
     (case ctxErr of
        Some e \<Rightarrow> (BodyFailed e, b, snd (emitProgress (bodyProgress transferID opts b TransferCanceling) s))
      | None \<Rightarrow>
          if bsWritten b \<ge> toTotalSize opts then (BodyEnd, b, s)
          else
          let remaining = toTotalSize opts - bsWritten b;
              n = (if remaining < word_of_int (toChunkSize opts) then uint remaining else toChunkSize opts);
              payload = take (nat n) (bsRest b)
          in if int (length (bsRest b)) < n
             then (BodyFailed (Errf ''transfer reader ended early''
                    [uint (bsWritten b) + int (length (bsRest b)), uint (toTotalSize opts)]), b, s)
             else
             let written = bsWritten b + word_of_int n;
                 frame = dataFrame transferID (toRequestID opts) (bsChunkID b) (written \<ge> toTotalSize opts) payload
             in case sendReliableChunk env now transferID frame (word_of_int n) s of
                  (Blocked, s) \<Rightarrow> (BodyBlocked, b, s)
                | (Done (Some e), s) \<Rightarrow> (BodyFailed e, b, s)
                | (Done None, s) \<Rightarrow>
                    let b = \<lparr>bsWritten = written, bsChunkID = bsChunkID b + 1, bsRest = drop (nat n) (bsRest b)\<rparr>
                    in (BodyMore, b, snd (emitProgress (bodyProgress transferID opts b TransferSending) s)))"

text \<open>After the loop: the end frame, which the monitor resends until the peer confirms.\<close>

definition endFrame :: "u64 \<Rightarrow> TransferOptions \<Rightarrow> Frame" where
  "endFrame transferID opts =
     (let f = headed FrameTransferEnd 0 [] PriorityLow ChannelBulk FlagLast transferID
      in f\<lparr>fHeader := (fHeader f)\<lparr>hRequestID := toRequestID opts\<rparr>\<rparr>)"

definition sendEnd :: "SessionEnv \<Rightarrow> int \<Rightarrow> u64 \<Rightarrow> TransferOptions \<Rightarrow> op" where
  "sendEnd env now transferID opts s =
     (let end' = endFrame transferID opts;
          s = (case map_of (sOutgoing s) transferID of None \<Rightarrow> s
               | Some ot \<Rightarrow> putOutgoing transferID
                   (ot\<lparr>otDoneSending := True, otEndFrame := end', otCommitSentAt := Some now\<rparr>) s)
      in send env end' s)"

end
