(* ===== verification/Etp_Incoming.thy ===== *)
theory Etp_Incoming
  imports Etp_Outgoing
begin

text \<open>
  Incoming transfers, \<open>internal/etp/incoming.go\<close>: announcing, opening, receiving and writing chunks, the
  receive budget, the window advertised to the peer, the end of a transfer with its checksum and
  commit, resuming, cancelling, and the memory of finished transfers. Every transfer has a
  goroutine that takes chunks from a bounded queue and writes them; its steps are \<open>takeChunk\<close>,
  \<open>writeIncomingChunk\<close> and \<open>finishTransfer\<close>, which may run between any two operations of the
  session. What application code does (opening, writing, closing, resuming) and when contexts
  expire is a parameter.
\<close>

section \<open>What application code does\<close>

datatype openOutcome =
    OpenTimeout go_error
  | OpenLate go_error bool
  | OpenFailed go_error
  | OpenNil
  | OpenReady

datatype closeOutcome = CloseReturned "go_error option" | CloseTimedOut go_error

record TransferResumeDecision =
  rdAccepted :: bool
  rdMeta :: TransferBegin
  rdWriter :: bool
  rdReceivedBytes :: u64
  rdNextChunk :: u32
  rdHash :: "bytes option"
  rdReasonCode :: u16

datatype resumeOutcome =
    ResumeTimedOut go_error
  | ResumeLate go_error bool
  | ResumeReturned TransferResumeDecision "go_error option"

text \<open>\<open>teWait\<close> is the error when the context ends before the goroutine of a transfer does.\<close>

record TransferEnv = SessionEnv +
  teOpen :: "(IncomingTransferInfo \<Rightarrow> openOutcome) option"
  teWrite :: "u64 \<Rightarrow> Frame \<Rightarrow> nat \<times> go_error option"
  teWait :: "go_error option"
  teClose :: "u64 \<Rightarrow> closeOutcome"
  teResume :: "(TransferResume \<Rightarrow> resumeOutcome) option"
  teSha256 :: "bytes \<Rightarrow> bytes"

abbreviation sendEnv :: "TransferEnv \<Rightarrow> SessionEnv" where
  "sendEnv \<equiv> SessionEnv.truncate"

section \<open>Transfers and their budget\<close>

definition newIncomingTransfer :: "Session \<Rightarrow> TransferBegin \<Rightarrow> bytes option \<Rightarrow> incomingTransfer" where
  "newIncomingTransfer s meta hash =
     (let queueSize = fcMaxInFlightChunks (scFlowControl (sConfig s));
          queueSize = (if queueSize \<le> 0 then 1 else queueSize)
      in \<lparr>incMeta = meta, incReceivedBytes = 0, incAcceptedBytes = 0, incFirstChunk = 0, incLastChunk = 0,
          incNextChunk = 0, incAcceptedNextChunk = 0, incHash = hash, incQueue = [],
          incQueueCap = nat queueSize, incFailed = None, incAccepting = True, incEnding = False,
          incFlowBlocked = False, incSuspendOnFailure = False, incCanceled = False, incDone = False,
          incWriting = None, incWritten = []\<rparr>)"

definition lookupIncoming :: "Session \<Rightarrow> u64 \<Rightarrow> incomingTransfer option" where
  "lookupIncoming s transferID = map_of (sIncoming s) transferID"

definition putIncoming :: "u64 \<Rightarrow> incomingTransfer \<Rightarrow> Session \<Rightarrow> Session" where
  "putIncoming transferID tr s = s\<lparr>sIncoming := AList.update transferID tr (sIncoming s)\<rparr>"

text \<open>Removing a transfer from the map; its goroutine goes on until it is done.\<close>

definition removeIncoming :: "u64 \<Rightarrow> Session \<Rightarrow> Session" where
  "removeIncoming transferID s =
     (case map_of (sIncoming s) transferID of
        None \<Rightarrow> s
      | Some tr \<Rightarrow> s\<lparr>sIncoming := AList.delete transferID (sIncoming s),
                     sDetached := (if incDone tr then sDetached s else (transferID, tr) # sDetached s)\<rparr>)"

definition removeOpening :: "u64 \<Rightarrow> Session \<Rightarrow> Session" where
  "removeOpening transferID s = s\<lparr>sOpening := removeAll transferID (sOpening s)\<rparr>"

definition logWriter :: "u64 \<Rightarrow> writerEnd \<Rightarrow> Session \<Rightarrow> Session" where
  "logWriter transferID e s = s\<lparr>sWriterLog := sWriterLog s @ [(transferID, e)]\<rparr>"

definition failIncoming :: "go_error \<Rightarrow> incomingTransfer \<Rightarrow> incomingTransfer" where
  "failIncoming err tr = (if incFailed tr = None then tr\<lparr>incFailed := Some err\<rparr> else tr)"

definition closeQueue :: "incomingTransfer \<Rightarrow> incomingTransfer" where
  "closeQueue tr = tr\<lparr>incAccepting := False\<rparr>"

definition stop :: "go_error \<Rightarrow> incomingTransfer \<Rightarrow> incomingTransfer" where
  "stop err tr = closeQueue ((failIncoming err tr)\<lparr>incCanceled := True\<rparr>)"

definition suspend :: "go_error \<Rightarrow> incomingTransfer \<Rightarrow> incomingTransfer" where
  "suspend err tr = closeQueue ((failIncoming err (tr\<lparr>incSuspendOnFailure := True\<rparr>))\<lparr>incCanceled := True\<rparr>)"

definition reserveReceiveBytes :: "u64 \<Rightarrow> Session \<Rightarrow> bool \<times> Session" where
  "reserveReceiveBytes n s =
     (let limit = fcMaxReceiveBufferBytes (scFlowControl (sConfig s)); current = sReceiveBytes s
      in if limit > 0 \<and> (current > limit \<or> n > limit - current) then (False, s)
         else (True, s\<lparr>sReceiveBytes := current + n\<rparr>))"

definition releaseReceiveBytes :: "u64 \<Rightarrow> Session \<Rightarrow> Session" where
  "releaseReceiveBytes n s =
     s\<lparr>sReceiveBytes := (if sReceiveBytes s > n then sReceiveBytes s - n else 0)\<rparr>"

definition releaseIncomingChunk :: "Frame \<Rightarrow> Session \<Rightarrow> Session" where
  "releaseIncomingChunk chunk s = releaseReceiveBytes (of_nat (length (fPayload chunk))) s"

section \<open>Windows\<close>

definition windowFor :: "Session \<Rightarrow> u64 \<Rightarrow> Window" where
  "windowFor s transferID =
     (let flow = scFlowControl (sConfig s);
          available = (if sReceiveBytes s < fcMaxReceiveBufferBytes flow
                       then fcMaxReceiveBufferBytes flow - sReceiveBytes s else 0);
          windowBytes = fcMaxInFlightBytes flow;
          windowBytes = (if windowBytes = 0 \<or> windowBytes > available then available else windowBytes)
      in \<lparr>winTransferID = transferID, winWindowBytes = windowBytes,
          winWindowChunks = (case lookupIncoming s transferID of
             None \<Rightarrow> word_of_int (fcMaxInFlightChunks flow)
           | Some tr \<Rightarrow> word_of_int (int (incQueueCap tr) - int (length (incQueue tr)))),
          winFlags = WindowFlagTransfer\<rparr>)"

definition sendIncomingWindow :: "SessionEnv \<Rightarrow> u64 \<Rightarrow> op" where
  "sendIncomingWindow env transferID s =
     (if \<not> RemoteSupports s CapabilityFlowControl then (None, s)
      else
      let window = windowFor s transferID;
          s = (case lookupIncoming s transferID of None \<Rightarrow> s
               | Some tr \<Rightarrow> putIncoming transferID (tr\<lparr>incFlowBlocked :=
                   (winWindowBytes window = 0 \<or> length (incQueue tr) = incQueueCap tr)\<rparr>) s)
      in SendWindow env window s)"

definition blockedTransfers :: "u64 \<Rightarrow> Session \<Rightarrow> u64 list" where
  "blockedTransfers excluded s =
     map fst (filter (\<lambda>(i, tr). i \<noteq> excluded \<and> incFlowBlocked tr) (sIncoming s))"

definition notifyBlockedWindows :: "SessionEnv \<Rightarrow> u64 \<Rightarrow> Session \<Rightarrow> Session" where
  "notifyBlockedWindows env excluded s =
     foldl (\<lambda>s i. snd (sendIncomingWindow env i s)) s (blockedTransfers excluded s)"

section \<open>Receiving chunks\<close>

text \<open>What the handler does with a chunk, from the counters of the transfer alone. The size a chunk must
  have is the announced chunk size, less for the last one.\<close>

datatype dataVerdict =
    DataFail go_error
  | DataNack u32 u32 u16
  | DataAck u32 u32 u64
  | DataIgnore
  | DataTake

definition expectedChunkSize :: "TransferBegin \<Rightarrow> u32 \<Rightarrow> u32" where
  "expectedChunkSize meta chunkID =
     (if chunkID + 1 = tbChunkCount meta
      then ucast (tbTotalSize meta - ucast chunkID * ucast (tbChunkSize meta))
      else tbChunkSize meta)"

definition classifyChunk :: "Frame \<Rightarrow> incomingTransfer \<Rightarrow> dataVerdict" where
  "classifyChunk frame tr =
     (let chunkID = hChunkID (fHeader frame);
          size' = of_nat (length (fPayload frame)) :: u32
      in case incFailed tr of Some err \<Rightarrow> DataFail err
      | None \<Rightarrow>
          if \<not> incAccepting tr then DataNack chunkID chunkID NackTransferCanceled
          else if chunkID < incNextChunk tr
          then DataAck (incFirstChunk tr) (incLastChunk tr) (incReceivedBytes tr)
          else if chunkID < incAcceptedNextChunk tr then DataIgnore
          else if chunkID > incAcceptedNextChunk tr
          then DataNack (incAcceptedNextChunk tr) (chunkID - 1) NackMissingChunk
          else if chunkID \<ge> tbChunkCount (incMeta tr) \<or> size' > tbChunkSize (incMeta tr)
          then DataNack chunkID chunkID NackInvalidChunk
          else if size' \<noteq> expectedChunkSize (incMeta tr) chunkID
          then DataNack chunkID chunkID NackInvalidChunk
          else DataTake)"

definition acceptChunk :: "Frame \<Rightarrow> incomingTransfer \<Rightarrow> incomingTransfer" where
  "acceptChunk frame tr =
     tr\<lparr>incQueue := incQueue tr @ [frame],
        incAcceptedBytes := incAcceptedBytes tr + of_nat (length (fPayload frame)),
        incAcceptedNextChunk := incAcceptedNextChunk tr + 1\<rparr>"

definition handleIncomingTransferData :: "SessionEnv \<Rightarrow> Frame \<Rightarrow> op" where
  "handleIncomingTransferData env frame s =
     (let transferID = hTransferID (fHeader frame);
          chunkID = hChunkID (fHeader frame);
          n = of_nat (length (fPayload frame))
      in
      if transferID = 0 \<or> fPayload frame = []
      then sendNack env transferID chunkID chunkID NackInvalidChunk s
      else case lookupIncoming s transferID of
        None \<Rightarrow> sendNack env transferID chunkID chunkID NackTransferUnknown s
      | Some tr \<Rightarrow>
          (case classifyChunk frame tr of
             DataFail err \<Rightarrow> (Some err, s)
           | DataNack from to reason \<Rightarrow> sendNack env transferID from to reason s
           | DataAck from to received \<Rightarrow> sendAck env transferID from to received s
           | DataIgnore \<Rightarrow> (None, s)
           | DataTake \<Rightarrow>
               let (reserved, s) = reserveReceiveBytes n s in
               if \<not> reserved
               then sendNack env transferID chunkID chunkID NackFlowControl
                      (putIncoming transferID (tr\<lparr>incFlowBlocked := True\<rparr>) s)
               else if length (incQueue tr) < incQueueCap tr
               then (None, putIncoming transferID (acceptChunk frame tr) s)
               else sendNack env transferID chunkID chunkID NackFlowControl
                      (putIncoming transferID (tr\<lparr>incFlowBlocked := True\<rparr>) (releaseReceiveBytes n s))))"

section \<open>The goroutine of a transfer\<close>

text \<open>A goroutine holds a pointer to its transfer: to the one in the map under an identifier, or to one
  that was removed from the map. A resumed transfer may have the identifier of a removed one.\<close>

datatype goroutine = Mapped u64 | Detached nat

fun findTransfer :: "goroutine \<Rightarrow> Session \<Rightarrow> (u64 \<times> incomingTransfer) option" where
  "findTransfer (Mapped transferID) s = map_option (Pair transferID) (map_of (sIncoming s) transferID)"
| "findTransfer (Detached k) s = (if k < length (sDetached s) then Some (sDetached s ! k) else None)"

fun storeTransfer :: "goroutine \<Rightarrow> incomingTransfer \<Rightarrow> Session \<Rightarrow> Session" where
  "storeTransfer (Mapped transferID) tr s = putIncoming transferID tr s"
| "storeTransfer (Detached k) tr s = s\<lparr>sDetached := (sDetached s)[k := (fst (sDetached s ! k), tr)]\<rparr>"

text \<open>Receiving from the queue: a failed transfer releases its chunks, another starts to write.\<close>

definition takeChunk :: "goroutine \<Rightarrow> Session \<Rightarrow> Session" where
  "takeChunk g s =
     (case findTransfer g s of None \<Rightarrow> s
      | Some (_, tr) \<Rightarrow>
          (case (incWriting tr, incQueue tr) of
             (None, chunk # queue) \<Rightarrow>
               if incFailed tr \<noteq> None
               then releaseIncomingChunk chunk (storeTransfer g (tr\<lparr>incQueue := queue\<rparr>) s)
               else storeTransfer g (tr\<lparr>incQueue := queue, incWriting := Some chunk\<rparr>) s
           | _ \<Rightarrow> s))"

text \<open>After the write returned. The counters move only when the transfer has not failed meanwhile.\<close>

definition countChunk :: "Frame \<Rightarrow> incomingTransfer \<Rightarrow> incomingTransfer" where
  "countChunk chunk tr =
     tr\<lparr>incHash := map_option (\<lambda>h. h @ fPayload chunk) (incHash tr),
        incFirstChunk := (if incReceivedBytes tr = 0 then hChunkID (fHeader chunk) else incFirstChunk tr),
        incLastChunk := hChunkID (fHeader chunk),
        incNextChunk := hChunkID (fHeader chunk) + 1,
        incReceivedBytes := incReceivedBytes tr + of_nat (length (fPayload chunk))\<rparr>"

definition writeIncomingChunk :: "TransferEnv \<Rightarrow> goroutine \<Rightarrow> Session \<Rightarrow> Session" where
  "writeIncomingChunk te g s =
     (case findTransfer g s of None \<Rightarrow> s
      | Some (transferID, tr) \<Rightarrow>
     (case incWriting tr of None \<Rightarrow> s
      | Some chunk \<Rightarrow>
          let env = sendEnv te; h = fHeader chunk;
              (n, err) = teWrite te transferID chunk;
              tr = tr\<lparr>incWriting := None, incWritten := incWritten tr @ take n (fPayload chunk)\<rparr>;
              failure = (case err of Some e \<Rightarrow> Some e
                         | None \<Rightarrow> if n \<noteq> length (fPayload chunk) then Some (Err ''short write'') else None)
          in case failure of
               Some e \<Rightarrow>
                 let s = releaseIncomingChunk chunk (storeTransfer g tr s);
                     s = notifyBlockedWindows env transferID s;
                     s = (case findTransfer g s of None \<Rightarrow> s
                          | Some (_, tr) \<Rightarrow> storeTransfer g (stop e tr) s)
                 in snd (sendNack env (hTransferID h) (hChunkID h) (hChunkID h) NackWriteFailed s)
             | None \<Rightarrow>
                 if incFailed tr \<noteq> None
                 then notifyBlockedWindows env transferID
                        (releaseIncomingChunk chunk (storeTransfer g tr s))
                 else
                   let tr = countChunk chunk tr;
                       s = releaseIncomingChunk chunk (storeTransfer g tr s);
                       s = (if hFlags h AND FlagAckRequest \<noteq> 0
                            then snd (sendAck env (hTransferID h) (incFirstChunk tr) (incLastChunk tr)
                                   (incReceivedBytes tr) s)
                            else s);
                       s = snd (sendIncomingWindow env transferID s);
                       s = notifyBlockedWindows env transferID s
                   in snd (emitProgress \<lparr>pgTransferID = transferID, pgTotalBytes = tbTotalSize (incMeta tr),
                             pgLocalWrittenBytes = incReceivedBytes tr, pgRemoteAckedBytes = 0,
                             pgSentChunks = incNextChunk tr, pgAckedChunks = 0, pgState = TransferSending\<rparr> s)))"

text \<open>The queue is closed and empty: a failed transfer's writer is aborted or suspended.\<close>

definition finishTransfer :: "goroutine \<Rightarrow> Session \<Rightarrow> Session" where
  "finishTransfer g s =
     (case findTransfer g s of None \<Rightarrow> s
      | Some (transferID, tr) \<Rightarrow>
          if incAccepting tr \<or> incQueue tr \<noteq> [] \<or> incWriting tr \<noteq> None \<or> incDone tr then s
          else
          let s = (if incFailed tr = None then s
                   else logWriter transferID (if incSuspendOnFailure tr then WriterSuspended else WriterAborted) s);
              tr = tr\<lparr>incDone := True\<rparr>
          in (case g of
                Mapped _ \<Rightarrow> putIncoming transferID tr s
              | Detached k \<Rightarrow> s\<lparr>sDetached := take k (sDetached s) @ drop (Suc k) (sDetached s)\<rparr>))"

section \<open>Finished transfers\<close>

definition removeCompletedIDLocked :: "u64 \<Rightarrow> Session \<Rightarrow> Session" where
  "removeCompletedIDLocked transferID s = s\<lparr>sCompletedIDs := filter (\<lambda>i. i \<noteq> transferID) (sCompletedIDs s)\<rparr>"

text \<open>\<open>for len(s.completedIDs) > max\<close>: the oldest identifiers go, with their entries.\<close>

fun evictCompleted :: "int \<Rightarrow> u64 list \<Rightarrow> (u64 \<times> completedTransfer) list \<Rightarrow> u64 list \<times> (u64 \<times> completedTransfer) list" where
  "evictCompleted limit [] completed = ([], completed)"
| "evictCompleted limit (oldest # ids) completed =
     (if int (length (oldest # ids)) > limit then evictCompleted limit ids (AList.delete oldest completed)
      else (oldest # ids, completed))"

definition rememberTransferState :: "int \<Rightarrow> TransferStateMessage \<Rightarrow> Session \<Rightarrow> Session" where
  "rememberTransferState now state s =
     (let flow = scFlowControl (sConfig s);
          s = (if map_of (sCompleted s) (tsmTransferID state) = None
               then let s = removeCompletedIDLocked (tsmTransferID state) s
                    in s\<lparr>sCompletedIDs := sCompletedIDs s @ [tsmTransferID state]\<rparr>
               else s);
          completed = AList.update (tsmTransferID state)
            \<lparr>ctState = state, ctExpiresAt = now + fcCompletedTransferTTL flow\<rparr> (sCompleted s);
          (ids, completed) = evictCompleted (fcMaxCompletedTransfers flow) (sCompletedIDs s) completed
      in s\<lparr>sCompletedIDs := ids, sCompleted := completed\<rparr>)"

definition lookupCompleted :: "int \<Rightarrow> u64 \<Rightarrow> Session \<Rightarrow> TransferStateMessage option \<times> Session" where
  "lookupCompleted now transferID s =
     (case map_of (sCompleted s) transferID of
        None \<Rightarrow> (None, s)
      | Some c \<Rightarrow>
          if now > ctExpiresAt c
          then (None, removeCompletedIDLocked transferID
                  (s\<lparr>sCompleted := AList.delete transferID (sCompleted s)\<rparr>))
          else (Some (ctState c), s))"

definition cleanupIncoming :: "string \<Rightarrow> bool \<Rightarrow> Session \<Rightarrow> Session" where
  "cleanupIncoming reason preserveForResume s =
     (let ended = map (\<lambda>(i, tr). (i, if preserveForResume then suspend (Err reason) tr else stop (Err reason) tr)) (sIncoming s)
      in s\<lparr>sIncoming := [],
           sDetached := filter (\<lambda>(i, tr). \<not> incDone tr) ended @ sDetached s,
           sEvents := sEvents s @ map (\<lambda>(i, tr). (newEvent EventTransferFailed reason)\<lparr>peTransferID := i\<rparr>) ended\<rparr>)"

section \<open>Opening\<close>

text \<open>The checks on an announcement, in their order; every failure is answered with a negative
  acknowledgement.\<close>

definition checkBegin :: "Session \<Rightarrow> Frame \<Rightarrow> TransferBegin \<Rightarrow> bool \<Rightarrow> go_error option" where
  "checkBegin s frame meta hasHandler =
     (let flow = scFlowControl (sConfig s) in
      if tbTotalSize meta > fcMaxTransferBytes flow
      then Some (Errf ''incoming transfer exceeds max size'' [uint (tbTotalSize meta), uint (fcMaxTransferBytes flow)])
      else if tbChunkSize meta = 0 \<or> tbChunkSize meta > word_of_int (fcMaxChunkSize flow)
      then Some (Errf ''invalid incoming chunk size'' [uint (tbChunkSize meta)])
      else if chunkCountFor (tbTotalSize meta) (tbChunkSize meta) \<noteq> Inr (tbChunkCount meta)
      then Some (Errf ''invalid incoming chunk count'' [uint (tbChunkCount meta)])
      else if tbFlags meta AND NOT TransferFlagChecksumSHA256 \<noteq> 0
      then Some (Errf ''unsupported incoming transfer flags'' [uint (tbFlags meta)])
      else if tbFlags meta AND TransferFlagChecksumSHA256 \<noteq> 0 \<and> \<not> RemoteSupports s CapabilityTransferSHA256
      then Some (Err ''incoming checksum was not negotiated'')
      else case checkParts (tbTotalSize meta) (tbParts meta) of Some e \<Rightarrow> Some e
      | None \<Rightarrow>
          if (hRequestID (fHeader frame) = 0) \<noteq> (tbEvent meta = '''')
          then Some (Err ''transfer event and request id must be set together'')
          else if \<not> hasHandler then Some (Err ''incoming transfer handler is not configured'')
          else None)"

definition checkSlot :: "Session \<Rightarrow> u64 \<Rightarrow> go_error option" where
  "checkSlot s transferID =
     (if transferID \<le> sLastIncoming s
      then Some (Errf ''incoming transfer id is not increasing'' [uint transferID, uint (sLastIncoming s)])
      else if int (length (sIncoming s) + length (sOpening s)) \<ge> fcMaxConcurrentTransfers (scFlowControl (sConfig s))
      then Some (Errf ''too many incoming transfers'' [fcMaxConcurrentTransfers (scFlowControl (sConfig s))])
      else if map_of (sIncoming s) transferID \<noteq> None \<or> transferID \<in> set (sOpening s)
      then Some (Errf ''duplicate incoming transfer id'' [uint transferID])
      else None)"

text \<open>\<open>openIncomingTransfer\<close> with the outcome of the application's handler. A handler that is still running
  when the context ends keeps the slot until it returns (\<open>openReturned\<close>).\<close>

definition openIncomingTransfer :: "TransferEnv \<Rightarrow> openOutcome \<Rightarrow> IncomingTransferInfo \<Rightarrow> op" where
  "openIncomingTransfer te outcome info s =
     (let i = iiTransferID info; env = sendEnv te;
          refuse = (\<lambda>e s. (Some e, snd (sendNack env i 0 0 NackWriteFailed s)))
      in case outcome of
           OpenTimeout e \<Rightarrow> refuse e s
         | OpenLate e hasWriter \<Rightarrow>
             refuse e (removeOpening i (if hasWriter then logWriter i WriterAborted s else s))
         | OpenFailed e \<Rightarrow> refuse e (removeOpening i s)
         | OpenNil \<Rightarrow> refuse (Err ''incoming transfer handler returned nil writer'') (removeOpening i s)
         | OpenReady \<Rightarrow>
             let hash = (if tbFlags (iiMeta info) AND TransferFlagChecksumSHA256 \<noteq> 0 then Some [] else None);
                 tr = newIncomingTransfer s (iiMeta info) hash;
                 s = removeOpening i s
             in if sState s \<noteq> SessionEstablished \<and> sState s \<noteq> SessionDraining
                then (Some (Err ''session closed while opening transfer''), logWriter i WriterAborted s)
                else
                  let s = putIncoming i tr s
                  in case sendIncomingWindow env i s of
                       (None, s) \<Rightarrow> (None, s)
                     | (Some e, s) \<Rightarrow>
                         (Some e, removeIncoming i (case lookupIncoming s i of None \<Rightarrow> s
                                    | Some tr \<Rightarrow> putIncoming i (stop e tr) s)))"

definition openReturned :: "u64 \<Rightarrow> bool \<Rightarrow> Session \<Rightarrow> Session" where
  "openReturned transferID hasWriter s =
     removeOpening transferID (if hasWriter then logWriter transferID WriterAborted s else s)"

definition handleIncomingTransferBegin :: "TransferEnv \<Rightarrow> Frame \<Rightarrow> op" where
  "handleIncomingTransferBegin te frame s =
     (let i = hTransferID (fHeader frame); env = sendEnv te;
          refuse = (\<lambda>e s. (Some e, snd (sendNack env i 0 0 NackProtocolError s)))
      in if i = 0 then (Some (Err ''incoming transfer id is required''), s)
      else if scCapabilities (sConfig s) AND CapabilityTransferCommit = 0 \<or> \<not> RemoteSupports s CapabilityTransferCommit
      then refuse (Err ''transfer commit was not negotiated'') s
      else case DecodeTransferBegin (fPayload frame) of Inl e \<Rightarrow> refuse e s
      | Inr meta \<Rightarrow>
          (case checkBegin s frame meta (teOpen te \<noteq> None) of Some e \<Rightarrow> refuse e s
           | None \<Rightarrow>
          (case checkSlot s i of Some e \<Rightarrow> refuse e s
           | None \<Rightarrow>
               let s = s\<lparr>sLastIncoming := i, sOpening := i # sOpening s\<rparr>;
                   info = \<lparr>iiTransferID = i, iiRequestID = hRequestID (fHeader frame), iiMeta = meta\<rparr>
               in if sRunning s \<and> helloMaxInFlightChunks (remoteLimits s) > 0
                  then (None, s\<lparr>sOpens := info # sOpens s\<rparr>)
                  else openIncomingTransfer te (the (teOpen te) info) info s)))"

text \<open>The goroutine that opens a transfer; an error becomes an event.\<close>

definition runOpen :: "TransferEnv \<Rightarrow> openOutcome \<Rightarrow> IncomingTransferInfo \<Rightarrow> Session \<Rightarrow> Session" where
  "runOpen te outcome info s =
     (let s = s\<lparr>sOpens := remove1 info (sOpens s)\<rparr>
      in case openIncomingTransfer te outcome info s of
           (None, s) \<Rightarrow> s
         | (Some e, s) \<Rightarrow> snd (emitEvent ((newEvent EventTransferFailed (errorText e))
             \<lparr>peFrameType := FrameTransferBegin, peTransferID := iiTransferID info\<rparr>) s))"

section \<open>The end of a transfer\<close>

definition stateMessage :: "u64 \<Rightarrow> incomingTransfer \<Rightarrow> u16 \<Rightarrow> u16 \<Rightarrow> TransferStateMessage" where
  "stateMessage transferID tr flags reason =
     \<lparr>tsmTransferID = transferID, tsmReceivedBytes = incReceivedBytes tr, tsmNextChunk = incNextChunk tr,
      tsmFlags = flags, tsmReasonCode = reason\<rparr>"

definition sendTransferFailed :: "SessionEnv \<Rightarrow> u64 \<Rightarrow> incomingTransfer \<Rightarrow> u16 \<Rightarrow> op" where
  "sendTransferFailed env transferID tr reason =
     SendTransferState env (stateMessage transferID tr TransferStateFlagFailed reason)"

text \<open>Waiting for the goroutine lets it write what is queued: one round finishes the chunk being written
  and takes the next.\<close>

fun drainTransfer :: "TransferEnv \<Rightarrow> u64 \<Rightarrow> nat \<Rightarrow> Session \<Rightarrow> Session" where
  "drainTransfer te transferID 0 s = finishTransfer (Mapped transferID) s"
| "drainTransfer te transferID (Suc n) s =
     drainTransfer te transferID n (takeChunk (Mapped transferID) (writeIncomingChunk te (Mapped transferID) s))"

text \<open>A transfer that ends badly: its state is remembered and sent, and the last chunks are refused.\<close>

definition endFailed :: "SessionEnv \<Rightarrow> int \<Rightarrow> u64 \<Rightarrow> incomingTransfer \<Rightarrow> u16 \<Rightarrow> op" where
  "endFailed env now transferID tr reason s =
     (let s = rememberTransferState now (stateMessage transferID tr TransferStateFlagFailed reason) s;
          s = snd (sendTransferFailed env transferID tr reason s)
      in sendNack env transferID (incFirstChunk tr) (incLastChunk tr) reason s)"

text \<open>After the goroutine is done: the write result, the byte count, the checksum, the commit.\<close>

definition commitTransfer :: "TransferEnv \<Rightarrow> int \<Rightarrow> Frame \<Rightarrow> incomingTransfer \<Rightarrow> op" where
  "commitTransfer te now frame tr s =
     (let i = hTransferID (fHeader frame); env = sendEnv te; meta = incMeta tr in
      if incFailed tr \<noteq> None then endFailed env now i tr NackWriteFailed (removeIncoming i s)
      else if tbTotalSize meta > 0 \<and> incReceivedBytes tr \<noteq> tbTotalSize meta
      then endFailed env now i tr NackInvalidChunk (logWriter i WriterAborted (removeIncoming i s))
      else if (case incHash tr of None \<Rightarrow> False | Some h \<Rightarrow> teSha256 te h \<noteq> tbChecksum meta)
      then let s = snd (emitEvent ((newEvent EventChecksumMismatch ''transfer checksum mismatch'')
                     \<lparr>peFrameType := hFrameType (fHeader frame), peTransferID := i\<rparr>) s)
           in endFailed env now i tr NackInvalidChunk (logWriter i WriterAborted (removeIncoming i s))
      else case teClose te i of
             CloseTimedOut e \<Rightarrow>
               endFailed env now i tr NackWriteFailed (putIncoming i (failIncoming e tr) s)
           | CloseReturned (Some e) \<Rightarrow> endFailed env now i tr NackWriteFailed (removeIncoming i s)
           | CloseReturned None \<Rightarrow>
               let s = logWriter i WriterClosed (removeIncoming i s);
                   state = stateMessage i tr TransferStateFlagCompleted 0;
                   s = rememberTransferState now state s;
                   s = snd (emitProgress \<lparr>pgTransferID = i, pgTotalBytes = tbTotalSize meta,
                         pgLocalWrittenBytes = incReceivedBytes tr, pgRemoteAckedBytes = 0,
                         pgSentChunks = incNextChunk tr, pgAckedChunks = 0, pgState = TransferCompleted\<rparr> s)
               in SendTransferState env state s)"

text \<open>After a commit that timed out, once the writer's close has returned.\<close>

definition commitReturned :: "u64 \<Rightarrow> Session \<Rightarrow> Session" where
  "commitReturned transferID s = removeIncoming transferID (logWriter transferID WriterAborted s)"

definition handleIncomingTransferEnd :: "TransferEnv \<Rightarrow> int \<Rightarrow> Frame \<Rightarrow> op" where
  "handleIncomingTransferEnd te now frame s =
     (let i = hTransferID (fHeader frame); chunkID = hChunkID (fHeader frame); env = sendEnv te in
      case lookupIncoming s i of
        None \<Rightarrow>
          (case lookupCompleted now i s of
             (Some state, s) \<Rightarrow> SendTransferState env state s
           | (None, s) \<Rightarrow> sendNack env i chunkID chunkID NackTransferUnknown s)
      | Some tr \<Rightarrow>
          let completeInput = (incAcceptedBytes tr = tbTotalSize (incMeta tr)
                               \<and> incAcceptedNextChunk tr = tbChunkCount (incMeta tr)) in
          if \<not> completeInput
          then sendNack env i (incAcceptedNextChunk tr) (tbChunkCount (incMeta tr) - 1) NackMissingChunk s
          else if incEnding tr
          then (case teWait te of Some e \<Rightarrow> (Some e, s)
                | None \<Rightarrow>
                    (case lookupCompleted now i s of
                       (Some state, s) \<Rightarrow> SendTransferState env state s
                     | (None, s) \<Rightarrow> sendNack env i (incFirstChunk tr) (incLastChunk tr) NackTransferUnknown s))
          else
          let s = putIncoming i (closeQueue (tr\<lparr>incEnding := True\<rparr>)) s in
          case teWait te of
            Some e \<Rightarrow>
              let tr = stop e (closeQueue (tr\<lparr>incEnding := True\<rparr>));
                  s = putIncoming i tr s
              in (Some e, rememberTransferState now (stateMessage i tr TransferStateFlagFailed NackWriteFailed) s)
          | None \<Rightarrow>
              let s = drainTransfer te i (length (incQueue tr) + 1) s
              in case lookupIncoming s i of None \<Rightarrow> (None, s) | Some tr \<Rightarrow> commitTransfer te now frame tr s)"

text \<open>After a wait for the goroutine that its context ended, once the goroutine is done.\<close>

definition endReturned :: "u64 \<Rightarrow> Session \<Rightarrow> Session" where
  "endReturned transferID s =
     (case lookupIncoming s transferID of None \<Rightarrow> s
      | Some tr \<Rightarrow> if incDone tr then removeIncoming transferID s else s)"

section \<open>Resuming\<close>

text \<open>The checks on a decision of the resume store to continue a transfer, in their order: \<open>None\<close> accepts,
  otherwise the counters and the reason to answer with.\<close>

definition resumeRefusal :: "Session \<Rightarrow> Frame \<Rightarrow> TransferResume \<Rightarrow> TransferResumeDecision \<Rightarrow> (u64 \<times> u32 \<times> u16) option" where
  "resumeRefusal s frame resume d =
     (let meta = rdMeta d; flow = scFlowControl (sConfig s);
          refused = Some (rdReceivedBytes d, rdNextChunk d, NackProtocolError)
      in
      if \<not> rdWriter d then Some (trReceivedBytes resume, trNextChunk resume, NackWriteFailed)
      else if tbTotalSize meta > fcMaxTransferBytes flow \<or> tbChunkSize meta = 0
        \<or> tbChunkSize meta > word_of_int (fcMaxChunkSize flow)
        \<or> chunkCountFor (tbTotalSize meta) (tbChunkSize meta) \<noteq> Inr (tbChunkCount meta)
        \<or> tbFlags meta AND NOT TransferFlagChecksumSHA256 \<noteq> 0
        \<or> length (tbParts meta) > MaxTransferParts \<or> length (tbFields meta) > MaxTransferFields
      then refused
      else if tbFlags meta AND TransferFlagChecksumSHA256 \<noteq> 0
        \<and> (scCapabilities (sConfig s) AND CapabilityTransferSHA256 = 0 \<or> \<not> RemoteSupports s CapabilityTransferSHA256)
      then refused
      else if checkParts (tbTotalSize meta) (tbParts meta) \<noteq> None then refused
      else if transferOffsetForChunk (tbTotalSize meta) (tbChunkSize meta) (rdNextChunk d) \<noteq> Some (rdReceivedBytes d)
        \<or> (hRequestID (fHeader frame) = 0) \<noteq> (tbEvent meta = '''')
      then refused
      else if tbFlags meta AND TransferFlagChecksumSHA256 \<noteq> 0 \<and> rdHash d = None
      then Some (trReceivedBytes resume, trNextChunk resume, NackProtocolError)
      else None)"

definition resumeState :: "u64 \<Rightarrow> u64 \<times> u32 \<times> u16 \<Rightarrow> u16 \<Rightarrow> TransferStateMessage" where
  "resumeState transferID = (\<lambda>(received, next, reason) flags.
     \<lparr>tsmTransferID = transferID, tsmReceivedBytes = received, tsmNextChunk = next, tsmFlags = flags,
      tsmReasonCode = reason\<rparr>)"

definition resumedTransfer :: "Session \<Rightarrow> TransferResumeDecision \<Rightarrow> incomingTransfer" where
  "resumedTransfer s d =
     (let tr = (newIncomingTransfer s (rdMeta d) (rdHash d))
            \<lparr>incReceivedBytes := rdReceivedBytes d, incAcceptedBytes := rdReceivedBytes d,
             incNextChunk := rdNextChunk d, incAcceptedNextChunk := rdNextChunk d\<rparr>
      in if rdNextChunk d > 0 then tr\<lparr>incFirstChunk := 0, incLastChunk := rdNextChunk d - 1\<rparr> else tr)"

text \<open>An accepted decision: the transfer is registered, and removed again when the peer cannot be told.\<close>

definition startResumed :: "SessionEnv \<Rightarrow> u64 \<Rightarrow> TransferResumeDecision \<Rightarrow> op" where
  "startResumed env i d s =
     (let s = removeOpening i s;
          s = s\<lparr>sLastIncoming := (if i > sLastIncoming s then i else sLastIncoming s)\<rparr>;
          s = putIncoming i (resumedTransfer s d) s
      in case op_try (SendTransferState env (resumeState i (rdReceivedBytes d, rdNextChunk d, 0) TransferStateFlagResumeAccepted))
                (sendIncomingWindow env i) s of
           (None, s) \<Rightarrow> (None, s)
         | (Some e, s) \<Rightarrow> (Some e, removeIncoming i (case lookupIncoming s i of None \<Rightarrow> s
             | Some tr \<Rightarrow> putIncoming i (stop e tr) s)))"

definition handleIncomingTransferResume :: "TransferEnv \<Rightarrow> Frame \<Rightarrow> op" where
  "handleIncomingTransferResume te frame =
     with_result (DecodeTransferResumeView (fPayload frame)) (\<lambda>resume s.
       let i = trTransferID resume; env = sendEnv te;
           asked = (trReceivedBytes resume, trNextChunk resume);
           reject = (\<lambda>(received, next, reason).
             SendTransferState env (resumeState i (received, next, reason) TransferStateFlagResumeRejected))
       in
       if i = 0 \<or> i \<noteq> hTransferID (fHeader frame)
       then (Some (Err ''transfer resume id does not match frame header''), s)
       else if scCapabilities (sConfig s) AND CapabilityTransferResume = 0 \<or> \<not> RemoteSupports s CapabilityTransferResume
       then reject (fst asked, snd asked, NackProtocolError) s
       else if map_of (sIncoming s) i \<noteq> None \<or> i \<in> set (sOpening s)
       then reject (fst asked, snd asked, NackProtocolError) s
       else if int (length (sIncoming s) + length (sOpening s)) \<ge> fcMaxConcurrentTransfers (scFlowControl (sConfig s))
       then reject (fst asked, snd asked, NackProtocolError) s
       else case teResume te of
         None \<Rightarrow> reject (fst asked, snd asked, NackProtocolError) s
       | Some store \<Rightarrow>
           let s = s\<lparr>sOpening := i # sOpening s\<rparr>;
               failed = (\<lambda>e. op_seq (emitEvent ((newEvent EventTransferFailed (errorText e))
                  \<lparr>peFrameType := FrameTransferResume, peTransferID := i\<rparr>))
                  (reject (fst asked, snd asked, NackWriteFailed)))
           in case store resume of
                ResumeTimedOut e \<Rightarrow> failed e s
              | ResumeLate e hasWriter \<Rightarrow>
                  failed e (removeOpening i (if hasWriter then logWriter i WriterAborted s else s))
              | ResumeReturned d (Some e) \<Rightarrow>
                  apsnd (removeOpening i) (failed e (if rdWriter d then logWriter i WriterAborted s else s))
              | ResumeReturned d None \<Rightarrow>
                  let abort = (\<lambda>s. if rdWriter d then logWriter i WriterAborted s else s) in
                  if rdAccepted d
                  then (case resumeRefusal s frame resume d of
                          Some answer \<Rightarrow> apsnd (removeOpening i) (reject answer (abort s))
                        | None \<Rightarrow> startResumed env i d s)
                  else apsnd (removeOpening i) (reject (rdReceivedBytes d, rdNextChunk d,
                         if rdReasonCode d = 0 then NackProtocolError else rdReasonCode d) (abort s)))"

section \<open>Cancelling\<close>

definition ErrIncomingCanceled :: go_error where
  "ErrIncomingCanceled = Err ''incoming transfer canceled''"

definition handleIncomingCancel :: "SessionEnv \<Rightarrow> Frame \<Rightarrow> op" where
  "handleIncomingCancel env frame =
     with_result (DecodeCancel (fPayload frame)) (\<lambda>cancel s.
       let i = cancelTransferID cancel in
       if i \<noteq> hTransferID (fHeader frame) then (Some (Err ''cancel transfer id does not match frame header''), s)
       else
       let (status, s) = (case lookupIncoming s i of
             None \<Rightarrow> (CancelAckNotFound, s)
           | Some tr \<Rightarrow> (CancelAckOK, removeIncoming i (putIncoming i (stop ErrIncomingCanceled tr) s)))
       in with_result (EncodeCancelAck (i, status)) (\<lambda>payload.
            send env (headed FrameCancelAck SchemaCancel payload PriorityCritical ChannelControl FlagControl i)) s)"

definition handleIncomingCancelAck :: "Frame \<Rightarrow> op" where
  "handleIncomingCancelAck frame =
     with_result (DecodeCancelAck (fPayload frame)) (\<lambda>(transferID, status) s.
       if transferID \<noteq> hTransferID (fHeader frame)
       then (Some (Err ''cancel ack transfer id does not match frame header''), s)
       else if status < CancelAckOK \<or> status > CancelAckCompleted
       then (Some (Errf ''invalid cancel ack status'' [uint status]), s)
       else (None, s))"

end
