(* ===== verification/Etp_Session.thy ===== *)
theory Etp_Session
  imports Etp_Incoming
begin

text \<open>
  The session itself, \<open>session.go\<close> and \<open>incoming.go\<close>: creation, authentication, the hello handshake, close
  and go-away, the rate limit, the checks every frame passes, the dispatch of frames to their
  handlers and the read loop. The waits of a close (for the drain, for the acknowledgement, for
  the peer's close) end with an outcome that is a parameter.
\<close>

section \<open>Creation and sending messages\<close>

definition NewSessionWithConfig :: "bool \<Rightarrow> u64 option \<Rightarrow> SessionConfig \<Rightarrow> Session" where
  "NewSessionWithConfig hasTransport negotiated config =
     (let config = normalizeSessionConfig config;
          s = \<lparr>sConfig = config, sHasTransport = hasTransport,
            sHasWriter = (hasTransport \<and> sqEnabled (scSendQueue config)), sWriterClosed = False,
            sScheduler = NewFrameScheduler, sState = SessionNew, sMonitorStopped = False,
            sNextRequest = 1000, sNextTransfer = 7000, sRemoteCaps = 0, sRemoteFrame = 0,
            sRemoteHello = None, sReceiveLimit = 0, sReceiveBytes = 0, sRunning = False,
            sStarted = False, sPeerCloseSeen = False, sPeerClose = None,
            sIdentity = \<lparr>siUserID = '''', siAttributes = []\<rparr>,
            sRate = \<lparr>rlWindowStart = None, rlFrames = 0, rlBytes = 0\<rparr>, sOutgoing = [], sIncoming = [],
            sDetached = [], sOpening = [], sOpens = [], sWriterLog = [], sCompleted = [],
            sCompletedIDs = [], sLastIncoming = 0, sCloseAck = [], sPeerCloseDone = [],
            sHandlerJobs = [], sTransportClosed = False, sSends = 0, sSent = [], sEvents = [],
            sProgress = [], sCalls = []\<rparr>;
          s = (case negotiated of
                 Some offered \<Rightarrow>
                   let caps = offered AND scCapabilities config AND AllCapabilities;
                       s = s\<lparr>sRemoteCaps := caps\<rparr>
                   in if caps \<noteq> 0 \<and> \<not> acRequired (scAuth config) then setState SessionEstablished s
                      else setState SessionNew s
               | None \<Rightarrow> setState SessionNew s)
      in applyReceiveFrameLimit s)"

definition NewSession :: "bool \<Rightarrow> u64 option \<Rightarrow> Session" where
  "NewSession hasTransport negotiated = NewSessionWithConfig hasTransport negotiated DefaultClientConfig"

definition SendText :: "SessionEnv \<Rightarrow> string \<Rightarrow> op" where
  "SendText env text' s =
     (case requireEstablished s ''send text'' of Some e \<Rightarrow> (Some e, s)
      | None \<Rightarrow> op_try (EnsureAuthenticatedFor (NewFrame FrameData 0 [])) (\<lambda>s.
          let payloadSize = 4 + of_nat (length text') :: u64; limits = scPayload (sConfig s) in
          if payloadSize > ucast (plMaxTextBytes limits) \<or> payloadSize > ucast (plMaxFrameBytes limits - of_nat HeaderSize)
          then (Some (Errf ''text payload exceeds max size'' [uint payloadSize]), s)
          else
          let requestID = sNextRequest s + 1;
              s = s\<lparr>sNextRequest := requestID\<rparr>;
              frame = (\<lambda>payload. let f = headed FrameData SchemaTextMessage payload PriorityNormal ChannelRealtime (FlagFirst OR FlagLast) 0
                       in f\<lparr>fHeader := (fHeader f)\<lparr>hRequestID := requestID\<rparr>\<rparr>)
          in if sHasWriter s
             then (case checkRemoteFrameSize s (int HeaderSize + 4 + int (length text')) of Some e \<Rightarrow> (Some e, s)
                   | None \<Rightarrow> with_result (EncodeTextMessageInto [] text') (\<lambda>payload. handOver env (frame payload)) s)
             else with_result (EncodeTextMessageInto [] text') (\<lambda>payload. send env (frame payload)) s) s)"

definition sendEventFrame :: "SessionEnv \<Rightarrow> u8 \<Rightarrow> u64 \<Rightarrow> string \<Rightarrow> bytes \<Rightarrow> TransferField list \<Rightarrow> u64 \<Rightarrow> op" where
  "sendEventFrame env frameType requestID event data flds payloadSize s =
     (if payloadSize > ucast (plMaxFrameBytes (scPayload (sConfig s)) - of_nat HeaderSize)
      then (Some (Errf ''event payload exceeds max frame size'' [uint payloadSize]), s)
      else
      let frame = (\<lambda>payload. let f = headed frameType SchemaEvent payload PriorityNormal ChannelRealtime (FlagFirst OR FlagLast) 0
                   in f\<lparr>fHeader := (fHeader f)\<lparr>hRequestID := requestID\<rparr>\<rparr>);
          payload = encodeEventMessageStringWithFieldsSizedInto [] event data flds (unat payloadSize)
      in if sHasWriter s
         then (case checkRemoteFrameSize s (int HeaderSize + uint payloadSize) of Some e \<Rightarrow> (Some e, s)
               | None \<Rightarrow> with_result payload (\<lambda>payload. handOver env (frame payload)) s)
         else with_result payload (\<lambda>payload. send env (frame payload)) s)"

definition sendRequestWithIDSize :: "SessionEnv \<Rightarrow> u64 \<Rightarrow> string \<Rightarrow> bytes \<Rightarrow> TransferField list \<Rightarrow> u64 \<Rightarrow> op" where
  "sendRequestWithIDSize env requestID event data flds payloadSize s =
     (case requireEstablished s ''send request'' of Some e \<Rightarrow> (Some e, s)
      | None \<Rightarrow>
     (case requireCapability s CapabilityRequestResponse ''request/response'' of Some e \<Rightarrow> (Some e, s)
      | None \<Rightarrow> op_try (EnsureAuthenticatedFor (NewFrame FrameRequest 0 [])) (\<lambda>s.
          if payloadSize > ucast (plMaxRequestBytes (scPayload (sConfig s)))
          then (Some (Errf ''request payload exceeds max size'' [uint payloadSize]), s)
          else sendEventFrame env FrameRequest requestID event data flds payloadSize s) s))"

definition SendRequestFields :: "SessionEnv \<Rightarrow> string \<Rightarrow> bytes \<Rightarrow> TransferField list \<Rightarrow> Session \<Rightarrow> u64 \<times> go_error option \<times> Session" where
  "SendRequestFields env event data flds s =
     (let requestID = sNextRequest s + 1; s = s\<lparr>sNextRequest := requestID\<rparr>
      in (requestID, sendRequestWithIDSize env requestID event data flds
            (eventMessagePayloadSize64 (length event) (length data) flds) s))"

definition sendResponseWithIDSize :: "SessionEnv \<Rightarrow> u64 \<Rightarrow> string \<Rightarrow> bytes \<Rightarrow> TransferField list \<Rightarrow> u64 \<Rightarrow> op" where
  "sendResponseWithIDSize env requestID event data flds payloadSize s =
     (if requestID = 0 then (Some (Err ''response request id is required''), s)
      else case requireEstablished s ''send response'' of Some e \<Rightarrow> (Some e, s)
      | None \<Rightarrow>
     (case requireCapability s CapabilityRequestResponse ''request/response'' of Some e \<Rightarrow> (Some e, s)
      | None \<Rightarrow> op_try (EnsureAuthenticatedFor (NewFrame FrameResponse 0 [])) (\<lambda>s.
          if payloadSize > ucast (plMaxResponseBytes (scPayload (sConfig s)))
          then (Some (Errf ''response payload exceeds max size'' [uint payloadSize]), s)
          else sendEventFrame env FrameResponse requestID event data flds payloadSize s) s))"

definition SendResponseFields :: "SessionEnv \<Rightarrow> u64 \<Rightarrow> string \<Rightarrow> bytes \<Rightarrow> TransferField list \<Rightarrow> op" where
  "SendResponseFields env requestID event data flds =
     sendResponseWithIDSize env requestID event data flds
       (eventMessagePayloadSize64 (length event) (length data) flds)"

section \<open>Rate limit and frame checks\<close>

definition ErrRateLimitFrames :: go_error where "ErrRateLimitFrames = Err ''rate limit exceeded: frames''"
definition ErrRateLimitBytes :: go_error where "ErrRateLimitBytes = Err ''rate limit exceeded: bytes''"
definition ErrRequestIDRequired :: go_error where "ErrRequestIDRequired = Err ''request id is required''"

definition countFrame :: "Frame \<Rightarrow> int \<Rightarrow> rateLimitState \<Rightarrow> rateLimitState" where
  "countFrame frame now r =
     (let r = (if (case rlWindowStart r of None \<Rightarrow> True | Some t \<Rightarrow> now - t \<ge> Second)
               then \<lparr>rlWindowStart = Some now, rlFrames = 0, rlBytes = 0\<rparr> else r)
      in r\<lparr>rlFrames := rlFrames r + 1, rlBytes := rlBytes r + of_nat (HeaderSize + length (fPayload frame))\<rparr>)"

definition checkRateLimit :: "Frame \<Rightarrow> int \<Rightarrow> op" where
  "checkRateLimit frame now s =
     (let r = countFrame frame now (sRate s); s = s\<lparr>sRate := r\<rparr>; limits = scRateLimit (sConfig s);
          event = (\<lambda>message. (newEvent EventRateLimited message)\<lparr>peFrameType := hFrameType (fHeader frame)\<rparr>)
      in if rlMaxFramesPerSecond limits > 0 \<and> rlFrames r > rlMaxFramesPerSecond limits
         then op_seq (emitEvent (event ''rate limit exceeded: frames'')) (ret (Some ErrRateLimitFrames)) s
         else if rlMaxBytesPerSecond limits > 0 \<and> rlBytes r > rlMaxBytesPerSecond limits
         then op_seq (emitEvent (event ''rate limit exceeded: bytes'')) (ret (Some ErrRateLimitBytes)) s
         else (None, s))"

definition expectedSchema :: "Header \<Rightarrow> u32" where
  "expectedSchema h =
     (let t = hFrameType h in
      if t = FrameData then (if hTransferID h = 0 then SchemaTextMessage else 0)
      else if t = FrameAck then SchemaAck
      else if t = FrameNack then SchemaNack
      else if t = FrameWindow then SchemaWindow
      else if t = FrameCancel \<or> t = FrameCancelAck then SchemaCancel
      else if t = FrameHello \<or> t = FrameHelloAck then SchemaHello
      else if t = FrameTransferBegin then SchemaTransferBegin
      else if t = FrameTransferState \<or> t = FrameTransferResume then SchemaTransferState
      else if t = FrameAuth then SchemaAuth
      else if t = FrameAuthAccept \<or> t = FrameAuthReject then SchemaAuthResult
      else if t = FrameRequest \<or> t = FrameResponse then SchemaEvent
      else if t = FrameError then SchemaError
      else if t = FrameGoAway then SchemaGoAway
      else if t = FrameClose \<or> t = FrameCloseAck then SchemaClose
      else 0)"

definition validateFrameEnvelope :: "Frame \<Rightarrow> go_error option" where
  "validateFrameEnvelope frame =
     (let h = fHeader frame; t = hFrameType h in
      if hSchemaID h \<noteq> expectedSchema h
      then Some (Errf ''invalid schema'' [uint (hSchemaID h), uint t])
      else if hTransferID h = 0 \<and> t \<in> {FrameTransferBegin, FrameTransferEnd, FrameTransferState,
          FrameTransferResume, FrameAck, FrameNack, FrameCancel, FrameCancelAck}
      then Some (Err ''transfer id is required'')
      else if fPayload frame \<noteq> [] then None
      else if t = FramePing \<or> t = FramePong \<or> t = FrameTransferEnd then None
      else if t = FrameData \<and> hTransferID h \<noteq> 0 then Some (Err ''transfer data payload is empty'')
      else None)"

definition frameCapability :: "Frame \<Rightarrow> u64 \<times> string" where
  "frameCapability frame =
     (let t = hFrameType (fHeader frame) in
      if t = FrameAck then (CapabilityAck, ''ack'')
      else if t = FrameNack then (CapabilityNack, ''nack'')
      else if t = FramePing \<or> t = FramePong then (CapabilityHeartbeat, ''heartbeat'')
      else if t = FrameWindow then (CapabilityFlowControl, ''flow control'')
      else if t = FrameCancel \<or> t = FrameCancelAck then (CapabilityCancel, ''cancel'')
      else if t = FrameRequest \<or> t = FrameResponse then (CapabilityRequestResponse, ''request/response'')
      else if t = FrameTransferBegin \<or> t = FrameTransferEnd \<or> t = FrameTransferState
      then (CapabilityTransfers, ''transfers'')
      else if t = FrameTransferResume then (CapabilityTransferResume, ''transfer resume'')
      else if t = FrameData \<and> hTransferID (fHeader frame) \<noteq> 0 then (CapabilityTransfers, ''transfers'')
      else (0, ''''))"

definition stateAllows :: "SessionConfig \<Rightarrow> SessionState \<Rightarrow> u8 \<Rightarrow> bool" where
  "stateAllows config state t =
     (if t = FrameHello then scRole config = RoleServer \<and> (state = SessionNew \<or> state = SessionAuthAccepted)
      else if t = FrameHelloAck then scRole config = RoleClient \<and> state = SessionHelloSent
      else if t = FrameClose then True
      else if t = FrameCloseAck then state = SessionClosing \<or> state = SessionDraining \<or> state = SessionClosed
      else state = SessionEstablished
           \<or> state = SessionDraining \<and> t \<in> {FrameData, FrameAck, FrameNack, FrameWindow, FrameTransferEnd,
                FrameTransferState, FrameCancel, FrameCancelAck, FramePing, FramePong, FrameError})"

definition ensureIncomingState :: "Session \<Rightarrow> u8 \<Rightarrow> go_error option" where
  "ensureIncomingState s frameType =
     (if stateAllows (sConfig s) (sState s) frameType then None
      else Some (Errf ''frame type is not allowed in session state'' [uint frameType, uint (sessionStateCode (sState s))]))"

section \<open>Authentication\<close>

text \<open>The limits before the handshake are subtracted on 32 bits and compared on 64.\<close>

definition preHandshakeRoom :: "Session \<Rightarrow> u64" where
  "preHandshakeRoom s = ucast (plPreHandshakeBytes (scPayload (sConfig s)) - of_nat HeaderSize)"

definition controlFrame :: "u8 \<Rightarrow> u32 \<Rightarrow> bytes \<Rightarrow> Frame" where
  "controlFrame frameType schemaID payload =
     headed frameType schemaID payload PriorityCritical ChannelControl (FlagControl OR FlagFirst OR FlagLast) 0"

definition modify :: "(Session \<Rightarrow> Session) \<Rightarrow> op" where
  "modify f s = (None, f s)"

definition Authenticate :: "SessionEnv \<Rightarrow> AuthRequest \<Rightarrow> op" where
  "Authenticate env req s =
     (if (of_nat (length (authPayload req)) + 12 :: u64) > preHandshakeRoom s
         \<or> of_nat (length (authPayload req)) > acMaxPayloadBytes (scAuth (sConfig s))
      then (Some (Err ''auth payload exceeds configured pre-handshake limit''), s)
      else with_result (EncodeAuthRequest req) (\<lambda>payload.
        op_try (send env (controlFrame FrameAuth SchemaAuth payload)) (modify (setState SessionAuthPending))) s)"

definition AcceptAuth :: "SessionEnv \<Rightarrow> AuthResult \<Rightarrow> op" where
  "AcceptAuth env result s =
     (if (of_nat (length (authUserID result)) + 4 :: u64) > preHandshakeRoom s
      then (Some (Err ''auth user id exceeds configured pre-handshake limit''), s)
      else
      let s = s\<lparr>sIdentity := \<lparr>siUserID = authUserID result, siAttributes = authAttributes result\<rparr>\<rparr>
      in with_result (EncodeAuthAccept \<lparr>aaUserID = authUserID result\<rparr>) (\<lambda>payload.
           op_try (send env (controlFrame FrameAuthAccept SchemaAuthResult payload))
             (\<lambda>s. emitEvent ((newEvent EventAuthAccepted ''auth accepted'')\<lparr>peFrameType := FrameAuthAccept\<rparr>)
                (setState SessionAuthAccepted s))) s)"

definition RejectAuth :: "SessionEnv \<Rightarrow> u16 \<Rightarrow> u16 \<Rightarrow> string \<Rightarrow> op" where
  "RejectAuth env statusCode reasonCode message s =
     (if (of_nat (length message) + 8 :: u64) > preHandshakeRoom s
      then (Some (Err ''auth reject message exceeds configured pre-handshake limit''), s)
      else with_result (EncodeAuthReject \<lparr>arStatusCode = statusCode, arReasonCode = reasonCode, arMessage = message\<rparr>)
        (\<lambda>payload. op_try (send env (controlFrame FrameAuthReject SchemaAuthResult payload))
          (\<lambda>s. let s = setState SessionAuthRejected s
               in if reasonCode \<noteq> AuthRejectTimeout
                  then emitEvent ((newEvent EventAuthRejected message)\<lparr>peFrameType := FrameAuthReject\<rparr>) s
                  else (None, s))) s)"

definition closeTransport :: "SessionEnv \<Rightarrow> op" where
  "closeTransport env s = (envTransportClose env, s\<lparr>sTransportClosed := True\<rparr>)"

definition closeWriter :: "Session \<Rightarrow> Session" where
  "closeWriter s = (if sHasWriter s then s\<lparr>sWriterClosed := True\<rparr> else s)"

definition rejectAuthAndClose :: "SessionEnv \<Rightarrow> u16 \<Rightarrow> u16 \<Rightarrow> string \<Rightarrow> op" where
  "rejectAuthAndClose env statusCode reasonCode message =
     op_try (RejectAuth env statusCode reasonCode message) (\<lambda>s.
       if sHasWriter s
       then (case envFlush env of Some e \<Rightarrow> (Some e, s) | None \<Rightarrow> closeTransport env (closeWriter s))
       else closeTransport env s)"

definition HandleAuth :: "SessionEnv \<Rightarrow> Frame \<Rightarrow> op" where
  "HandleAuth env frame s =
     (if of_nat (length (fPayload frame)) > acMaxPayloadBytes (scAuth (sConfig s))
      then rejectAuthAndClose env AuthRejectTooLarge AuthRejectTooLarge ''auth payload too large'' s
      else case DecodeAuthRequestView (fPayload frame) of
        Inl e \<Rightarrow> (Some e, snd (rejectAuthAndClose env AuthRejectUnauthorized AuthRejectProtocol ''invalid auth payload'' s))
      | Inr req \<Rightarrow>
          (case envAuth env of
             None \<Rightarrow>
               if acRequired (scAuth (sConfig s))
               then rejectAuthAndClose env AuthRejectUnauthorized AuthRejectUnauthorized ''auth handler is not configured'' s
               else AcceptAuth env \<lparr>authOK = True, authUserID = '''', authAttributes = [], authRejectCode = 0, authReason = ''''\<rparr> s
           | Some handler \<Rightarrow>
               (case handler req of
                  AuthTimedOut e \<Rightarrow>
                    let s = snd (rejectAuthAndClose env AuthRejectTimeout AuthRejectTimeout ''auth timeout'' s)
                    in (Some e, snd (emitEvent (newEvent EventAuthTimeout ''auth timeout'') s))
                | AuthErred e \<Rightarrow>
                    (Some e, snd (rejectAuthAndClose env AuthRejectUnauthorized AuthRejectUnauthorized ''authentication failed'' s))
                | AuthReturned result \<Rightarrow>
                    if \<not> authOK result
                    then let code = (if authRejectCode result = 0 then AuthRejectUnauthorized else authRejectCode result);
                             reason = (if authReason result = '''' then ''unauthorized'' else authReason result)
                         in rejectAuthAndClose env code code reason s
                    else AcceptAuth env result s)))"

definition HandleAuthAccept :: "Frame \<Rightarrow> op" where
  "HandleAuthAccept frame =
     with_result (DecodeAuthAccept (fPayload frame)) (\<lambda>accept s.
       let s = setState SessionAuthAccepted (s\<lparr>sIdentity := (sIdentity s)\<lparr>siUserID := aaUserID accept\<rparr>\<rparr>)
       in emitEvent ((newEvent EventAuthAccepted ''auth accepted'')\<lparr>peFrameType := hFrameType (fHeader frame)\<rparr>) s)"

definition HandleAuthReject :: "Frame \<Rightarrow> op" where
  "HandleAuthReject frame =
     with_result (DecodeAuthReject (fPayload frame)) (\<lambda>reject s.
       let s = setState SessionAuthRejected s
       in op_seq (emitEvent ((newEvent EventAuthRejected (arMessage reject))\<lparr>peFrameType := hFrameType (fHeader frame)\<rparr>))
            (ret (Some (Errf ''auth rejected'' [uint (arStatusCode reject), uint (arReasonCode reject)]))) s)"

text \<open>The timer of \<open>StartAuthTimeout\<close> fires.\<close>

definition authTimeout :: "SessionEnv \<Rightarrow> Session \<Rightarrow> Session" where
  "authTimeout env s =
     (if \<not> acRequired (scAuth (sConfig s)) then s
      else if sState s \<in> {SessionAuthAccepted, SessionHelloSent, SessionEstablished, SessionDraining,
           SessionClosing, SessionClosed, SessionAuthRejected} then s
      else let s = snd (rejectAuthAndClose env AuthRejectTimeout AuthRejectTimeout ''auth timeout'' (setState SessionAuthRejected s))
           in snd (emitEvent (newEvent EventAuthTimeout ''auth timeout'') s))"

section \<open>Hello\<close>

definition hello :: "Session \<Rightarrow> string \<Rightarrow> Hello" where
  "hello s role =
     (let c = sConfig s
      in \<lparr>helloRole = (if role = '''' then scRole c else role), helloCapabilities = scCapabilities c,
          helloMaxFrameBytes = plMaxFrameBytes (scPayload c),
          helloMaxChunkSize = word_of_int (fcMaxChunkSize (scFlowControl c)),
          helloMaxTransferBytes = fcMaxTransferBytes (scFlowControl c),
          helloMaxInFlightChunks = word_of_int (fcMaxInFlightChunks (scFlowControl c)),
          helloHeartbeatMillis = word_of_int (hbInterval (scHeartbeat c) div Millisecond)\<rparr>)"

definition established :: "SessionEnv \<Rightarrow> op" where
  "established env s = (envEstablished env, applyReceiveFrameLimit (setState SessionEstablished s))"

definition SendHello :: "SessionEnv \<Rightarrow> string \<Rightarrow> op" where
  "SendHello env role s =
     (if scRole (sConfig s) \<noteq> RoleClient \<or> (sState s \<noteq> SessionNew \<and> sState s \<noteq> SessionAuthAccepted)
      then (Some (Err ''hello is not allowed''), s)
      else if role \<noteq> '''' \<and> role \<noteq> RoleClient then (Some (Err ''invalid hello role''), s)
      else op_try (EnsureAuthenticatedFor (NewFrame FrameHello 0 [])) (\<lambda>s.
        with_result (EncodeHelloMessage (hello s role)) (\<lambda>payload.
          op_try (send env (headed FrameHello SchemaHello payload PriorityCritical ChannelControl FlagControl 0))
            (modify (setState SessionHelloSent))) s) s)"

definition SendHelloAck :: "SessionEnv \<Rightarrow> string \<Rightarrow> op" where
  "SendHelloAck env role s =
     (if scRole (sConfig s) \<noteq> RoleServer then (Some (Err ''only server sessions can send hello ack''), s)
      else with_result (EncodeHelloMessage (hello s role)) (\<lambda>payload.
        op_try (send env (headed FrameHelloAck SchemaHello payload PriorityCritical ChannelControl FlagControl 0))
          (established env)) s)"

definition helloLimitsInvalid :: "Hello \<Rightarrow> bool" where
  "helloLimitsInvalid h \<longleftrightarrow>
     helloMaxFrameBytes h < of_nat HeaderSize \<or> helloMaxFrameBytes h > of_nat MaxFrameBytes
     \<or> helloMaxChunkSize h = 0 \<or> helloMaxChunkSize h > helloMaxFrameBytes h - of_nat HeaderSize
     \<or> helloMaxTransferBytes h = 0 \<or> helloMaxInFlightChunks h = 0 \<or> helloHeartbeatMillis h = 0"

definition acceptRemoteHello :: "Hello \<Rightarrow> string \<Rightarrow> op" where
  "acceptRemoteHello h expectedRole s =
     (if helloRole h \<noteq> expectedRole then (Some (Err ''unexpected remote role''), s)
      else if helloCapabilities h AND NOT AllCapabilities \<noteq> 0
      then (Some (Errf ''remote advertised unknown capabilities'' [uint (helloCapabilities h)]), s)
      else if helloLimitsInvalid h then (Some (Err ''remote hello contains invalid limits''), s)
      else (None, s\<lparr>sRemoteHello := Some h, sRemoteFrame := helloMaxFrameBytes h,
                    sRemoteCaps := helloCapabilities h AND scCapabilities (sConfig s)\<rparr>))"

text \<open>A malformed payload is reported twice before its error is returned.\<close>

definition badPayload :: "Frame \<Rightarrow> string \<Rightarrow> go_error \<Rightarrow> op" where
  "badPayload frame message e =
     op_seq (emitEvent ((newEvent EventProtocolViolation message)\<lparr>peFrameType := hFrameType (fHeader frame)\<rparr>))
       (op_seq (markBadFrame frame message) (ret (Some e)))"

definition HandleHello :: "SessionEnv \<Rightarrow> Frame \<Rightarrow> op" where
  "HandleHello env frame =
     (case DecodeHelloMessage (fPayload frame) of
        Inl e \<Rightarrow> badPayload frame ''invalid hello'' e
      | Inr h \<Rightarrow> op_try (acceptRemoteHello h RoleClient) (\<lambda>s. SendHelloAck env (scRole (sConfig s)) s))"

definition HandleHelloAck :: "SessionEnv \<Rightarrow> Frame \<Rightarrow> op" where
  "HandleHelloAck env frame =
     (case DecodeHelloMessage (fPayload frame) of
        Inl e \<Rightarrow> badPayload frame ''invalid hello ack'' e
      | Inr h \<Rightarrow> op_try (acceptRemoteHello h RoleServer) (established env))"

section \<open>Requests, responses and text\<close>

definition invokeApplicationHandler :: "SessionEnv \<Rightarrow> Frame \<Rightarrow> appCall \<Rightarrow> go_error option \<Rightarrow> op" where
  "invokeApplicationHandler env frame call outcome s =
     (if \<not> sRunning s then (outcome, s\<lparr>sCalls := sCalls s @ [call]\<rparr>)
      else if int (length (sHandlerJobs s)) < hcQueue (scHandlers (sConfig s))
      then (None, s\<lparr>sHandlerJobs := sHandlerJobs s @ [call]\<rparr>)
      else (None, snd (SendError env ErrorRateLimited frame ''application handler queue is full'' s)))"

fun callFrame :: "appCall \<Rightarrow> Frame" where
  "callFrame (TextCall frame _) = frame"
| "callFrame (RequestCall frame _) = frame"
| "callFrame (ResponseCall frame _) = frame"

text \<open>A worker takes a job from the queue and runs it.\<close>

definition runHandlerJob :: "SessionEnv \<Rightarrow> go_error option \<Rightarrow> Session \<Rightarrow> Session" where
  "runHandlerJob env outcome s =
     (case sHandlerJobs s of [] \<Rightarrow> s
      | call # jobs \<Rightarrow>
          let s = s\<lparr>sHandlerJobs := jobs, sCalls := sCalls s @ [call]\<rparr>; frame = callFrame call
          in case outcome of None \<Rightarrow> s
             | Some e \<Rightarrow>
                 let s = snd (emitEvent ((newEvent EventHandlerFailed (errorText e))
                       \<lparr>peFrameType := hFrameType (fHeader frame), peTransferID := hTransferID (fHeader frame)\<rparr>) s)
                 in snd (SendError env ErrorInternal frame ''application handler failed'' s))"

text \<open>Reports and answers of the refusals below: events, an error frame, the returned error.\<close>

definition refuseFrame :: "SessionEnv \<Rightarrow> u32 \<Rightarrow> Frame \<Rightarrow> string \<Rightarrow> go_error \<Rightarrow> op" where
  "refuseFrame env code frame message e =
     op_seq (markBadFrame frame message) (op_seq (SendError env code frame message) (ret (Some e)))"

definition reportFrame :: "SessionEnv \<Rightarrow> u32 \<Rightarrow> Frame \<Rightarrow> string \<Rightarrow> go_error \<Rightarrow> op" where
  "reportFrame env code frame message e =
     op_seq (emitEvent ((newEvent EventProtocolViolation message)\<lparr>peFrameType := hFrameType (fHeader frame)\<rparr>))
       (refuseFrame env code frame message e)"

definition handleIncomingData :: "SessionEnv \<Rightarrow> Frame \<Rightarrow> op" where
  "handleIncomingData env frame s =
     (if hSchemaID (fHeader frame) = SchemaTextMessage then
        if length (fPayload frame) > unat (plMaxTextBytes (scPayload (sConfig s)))
        then refuseFrame env ErrorFrameTooLarge frame ''text payload too large''
               (Errf ''text payload exceeds max size'' [int (length (fPayload frame))]) s
        else case DecodeTextMessage (fPayload frame) of
               Inl e \<Rightarrow> badPayload frame ''invalid text payload'' e s
             | Inr text' \<Rightarrow>
                 (case envText env of None \<Rightarrow> (None, s)
                  | Some handler \<Rightarrow> invokeApplicationHandler env frame (TextCall frame text') (handler frame text') s)
      else handleIncomingTransferData env frame s)"

definition handleIncomingRequest :: "SessionEnv \<Rightarrow> Frame \<Rightarrow> op" where
  "handleIncomingRequest env frame s =
     (if hRequestID (fHeader frame) = 0
      then refuseFrame env ErrorInvalidRequest frame ''request id is required'' ErrRequestIDRequired s
      else if length (fPayload frame) > unat (plMaxRequestBytes (scPayload (sConfig s)))
      then refuseFrame env ErrorFrameTooLarge frame ''request payload too large''
             (Errf ''request payload exceeds max size'' [int (length (fPayload frame))]) s
      else if hSchemaID (fHeader frame) \<noteq> SchemaEvent
      then reportFrame env ErrorInvalidRequest frame ''invalid request schema''
             (Errf ''invalid request schema'' [uint (hSchemaID (fHeader frame))]) s
      else case DecodeEventMessageView (fPayload frame) of
             Inl e \<Rightarrow> reportFrame env ErrorInvalidRequest frame ''invalid request payload'' e s
           | Inr message \<Rightarrow>
               if evvEvent message = []
               then reportFrame env ErrorInvalidRequest frame ''request event is required'' (Err ''request event is required'') s
               else (case envRequest env of None \<Rightarrow> (None, s)
                     | Some handler \<Rightarrow> invokeApplicationHandler env frame (RequestCall frame message) (handler frame message) s))"

definition handleIncomingResponse :: "SessionEnv \<Rightarrow> Frame \<Rightarrow> op" where
  "handleIncomingResponse env frame s =
     (if hRequestID (fHeader frame) = 0
      then reportFrame env ErrorInvalidRequest frame ''response request id is required'' (Err ''response request id is required'') s
      else if length (fPayload frame) > unat (plMaxResponseBytes (scPayload (sConfig s)))
      then refuseFrame env ErrorFrameTooLarge frame ''response payload too large''
             (Errf ''response payload exceeds max size'' [int (length (fPayload frame))]) s
      else if hSchemaID (fHeader frame) \<noteq> SchemaEvent
      then reportFrame env ErrorInvalidRequest frame ''invalid response schema''
             (Errf ''invalid response schema'' [uint (hSchemaID (fHeader frame))]) s
      else case DecodeEventMessageView (fPayload frame) of
             Inl e \<Rightarrow> reportFrame env ErrorInvalidRequest frame ''invalid response payload'' e s
           | Inr message \<Rightarrow>
               if evvEvent message = []
               then reportFrame env ErrorInvalidRequest frame ''response event is required'' (Err ''response event is required'') s
               else (case envResponse env of None \<Rightarrow> (None, s)
                     | Some handler \<Rightarrow> invokeApplicationHandler env frame (ResponseCall frame message) (handler frame message) s))"

section \<open>Errors, go-away and close\<close>

definition handleIncomingError :: "Frame \<Rightarrow> op" where
  "handleIncomingError frame =
     with_result (DecodeErrorMessageView (fPayload frame)) (\<lambda>msg s.
       let s = snd (emitEvent \<lparr>peCode = EventErrorReceived, peMessage = string_of_bytes (emvMessage msg),
             peFrameType = emvFrameType msg, peTransferID = emvTransferID msg, peChunkID = 0\<rparr> s)
       in if emvCode msg = ErrorProtocolViolation \<or> emvCode msg = ErrorUnauthorized
          then (Some (Errf ''fatal remote protocol error'' [uint (emvCode msg)]), setState SessionFailed s)
          else (None, s))"

text \<open>The graceful-close capability is required for every drain.\<close>

definition requireDrain :: "SessionEnv \<Rightarrow> u16 \<Rightarrow> Frame \<Rightarrow> op" where
  "requireDrain env flags frame s =
     (if flags AND CloseFlagDrain = 0 then (None, s)
      else case requireCapability s CapabilityGracefulClose ''graceful close'' of
             None \<Rightarrow> (None, s)
           | Some e \<Rightarrow> (Some e, snd (SendError env ErrorUnsupportedFeature frame (errorText e) s)))"

definition handleIncomingGoAway :: "SessionEnv \<Rightarrow> Frame \<Rightarrow> op" where
  "handleIncomingGoAway env frame =
     with_result (DecodeGoAwayView (fPayload frame)) (\<lambda>msg. op_try (requireDrain env (gavFlags msg) frame) (\<lambda>s.
       let s = snd (emitEvent ((newEvent EventGoAwayReceived (string_of_bytes (gavMessage msg)))
             \<lparr>peFrameType := hFrameType (fHeader frame)\<rparr>) s)
       in if gavFlags msg AND CloseFlagDrain \<noteq> 0 then (None, setState SessionDraining s)
          else (None, setState SessionClosing (cleanupIncoming ''goaway received'' False s))))"

text \<open>The compare-and-swap loops; a result of true means that this side was closing already. They store
  the state directly, so the monitor is not stopped here.\<close>

definition beginPeerClose :: "SessionState \<Rightarrow> Session \<Rightarrow> bool \<times> Session" where
  "beginPeerClose target s =
     (if sState s = SessionClosing then (True, s)
      else if sState s = SessionDraining
      then (if target = SessionDraining then (True, s) else (True, s\<lparr>sState := target\<rparr>))
      else if sState s = SessionClosed then (False, s)
      else (False, s\<lparr>sState := target\<rparr>))"

definition beginLocalClose :: "SessionState \<Rightarrow> Session \<Rightarrow> bool \<times> Session" where
  "beginLocalClose target s =
     (if sState s = SessionClosed \<or> sState s = SessionClosing \<or> sState s = SessionDraining then (False, s)
      else (True, s\<lparr>sState := target\<rparr>))"

definition handleIncomingClose :: "SessionEnv \<Rightarrow> Frame \<Rightarrow> op" where
  "handleIncomingClose env frame =
     with_result (DecodeCloseMessage (fPayload frame)) (\<lambda>msg. op_try (requireDrain env (closeFlags msg) frame) (\<lambda>s.
       if sPeerCloseSeen s then (None, s)
       else
       let s = s\<lparr>sPeerCloseSeen := True\<rparr> in
       if closeFlags msg AND CloseFlagDrain \<noteq> 0
       then let (collision, s) = beginPeerClose SessionDraining s
            in (None, s\<lparr>sPeerClose := Some (msg, True, collision)\<rparr>)
       else let (collision, s) = beginPeerClose SessionClosing s;
                s = failOutgoing (Some ErrSessionClosed) (cleanupIncoming ''peer closed session'' False s)
            in (None, s\<lparr>sPeerClose := Some (msg, False, collision)\<rparr>)))"

text \<open>The goroutine of \<open>finishPeerClose\<close> and \<open>finishPeerDrain\<close>; for a drain, \<open>drained\<close> is the outcome of
  waiting for the transfers.\<close>

definition finishPeer :: "SessionEnv \<Rightarrow> go_error option \<Rightarrow> Session \<Rightarrow> Session" where
  "finishPeer env drained s =
     (case sPeerClose s of None \<Rightarrow> s
      | Some (msg, draining, collision) \<Rightarrow>
          let msg = (if draining \<and> drained \<noteq> None then msg\<lparr>closeReasonCode := CloseDrainTimeout\<rparr> else msg);
              (err, s) = sendCloseAckAndWait env msg (s\<lparr>sPeerClose := None\<rparr>);
              s = s\<lparr>sPeerCloseDone := sPeerCloseDone s @ [err]\<rparr>
          in case err of
               Some e \<Rightarrow>
                 let s = setState SessionFailed s;
                     s = snd (emitEvent ((newEvent EventWriteFailed (errorText e))\<lparr>peFrameType := FrameCloseAck\<rparr>) s)
                 in snd (closeTransport env s)
             | None \<Rightarrow>
                 if collision then s
                 else
                   let s = closeWriter s;
                       s = (if draining then failOutgoing (Some ErrSessionClosed) (cleanupIncoming ''peer drain completed'' False s) else s)
                   in snd (closeTransport env (setState SessionClosed s)))"

definition handleIncomingCloseAck :: "Frame \<Rightarrow> op" where
  "handleIncomingCloseAck frame =
     with_result (DecodeCloseMessage (fPayload frame)) (\<lambda>msg s.
       let s = snd (emitEvent ((newEvent EventCloseAckReceived ''close ack'')\<lparr>peFrameType := hFrameType (fHeader frame)\<rparr>) s)
       in (None, if sCloseAck s = [] then s\<lparr>sCloseAck := [msg]\<rparr> else s))"

definition SendGoAway :: "SessionEnv \<Rightarrow> GoAway \<Rightarrow> op" where
  "SendGoAway env goAway s =
     (if (of_nat (length (gaMessage goAway)) + 32 :: u64) > ucast (plMaxFrameBytes (scPayload (sConfig s)) - of_nat HeaderSize)
      then (Some (Err ''goaway message exceeds max frame size''), s)
      else
      let goAway = (if gaFlags goAway = 0 then goAway\<lparr>gaFlags := CloseFlagImmediate\<rparr> else goAway) in
      if closeFlagsInvalid (gaFlags goAway) then (Some (Err ''invalid goaway flags''), s)
      else case (if gaFlags goAway AND CloseFlagDrain \<noteq> 0
                 then requireCapability s CapabilityGracefulClose ''graceful close'' else None) of
        Some e \<Rightarrow> (Some e, s)
      | None \<Rightarrow>
          let goAway = (if gaLastAcceptedRequestID goAway = 0 then goAway\<lparr>gaLastAcceptedRequestID := sNextRequest s\<rparr> else goAway);
              goAway = (if gaLastAcceptedTransferID goAway = 0 then goAway\<lparr>gaLastAcceptedTransferID := sNextTransfer s\<rparr> else goAway)
          in with_result (EncodeGoAway goAway) (\<lambda>payload s.
               let s = (if gaFlags goAway AND CloseFlagDrain \<noteq> 0 then setState SessionDraining s else setState SessionClosing s)
               in case sendAndWait env (controlFrame FrameGoAway SchemaGoAway payload) s of
                    (None, s) \<Rightarrow> (None, s)
                  | (Some e, s) \<Rightarrow> (Some e, setState SessionFailed s)) s)"

text \<open>\<open>CloseWith\<close> until it waits: either it has returned, or it waits for the drain and the peer's
  acknowledgement. \<open>peerDone\<close> is the outcome of waiting for the peer's close to be answered.\<close>

datatype closeStep = CloseDone "go_error option" | CloseWaiting bool

definition CloseWith :: "SessionEnv \<Rightarrow> go_error option \<Rightarrow> CloseMessage \<Rightarrow> Session \<Rightarrow> closeStep \<times> Session" where
  "CloseWith env peerDone msg s =
     (let msg = (if closeFlags msg = 0 then msg\<lparr>closeFlags := CloseFlagImmediate\<rparr> else msg) in
      if closeFlagsInvalid (closeFlags msg) then (CloseDone (Some (Err ''invalid close flags'')), s)
      else
      let draining = (closeFlags msg AND CloseFlagDrain \<noteq> 0) in
      case (if draining then requireCapability s CapabilityGracefulClose ''graceful close'' else None) of
        Some e \<Rightarrow> (CloseDone (Some e), s)
      | None \<Rightarrow>
          let (begun, s) = beginLocalClose (if draining then SessionDraining else SessionClosing) s in
          if \<not> begun then (CloseDone None, s)
          else
          let s = (if draining then s
                   else failOutgoing (Some ErrSessionClosed) (cleanupIncoming ''local session closed'' False s));
              (err, s) = with_result (EncodeCloseMessage msg) (\<lambda>payload.
                 sendAndWait env (headed FrameClose SchemaClose payload PriorityCritical ChannelControl FlagControl 0)) s
          in case err of
               Some e \<Rightarrow>
                 if sPeerCloseSeen s \<and> peerDone = None
                 then (CloseDone None, snd (closeTransport env (setState SessionClosed (closeWriter s))))
                 else (CloseDone (Some e), setState SessionFailed s)
             | None \<Rightarrow> (CloseWaiting draining, s))"

definition Close :: "SessionEnv \<Rightarrow> go_error option \<Rightarrow> Session \<Rightarrow> closeStep \<times> Session" where
  "Close env peerDone = CloseWith env peerDone
     \<lparr>closeReasonCode = CloseNormal, closeFlags = CloseFlagImmediate, closeDrainTimeoutMillis = 0\<rparr>"

text \<open>The rest of \<open>CloseWith\<close>. \<open>drained\<close> is the outcome of waiting for the transfers, \<open>timeout\<close> the error when
  the acknowledgement does not come in time, \<open>peerDone\<close> as above (used when the peer's close was
  seen).\<close>

definition closeEnd :: "SessionEnv \<Rightarrow> go_error option \<Rightarrow> op" where
  "closeEnd env peerDone s =
     (case (if sPeerCloseSeen s then peerDone else None) of
        Some e \<Rightarrow> (Some e, snd (closeTransport env (setState SessionFailed s)))
      | None \<Rightarrow>
          (case closeTransport env (setState SessionClosed (closeWriter s)) of
             (None, s) \<Rightarrow> (None, s)
           | (Some e, s) \<Rightarrow> (Some e, setState SessionFailed s)))"

definition closeFinish :: "SessionEnv \<Rightarrow> bool \<Rightarrow> go_error option \<Rightarrow> go_error option \<Rightarrow> go_error option \<Rightarrow> op" where
  "closeFinish env draining drained timeout peerDone s =
     (case (if draining then drained else None) of
        Some e \<Rightarrow> (Some e, snd (closeTransport env (failOutgoing (Some e) (setState SessionFailed s))))
      | None \<Rightarrow>
          (case timeout of
             Some e \<Rightarrow>
               if draining then (Some e, snd (closeTransport env (setState SessionFailed s)))
               else (Some e, snd (closeTransport env (setState SessionClosed (closeWriter s))))
           | None \<Rightarrow>
               let s = s\<lparr>sCloseAck := tl (sCloseAck s)\<rparr>;
                   s = (if draining then setState SessionClosing s else s)
               in closeEnd env peerDone s))"

definition waitTransfersDrained :: "Session \<Rightarrow> bool" where
  "waitTransfersDrained s \<longleftrightarrow> sOutgoing s = [] \<and> sIncoming s = [] \<and> sOpening s = []"

section \<open>Dispatch\<close>

definition dispatchFrame :: "TransferEnv \<Rightarrow> int \<Rightarrow> Frame \<Rightarrow> op" where
  "dispatchFrame te now frame =
     (let t = hFrameType (fHeader frame); env = sendEnv te in
      if t = FrameHello then HandleHello env frame
      else if t = FrameHelloAck then HandleHelloAck env frame
      else if t = FramePing then SendPong env
      else if t = FramePong then ret None
      else if t = FrameAck then HandleAck frame
      else if t = FrameNack then HandleNack env now frame
      else if t = FrameWindow then HandleWindow frame
      else if t = FrameData then handleIncomingData env frame
      else if t = FrameRequest then handleIncomingRequest env frame
      else if t = FrameResponse then handleIncomingResponse env frame
      else if t = FrameError then handleIncomingError frame
      else if t = FrameGoAway then handleIncomingGoAway env frame
      else if t = FrameTransferBegin then handleIncomingTransferBegin te frame
      else if t = FrameTransferEnd then handleIncomingTransferEnd te now frame
      else if t = FrameTransferResume then handleIncomingTransferResume te frame
      else if t = FrameTransferState then handleIncomingTransferState frame
      else if t = FrameCancel then handleIncomingCancel env frame
      else if t = FrameCancelAck then handleIncomingCancelAck frame
      else if t = FrameClose then handleIncomingClose env frame
      else if t = FrameCloseAck then handleIncomingCloseAck frame
      else reportFrame env ErrorProtocolViolation frame ''unknown frame type''
             (Errf ''unknown frame type'' [uint t]))"

definition handleAuthFrame :: "SessionEnv \<Rightarrow> Frame \<Rightarrow> op" where
  "handleAuthFrame env frame s =
     (let t = hFrameType (fHeader frame) in
      if t = FrameAuth then
        if scRole (sConfig s) \<noteq> RoleServer \<or> (sState s \<noteq> SessionNew \<and> sState s \<noteq> SessionAuthPending)
        then (Some (Err ''auth request is not allowed in current session state''), s)
        else HandleAuth env frame (setState SessionAuthPending s)
      else if t = FrameAuthAccept then
        if scRole (sConfig s) \<noteq> RoleClient \<or> sState s \<noteq> SessionAuthPending
        then (Some (Err ''auth accept is not allowed in current session state''), s)
        else HandleAuthAccept frame s
      else
        if scRole (sConfig s) \<noteq> RoleClient \<or> sState s \<noteq> SessionAuthPending
        then (Some (Err ''auth reject is not allowed in current session state''), s)
        else HandleAuthReject frame s)"

definition checkCapability :: "SessionEnv \<Rightarrow> Frame \<Rightarrow> op" where
  "checkCapability env frame s =
     (let (capability, name) = frameCapability frame in
      if capability = 0 then (None, s)
      else case requireCapability s capability name of None \<Rightarrow> (None, s)
           | Some e \<Rightarrow> (Some e, snd (SendError env ErrorUnsupportedFeature frame (errorText e) s)))"

definition HandleFrame :: "TransferEnv \<Rightarrow> int \<Rightarrow> Frame \<Rightarrow> op" where
  "HandleFrame te now frame s =
     (let env = sendEnv te; t = hFrameType (fHeader frame) in
      case checkRateLimit frame now s of
        (Some e, s) \<Rightarrow> (Some e, snd (SendError env ErrorRateLimited frame (errorText e) s))
      | (None, s) \<Rightarrow>
     (case validateFrameEnvelope frame of
        Some e \<Rightarrow> refuseFrame env ErrorProtocolViolation frame (errorText e) e s
      | None \<Rightarrow>
          if t = FrameAuth \<or> t = FrameAuthAccept \<or> t = FrameAuthReject then handleAuthFrame env frame s
          else
     (case EnsureAuthenticatedFor frame s of
        (Some e, s) \<Rightarrow> (Some e, snd (RejectAuth env AuthRejectUnauthorized AuthRejectUnauthorized ''auth required'' s))
      | (None, s) \<Rightarrow>
     (case ensureIncomingState s t of
        Some e \<Rightarrow> (Some e, snd (SendError env ErrorBadState frame (errorText e) s))
      | None \<Rightarrow> op_try (checkCapability env frame) (dispatchFrame te now frame) s))))"

section \<open>The read loop\<close>

text \<open>What one turn of the loop in \<open>Run\<close> does with what it read: a frame, or an error that wraps
  \<open>ErrSlowloris\<close>, \<open>ErrInvalidFrame\<close> or neither. The result says whether the loop returns, and with which
  error.\<close>

datatype readKind = ReadSlowloris | ReadInvalidFrame | ReadOther

datatype readResult = ReadFrameResult Frame | ReadFailed readKind go_error

definition runFailed :: "readKind \<Rightarrow> go_error \<Rightarrow> Session \<Rightarrow> Session" where
  "runFailed kind err s =
     (let s = (case kind of
            ReadSlowloris \<Rightarrow> snd (emitEvent (newEvent EventSlowloris (errorText err)) s)
          | ReadInvalidFrame \<Rightarrow> snd (emitEvent (newEvent EventProtocolViolation (errorText err)) s)
          | ReadOther \<Rightarrow> s);
          s = closeWriter (failOutgoing (Some err) (cleanupIncoming ''connection lost'' True s))
      in if sState s \<noteq> SessionClosed \<and> sState s \<noteq> SessionAuthRejected then setState SessionFailed s else s)"

definition runTurn :: "TransferEnv \<Rightarrow> int \<Rightarrow> readResult \<Rightarrow> Session \<Rightarrow> go_error option option \<times> Session" where
  "runTurn te now r s =
     (case r of
        ReadFailed kind err \<Rightarrow>
          if sState s = SessionClosed \<or> sState s = SessionClosing then (Some None, s)
          else (Some (Some err), runFailed kind err s)
      | ReadFrameResult frame \<Rightarrow>
          if sState s = SessionClosed then (Some None, s)
          else case HandleFrame te now frame s of
                 (Some err, s) \<Rightarrow>
                   let s = closeWriter (failOutgoing (Some err) (cleanupIncoming ''protocol handling failed'' False s));
                       s = (if sState s \<noteq> SessionAuthRejected then setState SessionFailed s else s)
                   in (Some (Some err), snd (closeTransport (sendEnv te) s))
               | (None, s) \<Rightarrow> (if sState s = SessionClosed then (Some None, s) else (None, s)))"

text \<open>One tick of the heartbeat goroutine; true when it ends.\<close>

definition heartbeatTick :: "SessionEnv \<Rightarrow> int \<Rightarrow> int \<Rightarrow> int \<Rightarrow> Session \<Rightarrow> bool \<times> Session" where
  "heartbeatTick env now lastRead lastWrite s =
     (let hb = scHeartbeat (sConfig s);
          lost = (\<lambda>message e s.
            let s = snd (emitEvent (newEvent EventProtocolViolation message) (setState SessionFailed s))
            in (True, snd (closeTransport env (closeWriter (failOutgoing (Some e) s)))))
      in if sState s = SessionClosed \<or> sState s = SessionFailed then (True, s)
         else if now - lastRead > hbTimeout hb then lost ''heartbeat timeout'' (Err ''heartbeat timeout'') s
         else if scRole (sConfig s) = RoleServer \<or> sState s \<noteq> SessionEstablished then (False, s)
         else if now - lastWrite \<le> hbInterval hb then (False, s)
         else case SendPing env s of
                (None, s) \<Rightarrow> (False, s)
              | (Some e, s) \<Rightarrow> lost ''heartbeat ping failed'' e s)"

definition handleWriterFailure :: "SessionEnv \<Rightarrow> go_error \<Rightarrow> Session \<Rightarrow> Session" where
  "handleWriterFailure env err s =
     (if sState s = SessionClosing \<or> sState s = SessionClosed \<or> sState s = SessionAuthRejected then s
      else let s = failOutgoing (Some err) (setState SessionFailed s);
               s = snd (closeTransport env s)
           in snd (emitEvent (newEvent EventWriteFailed (errorText err)) s))"

end
