(* ===== verification/Etp_Samples.thy ===== *)
theory Etp_Samples
  imports Etp_Session
begin

text \<open>
  Sessions at concrete inputs: the default configuration is its own normal form, a frame handed to an
  open writer is sent, and the environment, options and sessions at which the theorems of the
  session are evaluated.
\<close>

named_theorems sample_simps "definitions that evaluate the sample sessions"

lemma default_normalized: "normalizeSessionConfig (DefaultSessionConfig r) = DefaultSessionConfig r"
  by (simp add: normalizeSessionConfig_def default_role_idem DefaultSessionConfig_def normalizeFlow_def
      normalizeHeartbeat_def normalizeFrameLimits_def normalizeChunk_def normalizeInline_def
      normalizeSendQueue_def Let_def orDefault_def orDefaultW_def capChunk_def AllCapabilities_def
      DefaultCapabilities_def maxHeartbeatWire_def RoleClient_def RoleServer_def)

text \<open>A frame that can be encoded and that the peer takes is handed over.\<close>

definition openSession :: "SessionEnv \<Rightarrow> Session \<Rightarrow> bool" where
  "openSession env s \<longleftrightarrow> sHasTransport s \<and> sHasWriter s \<and> \<not> sWriterClosed s \<and> envSend env (sSends s) = None"

definition sendable :: "Session \<Rightarrow> Frame \<Rightarrow> bool" where
  "sendable s frame \<longleftrightarrow> frameEncodable frame
     \<and> (sRemoteFrame s = 0 \<or> HeaderSize + length (fPayload frame) \<le> unat (sRemoteFrame s))"

definition handed :: "Frame \<Rightarrow> Session \<Rightarrow> Session" where
  "handed frame s = s\<lparr>sSends := sSends s + 1, sSent := sSent s @ [frame]\<rparr>"

lemma sendable_size:
  assumes "sendable s frame"
  shows "length (fPayload frame) \<le> MaxFrameBytes - HeaderSize" "checkRemoteFrameSize s (int (EncodedFrameSize frame)) = None"
proof -
  show l: "length (fPayload frame) \<le> MaxFrameBytes - HeaderSize"
    using assms by (simp add: sendable_def frameEncodable_def)
  then have n: "EncodedFrameSize frame = HeaderSize + length (fPayload frame)"
    by (simp add: EncodedFrameSize_def)
  have "unat (word_of_int (int (HeaderSize + length (fPayload frame))) :: u32) = HeaderSize + length (fPayload frame)"
    unfolding of_int_of_nat_eq by (rule unat_small_length) (use l in simp)
  then show "checkRemoteFrameSize s (int (EncodedFrameSize frame)) = None"
    using assms l unfolding n
    by (auto simp: checkRemoteFrameSize_def sendable_def remoteMaxFrameBytes_def Let_def word_less_nat_alt)
qed

lemma send_open:
  assumes "openSession env s" "sendable s frame"
  shows "send env frame s = (None, handed frame s)" "sendAndWait env frame s = (None, handed frame s)"
proof -
  note size' = sendable_size [OF assms(2)]
  have e: "\<exists>d. EncodeFrameInto [] frame = Inr d"
    using assms(2) EncodeFrameInto_eq by (auto simp: sendable_def)
  then show "send env frame s = (None, handed frame s)" "sendAndWait env frame s = (None, handed frame s)"
    using assms size'
    by (auto simp: send_def sendContext_def sendAndWait_def with_result_def handOver_def openSession_def handed_def Let_def)
qed

text \<open>An environment in which every hand-over succeeds, and no handler is set.\<close>

definition quietEnv :: SessionEnv where
  "quietEnv = \<lparr>envSend = (\<lambda>_. None), envFlush = None, envTransportClose = None, envEstablished = None,
     envAuth = None, envText = None, envRequest = None, envResponse = None\<rparr>"

lemma quietEnv_simps [simp]:
  "envSend quietEnv n = None" "envFlush quietEnv = None" "envTransportClose quietEnv = None"
  "envEstablished quietEnv = None" "envAuth quietEnv = None" "envText quietEnv = None"
  "envRequest quietEnv = None" "envResponse quietEnv = None"
  by (simp_all add: quietEnv_def)

lemma frameEncodable_headed [simp]:
  "frameEncodable (headed t schema payload priority channel flags i) \<longleftrightarrow>
     length payload \<le> MaxFrameBytes - HeaderSize
     \<and> FrameData \<le> t \<and> t \<le> FrameTransferResume \<and> priority \<le> PriorityIdle \<and> channel \<le> ChannelBackground
     \<and> flags AND NOT knownFrameFlags = 0 \<and> flags AND (FlagEncrypted OR FlagCompressed) = 0"
  by (auto simp: frameEncodable_def headed_def NewFrame_def Let_def stampHeader_def validateHeaderValues_def
      emptyHeader_def not_less)

lemma fPayload_headed [simp]: "fPayload (headed t schema payload priority channel flags i) = payload"
  by (simp add: headed_def NewFrame_def Let_def)

text \<open>A new session with the default configuration of a role.\<close>

definition newDefault :: "string \<Rightarrow> Session" where
  "newDefault role = NewSessionWithConfig True None (DefaultSessionConfig role)"

lemma newDefault_fields [simp]:
  "sConfig (newDefault role) = DefaultSessionConfig role" "sState (newDefault role) = SessionNew"
  "sHasTransport (newDefault role)" "sHasWriter (newDefault role)" "\<not> sWriterClosed (newDefault role)"
  "sRemoteFrame (newDefault role) = 0" "sRemoteCaps (newDefault role) = 0" "sRemoteHello (newDefault role) = None"
  "sOutgoing (newDefault role) = []" "sIncoming (newDefault role) = []" "sDetached (newDefault role) = []"
  "sSends (newDefault role) = 0" "sSent (newDefault role) = []" "sReceiveBytes (newDefault role) = 0"
  "sOpening (newDefault role) = []" "sLastIncoming (newDefault role) = 0" "sEvents (newDefault role) = []"
  "sCalls (newDefault role) = []" "sCompleted (newDefault role) = []" "sCompletedIDs (newDefault role) = []"
  "\<not> sRunning (newDefault role)" "sHandlerJobs (newDefault role) = []"
  "sWriterLog (newDefault role) = []" "sCloseAck (newDefault role) = []" "\<not> sTransportClosed (newDefault role)"
  "sOpens (newDefault role) = []" "sPeerClose (newDefault role) = None" "\<not> sPeerCloseSeen (newDefault role)"
  "sRate (newDefault role) = \<lparr>rlWindowStart = None, rlFrames = 0, rlBytes = 0\<rparr>"
  by (simp_all add: newDefault_def NewSessionWithConfig_def default_normalized Let_def setState_def
      applyReceiveFrameLimit_def) (simp_all add: DefaultSessionConfig_def)

lemma openSession_new [simp]: "openSession quietEnv (newDefault role)"
  by (simp add: openSession_def)

end
