(* ===== verification/Etp_Window.thy ===== *)
theory Etp_Window
  imports Etp_Samples
begin

text \<open>
  What outgoing transfers keep: exact chunk arithmetic, the accounting of the bytes in flight under
  every operation of the session, acknowledgements as a filter on the pending chunks, and the
  monitor that gives a transfer up.
\<close>

section \<open>Chunk arithmetic is exact\<close>

definition chunksNeeded :: "nat \<Rightarrow> nat \<Rightarrow> nat" where
  "chunksNeeded tot chunk = (tot + chunk - 1) div chunk"

lemma chunksNeeded_Suc: "0 < chunk \<Longrightarrow> 0 < tot \<Longrightarrow> chunksNeeded tot chunk = 1 + (tot - 1) div chunk"
proof -
  assume "0 < chunk" "0 < tot"
  then have "tot + chunk - 1 = chunk + (tot - 1)" by simp
  then have "chunksNeeded tot chunk = (chunk + (tot - 1)) div chunk"
    by (simp only: chunksNeeded_def)
  with \<open>0 < chunk\<close> show ?thesis by (simp only: div_add_self1 add.commute [of 1])
qed

lemma chunksNeeded_less: "k < chunksNeeded tot chunk \<Longrightarrow> 0 < chunk \<Longrightarrow> k * chunk < tot"
proof -
  assume k: "k < chunksNeeded tot chunk" and c: "0 < chunk"
  then have "0 < tot" by (cases "tot = 0") (simp_all add: chunksNeeded_def)
  with k c have "k \<le> (tot - 1) div chunk" by (simp add: chunksNeeded_Suc)
  then have "k * chunk \<le> tot - 1" using c by (simp add: less_eq_div_iff_mult_less_eq)
  with \<open>0 < tot\<close> show ?thesis by linarith
qed

lemma chunksNeeded_mult_le: "0 < chunk \<Longrightarrow> tot \<le> chunksNeeded tot chunk * chunk"
proof (cases "tot = 0")
  case False
  assume c: "0 < chunk"
  have "tot - 1 < ((tot - 1) div chunk + 1) * chunk"
    using c by (metis Suc_eq_plus1 dividend_less_times_div mult.commute mult_Suc_right add.commute)
  with c False show ?thesis by (simp add: chunksNeeded_Suc)
qed simp

lemma unat_ucast_32_64 [simp]: "unat (ucast (w :: u32) :: u64) = unat w"
  by transfer (simp add: take_bit_take_bit)

lemma u64_less: "unat (w :: u64) < 2 ^ 64"
  using unsigned_less [of w, where ?'a = nat] by simp

lemma chunkCountFor_eq:
  assumes "0 < unat chunk"
  shows "chunkCountFor tot chunk =
    Inr (if chunksNeeded (unat tot) (unat chunk) < 2 ^ 32 then of_nat (chunksNeeded (unat tot) (unat chunk)) else - 1)"
proof (cases "tot = 0")
  case True
  with assms show ?thesis by (simp add: chunkCountFor_def chunksNeeded_def)
next
  case False
  then have t: "0 < unat tot" by (simp add: unat_gt_0)
  let ?q = "1 + (tot - 1) div ucast chunk :: u64" and ?n = "chunksNeeded (unat tot) (unat chunk)"
  have "unat (tot - 1) = unat tot - 1"
    using False by (simp add: unat_sub word_le_nat_alt Suc_leI [OF t])
  then have d: "unat ((tot - 1) div ucast chunk :: u64) = (unat tot - 1) div unat chunk"
    by (simp add: unat_div)
  have "(unat tot - 1) div unat chunk < 2 ^ 64 - 1"
    using t u64_less [of tot] div_le_dividend [of "unat tot - 1" "unat chunk"] by linarith
  then have q: "unat ?q = ?n"
    unfolding chunksNeeded_Suc [OF assms t] d [symmetric] by (simp add: unat_word_ariths(1))
  then have cast: "ucast ?q = (of_nat ?n :: u32)"
    by (metis of_nat_unat)
  have "?q > ucast (- 1 :: u32) \<longleftrightarrow> \<not> ?n < 2 ^ 32"
  proof -
    have "unat (- 1 :: u32) = 2 ^ 32 - 1" by (simp add: unsigned_minus_1_eq_mask mask_eq_exp_minus_1)
    then show ?thesis unfolding word_less_nat_alt q unat_ucast_32_64 by (simp, linarith)
  qed
  with assms False cast show ?thesis
    by (auto simp: chunkCountFor_def Let_def unat_gt_0)
qed

lemma transferOffset_eq:
  assumes "0 < unat chunk" "chunksNeeded (unat tot) (unat chunk) < 2 ^ 32"
  shows "transferOffsetForChunk tot chunk k =
    (if unat k \<le> chunksNeeded (unat tot) (unat chunk) then Some (of_nat (min (unat tot) (unat k * unat chunk))) else None)"
proof -
  let ?n = "chunksNeeded (unat tot) (unat chunk)"
  have n: "unat (of_nat ?n :: u32) = ?n"
    using assms(2) by (simp add: unat_of_nat)
  have k32: "unat k < 2 ^ 32" "unat chunk < 2 ^ 32"
    using unsigned_less [of k, where ?'a = nat] unsigned_less [of chunk, where ?'a = nat] by simp_all
  then have "unat k * unat chunk < 2 ^ 32 * 2 ^ 32"
    by (intro mult_strict_mono) simp_all
  then have off: "unat (ucast k * ucast chunk :: u64) = unat k * unat chunk"
    by (simp add: unat_word_ariths)
  have ge: "unat tot \<le> ?n * unat chunk" by (rule chunksNeeded_mult_le [OF assms(1)])
  have c0: "chunk \<noteq> 0" using assms(1) by auto
  consider "unat k > ?n" | "unat k = ?n" | "unat k < ?n" by linarith
  then show ?thesis
  proof cases
    case 1
    then show ?thesis
      using assms c0 by (simp add: transferOffsetForChunk_def chunkCountFor_eq word_less_nat_alt n)
  next
    case 2
    then have "k = of_nat ?n" by (metis of_nat_unat ucast_id)
    moreover have "min (unat tot) (unat k * unat chunk) = unat tot" using ge 2 by simp
    ultimately show ?thesis
      using assms c0 2 by (simp add: transferOffsetForChunk_def chunkCountFor_eq n)
  next
    case 3
    then have lt: "unat k * unat chunk < unat tot" by (rule chunksNeeded_less [OF _ assms(1)])
    have "k \<noteq> of_nat ?n" using 3 n by auto
    moreover have "of_nat (unat k * unat chunk) = (ucast k * ucast chunk :: u64)"
      by (metis off of_nat_unat ucast_id)
    ultimately show ?thesis
      using assms c0 3 lt
      by (simp add: transferOffsetForChunk_def chunkCountFor_eq word_less_nat_alt word_le_nat_alt n off Let_def)
  qed
qed

text \<open>Chunk arithmetic is exact: a transfer that needs fewer than \<open>2 ^ 32\<close> chunks is announced with the
  quotient rounded up, and the offset of chunk \<open>k\<close> is \<open>k\<close> times the chunk size, cut at the total, for every
  \<open>k\<close> up to the count and for no other; a larger transfer saturates at the maximum.\<close>

theorem chunk_arithmetic:
  fixes tot :: u64 and chunk k :: u32
  assumes "chunk \<noteq> 0"
  defines "n \<equiv> chunksNeeded (unat tot) (unat chunk)"
  shows "(n < 2 ^ 32 \<longrightarrow> chunkCountFor tot chunk = Inr (of_nat n)
      \<and> transferOffsetForChunk tot chunk k =
          (if unat k \<le> n then Some (of_nat (min (unat tot) (unat k * unat chunk))) else None))
    \<and> (2 ^ 32 \<le> n \<longrightarrow> chunkCountFor tot chunk = Inr (- 1))"
proof -
  have c: "0 < unat chunk" using assms(1) by (simp add: unat_gt_0)
  show ?thesis
    unfolding n_def chunkCountFor_eq [OF c] using transferOffset_eq [OF c] by simp
qed

theorem chunk_arithmetic_witness:
  "chunkCountFor 10 4 = Inr 3 \<and> transferOffsetForChunk 10 4 2 = Some 8 \<and> transferOffsetForChunk 10 4 4 = None"
  using chunk_arithmetic [of 4 10 2] chunk_arithmetic [of 4 10 4] by (simp add: chunksNeeded_def)

section \<open>The window of an outgoing transfer\<close>

text \<open>Bytes of a list of chunks, as a number.\<close>

definition chunkBytes :: "sentChunk list \<Rightarrow> nat" where
  "chunkBytes chunks = sum_list (map (\<lambda>c. unat (skPayloadN c)) chunks)"

lemma chunkBytes_simps [simp]:
  "chunkBytes [] = 0" "chunkBytes (c # cs) = unat (skPayloadN c) + chunkBytes cs"
  "chunkBytes (cs @ ds) = chunkBytes cs + chunkBytes ds"
  by (simp_all add: chunkBytes_def)

lemma chunkBytes_map: "(\<And>c. c \<in> set cs \<Longrightarrow> skPayloadN (f c) = skPayloadN c) \<Longrightarrow> chunkBytes (map f cs) = chunkBytes cs"
  unfolding chunkBytes_def map_map o_def by (metis (mono_tags, lifting) map_cong)

definition inRange :: "u32 \<Rightarrow> u32 \<Rightarrow> sentChunk \<Rightarrow> bool" where
  "inRange from to c \<longleftrightarrow> skChunkID c \<ge> from \<and> skChunkID c \<le> to"

lemma chunkBytes_filter: "chunkBytes (filter P cs) + chunkBytes (filter (\<lambda>c. \<not> P c) cs) = chunkBytes cs"
  by (induction cs) auto

lemma ackLoop_Cons:
  "ackLoop from to (c # cs) (matched, acked, pending) =
     (if inRange from to c
      then ackLoop from to cs (True, acked + skPayloadN c, if pending \<ge> skPayloadN c then pending - skPayloadN c else 0)
      else apfst (\<lambda>dst. c # dst) (ackLoop from to cs (matched, acked, pending)))"
  by (simp add: inRange_def)

text \<open>The loop of \<open>applyAck\<close> as a filter.\<close>

lemma ackLoop_eq:
  assumes "chunkBytes cs \<le> unat pending" "unat acked + chunkBytes cs < 2 ^ 64"
  shows "ackLoop from to cs (matched, acked, pending) =
    (filter (\<lambda>c. \<not> inRange from to c) cs, matched \<or> list_ex (inRange from to) cs,
     acked + of_nat (chunkBytes (filter (inRange from to) cs)),
     pending - of_nat (chunkBytes (filter (inRange from to) cs)))"
  using assms
proof (induction cs arbitrary: matched acked pending)
  case (Cons c cs)
  show ?case
  proof (cases "inRange from to c")
    case True
    have p: "skPayloadN c \<le> pending" using Cons.prems(1) by (simp add: word_le_nat_alt)
    have "unat (pending - skPayloadN c) = unat pending - unat (skPayloadN c)"
      using p by (simp add: unat_sub)
    moreover have "unat (acked + skPayloadN c) = unat acked + unat (skPayloadN c)"
      using Cons.prems(2) by (simp add: unat_word_ariths)
    ultimately have "ackLoop from to cs (True, acked + skPayloadN c, pending - skPayloadN c) =
      (filter (\<lambda>c. \<not> inRange from to c) cs, True,
       acked + skPayloadN c + of_nat (chunkBytes (filter (inRange from to) cs)),
       pending - skPayloadN c - of_nat (chunkBytes (filter (inRange from to) cs)))"
      using Cons.IH [of "pending - skPayloadN c" "acked + skPayloadN c" True] Cons.prems by simp
    then show ?thesis
      using True p by (simp add: ackLoop_Cons algebra_simps del: ackLoop.simps)
  next
    case False
    then show ?thesis
      using Cons.IH [of pending acked matched] Cons.prems by (simp add: ackLoop_Cons del: ackLoop.simps)
  qed
qed simp

text \<open>The accounting invariant: the pending bytes are the bytes of the pending chunks, both bounds hold,
  and no pending chunk is marked acknowledged.\<close>

definition chunkOk :: "int \<Rightarrow> sentChunk \<Rightarrow> bool" where
  "chunkOk limit c \<longleftrightarrow> \<not> skAcked c \<and> 0 \<le> skRetries c \<and> skRetries c \<le> max 0 limit"

definition windowInv :: "outgoingTransfer \<Rightarrow> bool" where
  "windowInv ot \<longleftrightarrow>
     unat (otPendingBytes ot) = chunkBytes (otPending ot)
     \<and> otPendingBytes ot \<le> otMaxInFlightBytes ot
     \<and> int (length (otPending ot)) \<le> max 0 (otMaxInFlight ot)
     \<and> (\<forall>c \<in> set (otPending ot). chunkOk (otRetryLimit ot) c)"

lemma ackLoop_subset: "set (fst (ackLoop from to cs acc)) \<subseteq> set cs \<and> length (fst (ackLoop from to cs acc)) \<le> length cs"
proof (induction cs arbitrary: acc)
  case (Cons c cs)
  show ?case
    using Cons.IH by (cases acc) (force simp: le_SucI)
qed simp

text \<open>Without a bound on what was acknowledged the sum may wrap, but the pending side stays exact.\<close>

lemma ackLoop_pending:
  "chunkBytes cs \<le> unat pending \<Longrightarrow>
   \<exists>m a. ackLoop from to cs (matched, acked, pending) =
     (filter (\<lambda>c. \<not> inRange from to c) cs, m, a, pending - of_nat (chunkBytes (filter (inRange from to) cs)))"
proof (induction cs arbitrary: matched acked pending)
  case (Cons c cs)
  show ?case
  proof (cases "inRange from to c")
    case True
    have p: "skPayloadN c \<le> pending" using Cons.prems by (simp add: word_le_nat_alt)
    then have "chunkBytes cs \<le> unat (pending - skPayloadN c)"
      using Cons.prems by (simp add: unat_sub)
    from Cons.IH [OF this, of True "acked + skPayloadN c"] True p show ?thesis
      by (auto simp: ackLoop_Cons algebra_simps simp del: ackLoop.simps)
  next
    case False
    with Cons.IH [of pending matched acked] Cons.prems show ?thesis
      by (auto simp: ackLoop_Cons simp del: ackLoop.simps)
  qed
qed simp

lemma windowInv_ack:
  assumes "windowInv ot"
  shows "windowInv (snd (ackTransfer ack ot))"
proof -
  let ?P = "inRange (ackChunkFrom ack) (ackChunkTo ack)"
  let ?out = "filter (\<lambda>c. \<not> ?P c) (otPending ot)" and ?n = "chunkBytes (filter ?P (otPending ot))"
  note inv = assms [unfolded windowInv_def]
  obtain m a where loop: "ackLoop (ackChunkFrom ack) (ackChunkTo ack) (otPending ot) (False, otAckedBytes ot, otPendingBytes ot)
      = (?out, m, a, otPendingBytes ot - of_nat ?n)"
    using ackLoop_pending [of "otPending ot" "otPendingBytes ot"] inv by fastforce
  have sum: "?n + chunkBytes ?out = chunkBytes (otPending ot)" by (rule chunkBytes_filter)
  have n: "unat (of_nat ?n :: u64) = ?n" "?n \<le> unat (otPendingBytes ot)"
    using sum inv unsigned_less [of "otPendingBytes ot", where ?'a = nat] by (simp_all add: unat_of_nat)
  then have "unat (otPendingBytes ot - of_nat ?n) = chunkBytes ?out"
    using sum inv by (simp add: unat_sub word_le_nat_alt)
  moreover have "otPendingBytes ot - of_nat ?n \<le> otMaxInFlightBytes ot"
    using inv n by (simp add: word_le_nat_alt unat_sub) linarith
  moreover have "int (length ?out) \<le> max 0 (otMaxInFlight ot)"
    using inv length_filter_le [of "\<lambda>c. \<not> ?P c" "otPending ot"] by linarith
  ultimately have "windowInv (ot\<lparr>otPending := ?out, otAckedBytes := a, otPendingBytes := otPendingBytes ot - of_nat ?n, otFailed := f\<rparr>)"
    "windowInv (ot\<lparr>otPending := ?out, otAckedBytes := a, otPendingBytes := otPendingBytes ot - of_nat ?n\<rparr>)" for f
    using inv by (auto simp: windowInv_def)
  with assms show ?thesis
    by (simp add: ackTransfer_def loop Let_def)
qed

lemma windowInv_update:
  "windowInv ot \<Longrightarrow> windowInv (ot\<lparr>otFailed := f\<rparr>)"
  "windowInv ot \<Longrightarrow> windowInv (ot\<lparr>otCompleted := b\<rparr>)"
  "windowInv ot \<Longrightarrow> windowInv (ot\<lparr>otDoneSending := b\<rparr>)"
  "windowInv ot \<Longrightarrow> windowInv (ot\<lparr>otHasRemoteWindow := h, otRemoteWindowBytes := rb, otRemoteWindowChunks := rc\<rparr>)"
  "windowInv ot \<Longrightarrow> windowInv (ot\<lparr>otRemoteWindowBytes := rb, otRemoteWindowChunks := rc, otHasRemoteWindow := h\<rparr>)"
  "windowInv ot \<Longrightarrow> windowInv (ot\<lparr>otAckedBytes := a, otResumeBytes := x, otResumeChunk := y, otResumeAccepted := b, otResumeDecided := d\<rparr>)"
  "windowInv ot \<Longrightarrow> windowInv (ot\<lparr>otDoneSending := b, otEndFrame := f', otCommitSentAt := t\<rparr>)"
  "windowInv ot \<Longrightarrow> windowInv (ot\<lparr>otCommitRetries := r, otCommitSentAt := t\<rparr>)"
  "windowInv ot \<Longrightarrow> windowInv (fail e ot)"
  by (simp_all add: windowInv_def fail_def)

lemma windowInv_admit:
  assumes "windowInv ot" "\<not> chunkBlocked ot n" "otFailed ot = None" "unat n < 2 ^ 32" "unat (otMaxInFlightBytes ot) \<le> 2 ^ 63"
  shows "windowInv (admitChunk now frame n ot)"
proof -
  note inv = assms(1) [unfolded windowInv_def]
  have b: "int (length (otPending ot)) < otMaxInFlight ot" "otPendingBytes ot + n \<le> otMaxInFlightBytes ot"
    using assms(2,3) by (auto simp: chunkBlocked_def not_less)
  have "unat (otPendingBytes ot) \<le> 2 ^ 63"
    using inv assms(5) by (simp add: word_le_nat_alt)
  then have "unat (otPendingBytes ot + n) = unat (otPendingBytes ot) + unat n"
    using assms(4) by (simp add: unat_word_ariths)
  with b inv show ?thesis
    by (auto simp: windowInv_def admitChunk_def Let_def chunkOk_def)
qed

lemma chunkOk_retry:
  "chunkOk limit c \<Longrightarrow> \<not> limit \<le> skRetries c \<Longrightarrow> chunkOk limit (c\<lparr>skRetries := skRetries c + 1, skSentAt := now\<rparr>)"
  by (simp add: chunkOk_def)

lemma nackLoop_chunks:
  "nackLoop now limit from to cs = (cs', frames, ex) \<Longrightarrow>
    chunkBytes cs' = chunkBytes cs \<and> length cs' = length cs
    \<and> ((\<forall>c \<in> set cs. chunkOk limit c) \<longrightarrow> (\<forall>c \<in> set cs'. chunkOk limit c))"
proof (induction cs arbitrary: cs' frames ex)
  case (Cons c cs)
  obtain r f e where r: "nackLoop now limit from to cs = (r, f, e)" by (metis prod_cases3)
  note IH = Cons.IH [OF r]
  consider "cs' = c # cs" | "cs' = c # r" | "\<not> limit \<le> skRetries c" "cs' = c\<lparr>skRetries := skRetries c + 1, skSentAt := now\<rparr> # r"
    using Cons.prems by (force simp: r split: if_splits)
  then show ?case
    by cases (use IH chunkOk_retry in auto)
qed simp

lemma windowInv_nack:
  "windowInv ot \<Longrightarrow> nackLoop now (otRetryLimit ot) from to (otPending ot) = (cs', frames, ex) \<Longrightarrow>
   windowInv (ot\<lparr>otPending := cs'\<rparr>)"
  using nackLoop_chunks [of now "otRetryLimit ot" "from" to "otPending ot" cs' frames ex] by (simp add: windowInv_def)

lemma chunkTimeouts_Cons:
  "chunkTimeouts now ot (c # cs) p = (cs', e, p') \<Longrightarrow>
   cs' = c # cs \<or> (\<exists>q r. chunkTimeouts now ot cs q = (r, e, p') \<and>
     (cs' = c # r \<or> \<not> otRetryLimit ot \<le> skRetries c \<and> cs' = c\<lparr>skRetries := skRetries c + 1, skSentAt := now\<rparr> # r))"
  by (auto simp: Let_def apfst_def map_prod_def split: if_splits prod.splits)

lemma chunkTimeouts_chunks:
  "chunkTimeouts now ot cs p = (cs', e, p') \<Longrightarrow>
    chunkBytes cs' = chunkBytes cs \<and> length cs' = length cs
    \<and> ((\<forall>c \<in> set cs. chunkOk (otRetryLimit ot) c) \<longrightarrow> (\<forall>c \<in> set cs'. chunkOk (otRetryLimit ot) c))"
proof (induction cs arbitrary: cs' e p p')
  case (Cons c cs)
  from chunkTimeouts_Cons [OF Cons.prems] consider "cs' = c # cs"
    | q r where "chunkTimeouts now ot cs q = (r, e, p')" "cs' = c # r"
    | q r where "chunkTimeouts now ot cs q = (r, e, p')" "\<not> otRetryLimit ot \<le> skRetries c"
        "cs' = c\<lparr>skRetries := skRetries c + 1, skSentAt := now\<rparr> # r"
    by blast
  then show ?case
    by cases (use Cons.IH chunkOk_retry in \<open>auto dest!: Cons.IH\<close>)
qed simp

lemma commitTimeout_pending:
  "commitTimeout now (ot, p) = (ot', p') \<Longrightarrow>
   otPending ot' = otPending ot \<and> otPendingBytes ot' = otPendingBytes ot \<and> otMaxInFlight ot' = otMaxInFlight ot
   \<and> otMaxInFlightBytes ot' = otMaxInFlightBytes ot \<and> otRetryLimit ot' = otRetryLimit ot"
  by (auto simp: commitTimeout_def Let_def split: option.splits if_splits)

lemma windowInv_timeout:
  assumes "windowInv ot"
  shows "windowInv (fst (timeoutTransfer now ot p))"
proof -
  obtain ot1 p1 where c: "commitTimeout now (ot, p) = (ot1, p1)" by force
  obtain cs e p2 where t: "chunkTimeouts now ot1 (otPending ot1) p1 = (cs, e, p2)" by (metis prod_cases3)
  have "windowInv ot1"
    using assms commitTimeout_pending [OF c] by (simp add: windowInv_def)
  then have "windowInv (ot1\<lparr>otPending := cs, otFailed := e\<rparr>)"
    using chunkTimeouts_chunks [OF t] by (simp add: windowInv_def)
  with assms \<open>windowInv ot1\<close> show ?thesis
    by (simp add: timeoutTransfer_def c t)
qed

lemma timeoutAll_map_of:
  "map_of (fst (timeoutAll now al p)) i = Some ot' \<Longrightarrow>
   \<exists>ot q. map_of al i = Some ot \<and> ot' = fst (timeoutTransfer now ot q)"
proof (induction al arbitrary: p)
  case (Cons x al)
  obtain j ot where x: "x = (j, ot)" by force
  obtain o1 p1 where 1: "timeoutTransfer now ot p = (o1, p1)" by force
  obtain r p2 where 2: "timeoutAll now al p1 = (r, p2)" by force
  from Cons.IH [of p1] Cons.prems show ?case
    by (auto simp: x 1 2 split: if_splits intro: exI [of _ p])
qed simp

section \<open>The session keeps every window\<close>

definition windowsInv :: "Session \<Rightarrow> bool" where
  "windowsInv s \<longleftrightarrow> unat (fcMaxSendBufferBytes (scFlowControl (sConfig s))) \<le> 2 ^ 63
     \<and> (\<forall>i ot. map_of (sOutgoing s) i = Some ot \<longrightarrow> windowInv ot \<and> unat (otMaxInFlightBytes ot) \<le> 2 ^ 63)"

lemma windowsInv_put:
  "windowsInv s \<Longrightarrow> windowInv ot \<Longrightarrow> unat (otMaxInFlightBytes ot) \<le> 2 ^ 63 \<Longrightarrow> windowsInv (putOutgoing i ot s)"
  by (simp add: windowsInv_def putOutgoing_def update_conv')

lemma windowsInv_chat: "windowsInv s \<Longrightarrow> chat s s' \<Longrightarrow> windowsInv s'"
  by (simp add: windowsInv_def chat_fields)

lemma windowsInv_look:
  "windowsInv s \<Longrightarrow> map_of (sOutgoing s) i = Some ot \<Longrightarrow> windowInv ot \<and> unat (otMaxInFlightBytes ot) \<le> 2 ^ 63"
  by (simp add: windowsInv_def)

lemma kept_limits [simp]:
  "otMaxInFlightBytes (admitChunk now frame n ot) = otMaxInFlightBytes ot"
  "otMaxInFlightBytes (fail e ot) = otMaxInFlightBytes ot"
  "otMaxInFlightBytes (snd (ackTransfer ack ot)) = otMaxInFlightBytes ot"
  by (simp_all add: admitChunk_def fail_def ackTransfer_def Let_def split: prod.split)

lemma timeout_limits [simp]: "otMaxInFlightBytes (fst (timeoutTransfer now ot p)) = otMaxInFlightBytes ot"
proof -
  obtain ot1 p1 where c: "commitTimeout now (ot, p) = (ot1, p1)" by force
  show ?thesis
    using commitTimeout_pending [OF c] by (simp add: timeoutTransfer_def c split: prod.split)
qed

lemma windowsInv_register:
  assumes "windowsInv s"
  shows "windowsInv (snd (registerOutgoing i opts s))"
proof (cases "newOutgoing s i opts")
  case (Inl e)
  with assms show ?thesis by (simp add: registerOutgoing_def with_result_def ret_def)
next
  case (Inr ot)
  let ?limit = "fcMaxSendBufferBytes (scFlowControl (sConfig s))"
  have "otPending ot = []" "otPendingBytes ot = 0" "otMaxInFlightBytes ot \<le> ?limit"
    using Inr by (auto simp: newOutgoing_def Let_def go_try_def split: sum.splits)
  then have "windowInv ot" "unat (otMaxInFlightBytes ot) \<le> 2 ^ 63"
    using assms by (auto simp: windowInv_def windowsInv_def word_le_nat_alt)
  with assms Inr show ?thesis
    using windowsInv_put [of s ot i] by (simp add: registerOutgoing_def with_result_def putOutgoing_def)
qed

lemma windowsInv_fail:
  "windowsInv s \<Longrightarrow> windowsInv (case map_of (sOutgoing s) i of None \<Rightarrow> s | Some ot \<Rightarrow> putOutgoing i (fail err ot) s)"
  by (auto split: option.split dest: windowsInv_look intro!: windowsInv_put windowInv_update)

lemma windowsInv_chunk:
  assumes "windowsInv s" "unat n < 2 ^ 32"
  shows "windowsInv (snd (sendReliableChunk env now i frame n s))"
proof (cases "map_of (sOutgoing s) i")
  case None
  with assms(1) show ?thesis
    using windowsInv_chat [OF _ chat_send] by (simp add: sendReliableChunk_def)
next
  case (Some ot)
  let ?s = "putOutgoing i (admitChunk now frame n ot) s"
  show ?thesis
  proof (cases "chunkBlocked ot n \<or> otFailed ot \<noteq> None")
    case True
    with assms(1) Some show ?thesis by (auto simp: sendReliableChunk_def)
  next
    case False
    then have "windowsInv ?s"
      using windowsInv_look [OF assms(1) Some] assms by (auto intro!: windowsInv_put windowInv_admit)
    then have sent: "windowsInv (snd (sendContext env frame ?s))"
      by (rule windowsInv_chat) (rule chat_sendContext)
    obtain r b where eq: "sendContext env frame ?s = (r, b)" by force
    with sent have b: "windowsInv b" by simp
    show ?thesis
      using False Some windowsInv_fail [OF b, of i] b
      by (auto simp: sendReliableChunk_def eq Let_def split: option.split)
  qed
qed

lemma windowsInv_with:
  "windowsInv s \<Longrightarrow> (\<And>x. r = Inr x \<Longrightarrow> windowsInv (snd (k x s))) \<Longrightarrow> windowsInv (snd (with_result r k s))"
  by (simp add: with_result_def ret_def split: sum.split)

lemma windowsInv_applyAck: "windowsInv s \<Longrightarrow> windowsInv (snd (applyAck ack s))"
  by (auto simp: applyAck_def split: option.split dest: windowsInv_look intro!: windowsInv_put windowInv_ack)

lemma windowsInv_modify:
  assumes "windowsInv s" "map_of (sOutgoing s) i = Some ot" "windowInv ot \<Longrightarrow> windowInv ot'"
    "otMaxInFlightBytes ot' = otMaxInFlightBytes ot"
  shows "windowsInv (putOutgoing i ot' s)"
  using windowsInv_look [OF assms(1,2)] assms by (intro windowsInv_put) simp_all

lemma windowsInv_branch:
  "windowsInv (snd x) \<Longrightarrow> windowsInv (snd y) \<Longrightarrow> windowsInv (snd (if c then x else y))"
  "windowsInv (snd x) \<Longrightarrow> (\<And>v. m = Some v \<Longrightarrow> windowsInv (snd (f v))) \<Longrightarrow>
    windowsInv (snd (case m of None \<Rightarrow> x | Some v \<Rightarrow> f v))"
  by (auto split: option.split)

lemma windowsInv_HandleAck: "windowsInv s \<Longrightarrow> windowsInv (snd (HandleAck frame s))"
  unfolding HandleAck_def
proof (intro windowsInv_branch windowsInv_with)
  fix ack assume s: "windowsInv s"
  obtain r b where eq: "applyAck ack s = (r, b)" by force
  with windowsInv_applyAck [OF s, of ack] have "windowsInv b" by simp
  then have "windowsInv (snd (emitProgress p b))" for p
    by (rule windowsInv_chat) (rule chat_emit)
  with \<open>windowsInv b\<close> show "windowsInv (snd (op_try (applyAck ack) (emitProgress p) s))" for p
    by (simp add: op_try_def eq split: option.split)
qed simp_all

lemma chat_sendFrames: "chat s (snd (sendFrames env frames s))"
  by (induction frames arbitrary: s) (auto intro!: chat_op_try chat_send)

lemma windowsInv_applyNack:
  assumes "windowsInv s"
  shows "windowsInv (snd (applyNack env now nack s))"
proof (cases "map_of (sOutgoing s) (nackTransferID nack)")
  case None
  with assms show ?thesis by (simp add: applyNack_def)
next
  case (Some ot)
  note ot = windowsInv_look [OF assms Some]
  obtain cs frames ex where n: "nackLoop now (otRetryLimit ot) (nackChunkFrom nack) (nackChunkTo nack) (otPending ot) = (cs, frames, ex)"
    by (metis prod_cases3)
  have w: "windowInv (ot\<lparr>otPending := cs\<rparr>)"
    using windowInv_nack [OF _ n] ot by blast
  let ?s = "putOutgoing (nackTransferID nack) (ot\<lparr>otPending := cs\<rparr>) s"
  have s: "windowsInv ?s" using assms w ot by (auto intro!: windowsInv_put)
  then have sent: "windowsInv (snd (sendFrames env frames ?s))"
    by (rule windowsInv_chat) (rule chat_sendFrames)
  have "windowsInv (putOutgoing (nackTransferID nack) (ot\<lparr>otPending := cs, otFailed := f\<rparr>) s)" for f
    using assms w ot windowInv_update(1) [OF w, of f] by (auto intro!: windowsInv_put)
  moreover have "windowsInv (putOutgoing (nackTransferID nack) (ot\<lparr>otFailed := f\<rparr>) s)"
    "windowsInv (putOutgoing (nackTransferID nack) (ot\<lparr>otHasRemoteWindow := True, otRemoteWindowBytes := 0, otRemoteWindowChunks := 0\<rparr>) s)" for f
    using assms ot by (auto intro!: windowsInv_put windowInv_update)
  moreover obtain r b where eq: "sendFrames env frames ?s = (r, b)" by force
  moreover from sent eq have b: "windowsInv b" by simp
  ultimately show ?thesis
    using Some n windowsInv_fail [OF b, of "nackTransferID nack"]
    by (auto simp: applyNack_def Let_def split: option.split)
qed

lemma windowsInv_HandleNack: "windowsInv s \<Longrightarrow> windowsInv (snd (HandleNack env now frame s))"
  unfolding HandleNack_def op_seq_def
  by (intro windowsInv_branch windowsInv_with windowsInv_applyNack windowsInv_chat [OF _ chat_emit(1)]) simp_all

lemma windowsInv_HandleWindow: "windowsInv s \<Longrightarrow> windowsInv (snd (HandleWindow frame s))"
  unfolding HandleWindow_def
  by (rule windowsInv_with, assumption) (intro windowsInv_branch; simp add: windowsInv_modify windowInv_update)

lemma windowsInv_transferState: 
  assumes "windowsInv s"
  shows "windowsInv (snd (handleIncomingTransferState frame s))"
proof -
  note fail = windowsInv_fail [OF assms]
  show ?thesis
    unfolding handleIncomingTransferState_def Let_def
    by (rule windowsInv_with, rule assms)
      (intro windowsInv_branch; simp add: assms fail windowsInv_modify windowInv_update
        windowsInv_chat [OF _ chat_emit(1)])
qed

lemma windowsInv_runTasks: "windowsInv s \<Longrightarrow> windowsInv (runTasks env tasks s)"
proof (induction tasks arbitrary: s)
  case (Cons task tasks)
  have step: "windowsInv (snd (send env f s'))" if "windowsInv s'" for s' f
    using that by (rule windowsInv_chat) (rule chat_send)
  have ev: "windowsInv (snd (emitEvent e s))" for e
    using Cons.prems by (rule windowsInv_chat) (rule chat_emit)
  have next_task: "windowsInv (case x of (Some err, s) \<Rightarrow> runTasks env tasks (case map_of (sOutgoing s) (rtTransfer task) of
                  None \<Rightarrow> s | Some ot \<Rightarrow> putOutgoing (rtTransfer task) (fail err ot) s)
             | (None, s) \<Rightarrow> runTasks env tasks s)" if "windowsInv (snd x)" for x
    using that Cons.IH [OF windowsInv_fail] Cons.IH by (cases x; cases "fst x") simp_all
  show ?case
    using Cons by (simp add: Let_def next_task step ev split: option.split)
qed simp

lemma windowsInv_timeouts:
  assumes "windowsInv s"
  shows "windowsInv (snd (processOutgoingTimeouts env now s))"
proof -
  let ?p = "\<lparr>tpEvents = [], tpTasks = [], tpNext = - 1\<rparr>"
  obtain al p where t: "timeoutAll now (sOutgoing s) ?p = (al, p)" by force
  have "windowInv ot \<and> unat (otMaxInFlightBytes ot) \<le> 2 ^ 63" if "map_of al i = Some ot" for i ot
  proof -
    from that timeoutAll_map_of [of now "sOutgoing s" ?p i ot] t obtain ot0 q where
      "map_of (sOutgoing s) i = Some ot0" "ot = fst (timeoutTransfer now ot0 q)" by auto
    with windowsInv_look [OF assms, of i ot0] show ?thesis
      by (simp add: windowInv_timeout)
  qed
  then have "windowsInv (s\<lparr>sOutgoing := al, sEvents := sEvents s @ tpEvents p\<rparr>)"
    using assms by (simp add: windowsInv_def)
  then show ?thesis
    by (simp add: processOutgoingTimeouts_def t windowsInv_runTasks)
qed

lemma map_of_fail: "map_of (map (\<lambda>(i, ot). (i, fail f ot)) al) i = map_option (fail f) (map_of al i)"
  by (induction al) auto

lemma windowsInv_failOutgoing: "windowsInv s \<Longrightarrow> windowsInv (failOutgoing e s)"
  by (simp only: windowsInv_def failOutgoing_def Let_def) (auto simp: windowInv_update map_of_fail)

lemma windowsInv_unregister: "windowsInv s \<Longrightarrow> windowsInv (unregisterOutgoing i s)"
  by (simp add: windowsInv_def unregisterOutgoing_def delete_conv')

text \<open>The operations of a session that touch its outgoing transfers, in any order. A chunk of a frame is
  shorter than \<open>2 ^ 32\<close> bytes; everything else is unrestricted.\<close>

inductive outgoing_run :: "SessionEnv \<Rightarrow> Session \<Rightarrow> Session \<Rightarrow> bool" for env :: SessionEnv where
  start: "sOutgoing s = [] \<Longrightarrow> outgoing_run env s s"
| register: "outgoing_run env s0 s \<Longrightarrow> outgoing_run env s0 (snd (registerOutgoing i opts s))"
| unregister: "outgoing_run env s0 s \<Longrightarrow> outgoing_run env s0 (unregisterOutgoing i s)"
| chunk: "outgoing_run env s0 s \<Longrightarrow> unat n < 2 ^ 32 \<Longrightarrow> outgoing_run env s0 (snd (sendReliableChunk env now i frame n s))"
| ack: "outgoing_run env s0 s \<Longrightarrow> outgoing_run env s0 (snd (HandleAck frame s))"
| nack: "outgoing_run env s0 s \<Longrightarrow> outgoing_run env s0 (snd (HandleNack env now frame s))"
| window: "outgoing_run env s0 s \<Longrightarrow> outgoing_run env s0 (snd (HandleWindow frame s))"
| state: "outgoing_run env s0 s \<Longrightarrow> outgoing_run env s0 (snd (handleIncomingTransferState frame s))"
| monitor: "outgoing_run env s0 s \<Longrightarrow> outgoing_run env s0 (snd (processOutgoingTimeouts env now s))"
| failed: "outgoing_run env s0 s \<Longrightarrow> outgoing_run env s0 (failOutgoing e s)"
| other: "outgoing_run env s0 s \<Longrightarrow> chat s s' \<Longrightarrow> outgoing_run env s0 s'"

lemma windowsInv_start:
  "sOutgoing s = [] \<Longrightarrow> unat (fcMaxSendBufferBytes (scFlowControl (sConfig s))) \<le> 2 ^ 63 \<Longrightarrow> windowsInv s"
  by (simp add: windowsInv_def)

lemma outgoing_run_inv:
  "outgoing_run env s0 s \<Longrightarrow> unat (fcMaxSendBufferBytes (scFlowControl (sConfig s0))) \<le> 2 ^ 63 \<Longrightarrow> windowsInv s"
  by (induction rule: outgoing_run.induct)
    (simp_all add: windowsInv_register windowsInv_unregister windowsInv_chunk windowsInv_HandleAck
      windowsInv_HandleNack windowsInv_HandleWindow windowsInv_transferState windowsInv_timeouts
      windowsInv_failOutgoing windowsInv_chat windowsInv_start)


text \<open>A transfer of ten bytes in chunks of four, with room for two chunks.\<close>

definition sampleOptions :: TransferOptions where
  "sampleOptions = \<lparr>toRequestID = 0, toEvent = '''', toField = '''', toIndex = 0, toParts = [], toName = '''',
     toContentType = 0, toHasReader = True, toTotalSize = 10, toFields = [], toChunkSize = 4, toAckTimeout = 100,
     toRetryLimit = 2, toMaxInFlight = 2, toMaxInFlightBytes = 8, toChecksum = [], toChecksumMode = 0,
     toData = [], toUseData = False\<rparr>"

definition sampleOutgoing :: outgoingTransfer where
  "sampleOutgoing = \<lparr>otId = 7, otTotalBytes = 10, otChunkCount = 3, otChunkSize = 4, otAckTimeout = 100,
     otRetryLimit = 2, otMaxInFlight = 2, otMaxInFlightBytes = 8, otPending = [], otPendingBytes = 0,
     otRemoteWindowBytes = 0, otRemoteWindowChunks = 0, otHasRemoteWindow = False, otAckedBytes = 0,
     otDoneSending = False, otCompleted = False,
     otEndFrame = \<lparr>fHeader = emptyHeader, fPayload = [], fLease = None\<rparr>, otCommitSentAt = None,
     otCommitRetries = 0, otResumeDecided = False, otResumeAccepted = False, otResumeBytes = 0,
     otResumeChunk = 0, otFailed = None\<rparr>"

lemma sample_registered:
  "registerOutgoing 7 sampleOptions (newDefault RoleClient) = (None, (newDefault RoleClient)\<lparr>sOutgoing := [(7, sampleOutgoing)]\<rparr>)"
  by (simp add: registerOutgoing_def newOutgoing_def sampleOptions_def sampleOutgoing_def remoteLimits_def
      chunkCountFor_eq chunksNeeded_def go_try_def with_result_def RemoteSupports_def DefaultSessionConfig_def)

definition sampleFrame :: Frame where
  "sampleFrame = dataFrame 7 0 0 False [1, 2, 3, 4]"

definition sampleSending :: Session where
  "sampleSending = snd (sendReliableChunk quietEnv 0 7 sampleFrame 4 (snd (registerOutgoing 7 sampleOptions (newDefault RoleClient))))"

lemma sample_sending: "map_of (sOutgoing sampleSending) 7 = Some (admitChunk 0 sampleFrame 4 sampleOutgoing)"
proof -
  let ?s = "putOutgoing 7 (admitChunk 0 sampleFrame 4 sampleOutgoing) ((newDefault RoleClient)\<lparr>sOutgoing := [(7, sampleOutgoing)]\<rparr>)"
  have "openSession quietEnv ?s" "sendable ?s sampleFrame"
    by (simp_all add: openSession_def putOutgoing_def sendable_def sampleFrame_def dataFrame_def
        frameEncodable_def headed_def NewFrame_def stampHeader_def validateHeaderValues_def emptyHeader_def knownFrameFlags_def Let_def)
  from send_open(1) [OF this] show ?thesis
    unfolding sampleSending_def sample_registered
    by (simp add: sendReliableChunk_def send_def chunkBlocked_def sampleOutgoing_def handed_def putOutgoing_def)
qed


section \<open>Acknowledgements\<close>

text \<open>An acknowledgement, with the numbers as naturals and the loop as a filter.\<close>

definition ackSpec :: "Ack \<Rightarrow> outgoingTransfer \<Rightarrow> go_error option \<times> outgoingTransfer" where
  "ackSpec ack ot =
     (let hit = inRange (ackChunkFrom ack) (ackChunkTo ack);
          acked = unat (otAckedBytes ot) + chunkBytes (filter hit (otPending ot));
          ot' = ot\<lparr>otPending := filter (\<lambda>c. \<not> hit c) (otPending ot), otAckedBytes := of_nat acked,
                  otPendingBytes := of_nat (chunkBytes (filter (\<lambda>c. \<not> hit c) (otPending ot)))\<rparr>
      in if otChunkCount ot \<le> ackChunkTo ack \<or> unat (ackReceivedBytes ack) < unat (otAckedBytes ot)
            \<or> unat (otTotalBytes ot) < unat (ackReceivedBytes ack)
         then (Some (Err ''ack counters exceed outgoing transfer''), ot)
         else if list_ex hit (otPending ot)
         then if unat (ackReceivedBytes ack) = acked then (None, ot')
              else (Some (Err ''ack received byte counter does not match committed chunks''),
                    ot'\<lparr>otFailed := Some (Err ''ack received byte counter does not match committed chunks'')\<rparr>)
         else if ackReceivedBytes ack = otAckedBytes ot then (None, ot)
         else (Some (Err ''ack does not match pending chunks''), ot))"

text \<open>C23: An acknowledgement is a filter: it removes exactly the pending chunks in its range, moves exactly
  their bytes from the pending to the acknowledged counter without wrapping, and is refused, with
  the transfer failed, when the receiver's byte count differs; one that matches no pending chunk
  changes nothing, and is refused unless it repeats the current count.\<close>

theorem ack_is_filter:
  assumes "windowInv ot" "unat (otAckedBytes ot) + unat (otPendingBytes ot) < 2 ^ 64"
  shows "ackTransfer ack ot = ackSpec ack ot"
proof -
  let ?P = "inRange (ackChunkFrom ack) (ackChunkTo ack)"
  let ?n = "chunkBytes (filter ?P (otPending ot))" and ?out = "filter (\<lambda>c. \<not> ?P c) (otPending ot)"
  have p: "unat (otPendingBytes ot) = chunkBytes (otPending ot)"
    using assms(1) by (simp add: windowInv_def)
  have sum: "?n + chunkBytes ?out = chunkBytes (otPending ot)" by (rule chunkBytes_filter)
  have loop: "ackLoop (ackChunkFrom ack) (ackChunkTo ack) (otPending ot) (False, otAckedBytes ot, otPendingBytes ot)
    = (?out, list_ex ?P (otPending ot), otAckedBytes ot + of_nat ?n, otPendingBytes ot - of_nat ?n)"
    using ackLoop_eq [of "otPending ot" "otPendingBytes ot" "otAckedBytes ot"] assms(2) p by simp
  have acked: "otAckedBytes ot + of_nat ?n = of_nat (unat (otAckedBytes ot) + ?n)"
    by (simp only: of_nat_add of_nat_unat ucast_id)
  have "otPendingBytes ot = of_nat (?n + chunkBytes ?out)"
    using p sum by (metis of_nat_unat ucast_id)
  then have left: "otPendingBytes ot - of_nat ?n = of_nat (chunkBytes ?out)" by simp
  have small: "unat (otAckedBytes ot) + ?n < 2 ^ 64" using assms(2) p sum by linarith
  then have u: "unat (of_nat (unat (otAckedBytes ot) + ?n) :: u64) = unat (otAckedBytes ot) + ?n"
    unfolding unat_of_nat by simp
  have eq: "ackReceivedBytes ack = otAckedBytes ot + of_nat ?n \<longleftrightarrow> unat (ackReceivedBytes ack) = unat (otAckedBytes ot) + ?n"
    unfolding acked by (metis u of_nat_unat ucast_id)
  show ?thesis
  proof (cases "list_ex ?P (otPending ot)")
    case True
    then show ?thesis
      by (simp add: ackTransfer_def ackSpec_def loop left eq word_less_nat_alt Let_def)
  next
    case False
    then have none: "filter ?P (otPending ot) = []" "?out = otPending ot"
      by (auto simp: filter_empty_conv list_ex_iff intro: filter_True)
    have "of_nat (chunkBytes (otPending ot)) = otPendingBytes ot" using p by (metis of_nat_unat ucast_id)
    with False none show ?thesis
      by (auto simp: ackTransfer_def ackSpec_def loop word_less_nat_alt word_le_nat_alt Let_def dest: unsigned_word_eqI)
  qed
qed

theorem ack_is_filter_witness:
  defines "ot \<equiv> admitChunk 0 sampleFrame 4 sampleOutgoing"
  shows "ackTransfer \<lparr>ackTransferID = 7, ackChunkFrom = 0, ackChunkTo = 0, ackReceivedBytes = 4\<rparr> ot
    = (None, ot\<lparr>otPending := [], otPendingBytes := 0, otAckedBytes := 4\<rparr>)"
proof -
  have ot: "ot = sampleOutgoing\<lparr>otPending := [\<lparr>skChunkID = 0, skFrame = sampleFrame, skSentAt = 0, skRetries = 0,
      skAcked = False, skPayloadN = 4\<rparr>], otPendingBytes := 4\<rparr>"
    by (simp add: ot_def admitChunk_def sampleOutgoing_def Let_def sampleFrame_def dataFrame_def headed_def NewFrame_def emptyHeader_def)
  then have "windowInv ot" by (simp add: windowInv_def chunkOk_def sampleOutgoing_def)
  from ack_is_filter [OF this] show ?thesis
    by (simp add: ot sampleOutgoing_def ackSpec_def inRange_def Let_def)
qed

section \<open>The monitor gives up\<close>

text \<open>What the monitor does to one transfer: it fails, or the first chunk that is overdue was sent once more.\<close>

definition monitorRun :: "SessionEnv \<Rightarrow> int list \<Rightarrow> Session \<Rightarrow> Session" where
  "monitorRun env ticks s = foldl (\<lambda>s now. snd (processOutgoingTimeouts env now s)) s ticks"

text \<open>\<open>failedOr P i s\<close>: transfer \<open>i\<close> is registered and has failed, or satisfies \<open>P\<close>.\<close>

definition failedOr :: "(outgoingTransfer \<Rightarrow> bool) \<Rightarrow> u64 \<Rightarrow> Session \<Rightarrow> bool" where
  "failedOr P i s \<longleftrightarrow> (\<exists>ot. map_of (sOutgoing s) i = Some ot \<and> (otFailed ot \<noteq> None \<or> P ot))"

lemma failedOr_chat: "failedOr P i s \<Longrightarrow> chat s s' \<Longrightarrow> failedOr P i s'"
  by (simp add: failedOr_def chat_fields)

lemma failedOr_fail:
  "failedOr P i s \<Longrightarrow> failedOr P i (case map_of (sOutgoing s) j of None \<Rightarrow> s | Some ot \<Rightarrow> putOutgoing j (fail err ot) s)"
  by (auto simp: failedOr_def putOutgoing_def update_conv' fail_def split: option.split)

lemma failedOr_runTasks: "failedOr P i s \<Longrightarrow> failedOr P i (runTasks env tasks s)"
proof (induction tasks arbitrary: s)
  case (Cons task tasks)
  have step: "failedOr P i (snd (send env f s'))" if "failedOr P i s'" for s' f
    using that by (rule failedOr_chat) (rule chat_send)
  have ev: "failedOr P i (snd (emitEvent e s))" for e
    using Cons.prems by (rule failedOr_chat) (rule chat_emit)
  have next_task: "failedOr P i (case x of (Some err, s) \<Rightarrow> runTasks env tasks (case map_of (sOutgoing s) (rtTransfer task) of
                  None \<Rightarrow> s | Some ot \<Rightarrow> putOutgoing (rtTransfer task) (fail err ot) s)
             | (None, s) \<Rightarrow> runTasks env tasks s)" if "failedOr P i (snd x)" for x
    using that Cons.IH [OF failedOr_fail] Cons.IH by (cases x; cases "fst x") simp_all
  show ?case
    using Cons by (simp add: Let_def next_task step ev split: option.split)
qed simp

text \<open>The head of the pending chunks: unacknowledged, sent at \<open>t\<close> and resent \<open>n\<close> ticks.\<close>

definition headChunk :: "int \<Rightarrow> int \<Rightarrow> int \<Rightarrow> int \<Rightarrow> outgoingTransfer \<Rightarrow> bool" where
  "headChunk timeout limit t n ot \<longleftrightarrow> otAckTimeout ot = timeout \<and> otRetryLimit ot = limit
     \<and> (\<exists>c cs. otPending ot = c # cs \<and> \<not> skAcked c \<and> skSentAt c = t \<and> skRetries c = n)"

lemma timeoutTransfer_head:
  assumes "headChunk timeout limit t n ot" "t + timeout \<le> now" "otFailed ot = None"
  shows "otFailed (fst (timeoutTransfer now ot p)) \<noteq> None
    \<or> n < limit \<and> headChunk timeout limit now (n + 1) (fst (timeoutTransfer now ot p))"
proof -
  from assms(1) obtain c cs where pend: "otPending ot = c # cs" and c: "\<not> skAcked c" "skSentAt c = t" "skRetries c = n"
    and l: "otAckTimeout ot = timeout" "otRetryLimit ot = limit" by (auto simp: headChunk_def)
  obtain ot1 p1 where ct: "commitTimeout now (ot, p) = (ot1, p1)" by force
  have ot1: "otPending ot1 = c # cs" "otRetryLimit ot1 = limit" "otAckTimeout ot1 = timeout"
    using commitTimeout_pending [OF ct] pend l ct
    by (auto simp: commitTimeout_def Let_def split: option.splits if_splits)
  show ?thesis
    using assms(2,3) pend c
    by (auto simp: timeoutTransfer_def ct ot1 Let_def headChunk_def apfst_def map_prod_def split: prod.split)
qed

lemma timeoutAll_Some:
  "map_of al i = Some ot \<Longrightarrow> \<exists>q. map_of (fst (timeoutAll now al p)) i = Some (fst (timeoutTransfer now ot q))"
proof (induction al arbitrary: p)
  case (Cons x al)
  obtain j o1 where x: "x = (j, o1)" by force
  obtain o2 p1 where 1: "timeoutTransfer now o1 p = (o2, p1)" by force
  obtain r p2 where 2: "timeoutAll now al p1 = (r, p2)" by force
  from Cons.IH [of p1] Cons.prems show ?case
    by (cases "i = j") (auto simp: x 1 2 split: prod.split intro!: exI [of _ p])
qed simp

lemma timeoutTransfer_failed: "otFailed ot \<noteq> None \<Longrightarrow> timeoutTransfer now ot p = (ot, p)"
  by (simp add: timeoutTransfer_def)

lemma monitor_pass:
  assumes "failedOr (headChunk timeout limit t n) i s" "t + timeout \<le> now"
  shows "failedOr (\<lambda>ot. n < limit \<and> headChunk timeout limit now (n + 1) ot) i (snd (processOutgoingTimeouts env now s))"
proof -
  let ?p = "\<lparr>tpEvents = [], tpTasks = [], tpNext = - 1\<rparr>"
  obtain al p where t: "timeoutAll now (sOutgoing s) ?p = (al, p)" by force
  from assms(1) obtain ot where ot: "map_of (sOutgoing s) i = Some ot" "otFailed ot \<noteq> None \<or> headChunk timeout limit t n ot"
    by (auto simp: failedOr_def)
  from timeoutAll_Some [OF ot(1), of now ?p] obtain q where q: "map_of al i = Some (fst (timeoutTransfer now ot q))"
    by (auto simp: t)
  have "otFailed (fst (timeoutTransfer now ot q)) \<noteq> None
    \<or> n < limit \<and> headChunk timeout limit now (n + 1) (fst (timeoutTransfer now ot q))"
    using ot(2) timeoutTransfer_head [OF _ assms(2)] by (cases "otFailed ot") (auto simp: timeoutTransfer_failed)
  with q have "failedOr (\<lambda>ot. n < limit \<and> headChunk timeout limit now (n + 1) ot) i (s\<lparr>sOutgoing := al, sEvents := sEvents s @ tpEvents p\<rparr>)"
    by (simp add: failedOr_def)
  then show ?thesis
    by (simp add: processOutgoingTimeouts_def t failedOr_runTasks)
qed

text \<open>Passes of the monitor, each not before the deadline the last one left.\<close>

fun spaced :: "int \<Rightarrow> int \<Rightarrow> int list \<Rightarrow> bool" where
  "spaced timeout t [] = True"
| "spaced timeout t (now # ticks) = (t + timeout \<le> now \<and> spaced timeout now ticks)"

lemma monitor_run:
  "failedOr (headChunk timeout limit t n) i s \<Longrightarrow> spaced timeout t ticks \<Longrightarrow>
   failedOr (\<lambda>ot. ticks = [] \<or> n + int (length ticks) \<le> limit) i (monitorRun env ticks s)"
proof (induction ticks arbitrary: t n s)
  case Nil
  then show ?case by (auto simp: failedOr_def monitorRun_def)
next
  case (Cons now ticks)
  let ?s = "snd (processOutgoingTimeouts env now s)"
  have pass: "failedOr (\<lambda>ot. n < limit \<and> headChunk timeout limit now (n + 1) ot) i ?s"
    using monitor_pass [OF Cons.prems(1)] Cons.prems(2) by simp
  then have "failedOr (headChunk timeout limit now (n + 1)) i ?s" by (auto simp: failedOr_def)
  then have "failedOr (\<lambda>ot. ticks = [] \<or> n + 1 + int (length ticks) \<le> limit) i (monitorRun env ticks ?s)"
    by (rule Cons.IH) (use Cons.prems(2) in simp)
  moreover have "failedOr (\<lambda>ot. n < limit) i (monitorRun env [] ?s)"
    using pass by (auto simp: failedOr_def monitorRun_def)
  ultimately show ?case
    by (cases ticks) (auto simp: failedOr_def monitorRun_def)
qed



section \<open>Stale acknowledgements\<close>

lemma requireCapability_rate [simp]: "requireCapability (s\<lparr>sRate := r\<rparr>) cap n = requireCapability s cap n"
  by (simp add: requireCapability_def requireRemoteCapability_def RemoteSupports_def)

lemma checkRateLimit_passed: "checkRateLimit frame now s = (None, s1) \<Longrightarrow> s1 = s\<lparr>sRate := countFrame frame now (sRate s)\<rparr>"
  by (auto simp: checkRateLimit_def op_seq_def ret_def Let_def split: if_splits)

text \<open>A frame of an established session that passes the rate limit, its envelope, the authentication and
  capability checks reaches its handler.\<close>

lemma handleFrame_established:
  assumes "sState s = SessionEstablished" "checkRateLimit frame now s = (None, s1)"
    "validateFrameEnvelope frame = None"
    "hFrameType (fHeader frame) \<notin> {FrameAuth, FrameAuthAccept, FrameAuthReject, FrameHello, FrameHelloAck, FrameCloseAck}"
    "fst (frameCapability frame) = 0 \<or> requireCapability s (fst (frameCapability frame)) (snd (frameCapability frame)) = None"
  shows "HandleFrame te now frame s = dispatchFrame te now frame s1"
proof -
  note s1 = checkRateLimit_passed [OF assms(2)]
  have "EnsureAuthenticatedFor frame s1 = (None, s1)"
    using assms(1) by (simp add: s1 EnsureAuthenticatedFor_def Let_def)
  moreover have "ensureIncomingState s1 (hFrameType (fHeader frame)) = None"
    using assms(1,4) by (simp add: s1 ensureIncomingState_def stateAllows_def)
  moreover have "checkCapability sendenv frame s1 = (None, s1)" for sendenv
    using assms(5) by (auto simp: s1 checkCapability_def split: prod.split)
  ultimately show ?thesis
    using assms(2,3,4) by (simp add: HandleFrame_def op_try_def Let_def)
qed

lemma runTurn_error:
  assumes "sState s \<noteq> SessionClosed" "HandleFrame te now frame s = (Some e, s')" "sState s' \<noteq> SessionAuthRejected"
  shows "\<exists>s''. runTurn te now (ReadFrameResult frame) s = (Some (Some e), s'')
    \<and> sState s'' = SessionFailed \<and> sTransportClosed s''
    \<and> (\<forall>(i, ot) \<in> set (sOutgoing s''). otFailed ot = Some e) \<and> sIncoming s'' = []"
  using assms
  by (auto simp: runTurn_def Let_def closeTransport_def setState_def closeWriter_def failOutgoing_def
      cleanupIncoming_def fail_def)

text \<open>C35: An acknowledgement that reports fewer bytes than an earlier one, as one overtaken by a later
  acknowledgement does, is an error of the handler: the read loop returns, the session has failed
  with its transport closed, and every transfer in both directions is lost. The final check of
  \<open>applyAck\<close> tolerates such a count but is never reached with one.\<close>

theorem stale_ack_ends_session:
  assumes "sState s = SessionEstablished" "checkRateLimit frame now s = (None, s1)"
    and "hFrameType (fHeader frame) = FrameAck" "hSchemaID (fHeader frame) = SchemaAck"
    and "hTransferID (fHeader frame) \<noteq> 0" "requireCapability s CapabilityAck ''ack'' = None"
    and "DecodeAck (fPayload frame) = Inr ack" "ackTransferID ack = hTransferID (fHeader frame)"
    and "ackChunkFrom ack \<le> ackChunkTo ack"
    and "map_of (sOutgoing s) (ackTransferID ack) = Some ot" "ackReceivedBytes ack < otAckedBytes ot"
  shows "\<exists>s'. runTurn te now (ReadFrameResult frame) s = (Some (Some (Err ''ack counters exceed outgoing transfer'')), s')
    \<and> sState s' = SessionFailed \<and> sTransportClosed s'
    \<and> (\<forall>(i, ot) \<in> set (sOutgoing s'). otFailed ot \<noteq> None) \<and> sIncoming s' = []"
proof -
  let ?e = "Err ''ack counters exceed outgoing transfer''"
  note s1 = checkRateLimit_passed [OF assms(2)]
  have "validateFrameEnvelope frame = None"
    using assms(3-5) by (simp add: validateFrameEnvelope_def expectedSchema_def Let_def)
  moreover have "frameCapability frame = (CapabilityAck, ''ack'')"
    using assms(3) by (simp add: frameCapability_def Let_def)
  ultimately have "HandleFrame te now frame s = dispatchFrame te now frame s1"
    using assms(1-3,6) by (intro handleFrame_established) simp_all
  also have "\<dots> = HandleAck frame s1"
    using assms(3) by (simp add: dispatchFrame_def Let_def)
  also have "\<dots> = (Some ?e, putOutgoing (ackTransferID ack) ot s1)"
  proof -
    have "requireCapability s1 CapabilityAck ''ack'' = None"
      using assms(6) by (simp add: s1)
    moreover have "ackTransfer ack ot = (Some ?e, ot)"
      using assms(11) by (simp add: ackTransfer_def)
    ultimately show ?thesis
      using assms(5,7-10) by (simp add: HandleAck_def with_result_def op_try_def applyAck_def s1 not_less [symmetric])
  qed
  finally have h: "HandleFrame te now frame s = (Some ?e, putOutgoing (ackTransferID ack) ot s1)" .
  have "sState (putOutgoing (ackTransferID ack) ot s1) \<noteq> SessionAuthRejected"
    using assms(1) by (simp add: s1 putOutgoing_def)
  from runTurn_error [OF _ h this] assms(1) show ?thesis by fastforce
qed

definition quietTransfers :: TransferEnv where
  "quietTransfers = SessionEnv.extend quietEnv
     \<lparr>teOpen = None, teWrite = (\<lambda>_ chunk. (length (fPayload chunk), None)), teWait = None,
      teClose = (\<lambda>_. CloseReturned None), teResume = None, teSha256 = (\<lambda>bs. replicate 32 0)\<rparr>"

theorem stale_ack_ends_session_witness:
  defines "s \<equiv> (newDefault RoleClient)\<lparr>sState := SessionEstablished, sRemoteCaps := DefaultCapabilities,
      sOutgoing := [(7, sampleOutgoing\<lparr>otAckedBytes := 8\<rparr>)]\<rparr>"
    and "frame \<equiv> headed FrameAck SchemaAck (ackBytes \<lparr>ackTransferID = 7, ackChunkFrom = 0, ackChunkTo = 0, ackReceivedBytes = 4\<rparr>)
      PriorityHigh ChannelControl FlagControl 7"
  shows "\<exists>s'. runTurn quietTransfers 0 (ReadFrameResult frame) s = (Some (Some (Err ''ack counters exceed outgoing transfer'')), s')
    \<and> sState s' = SessionFailed \<and> sTransportClosed s'"
proof -
  let ?ack = "\<lparr>ackTransferID = 7, ackChunkFrom = 0, ackChunkTo = 0, ackReceivedBytes = 4\<rparr>"
  have rate: "checkRateLimit frame 0 s = (None, s\<lparr>sRate := countFrame frame 0 (sRate s)\<rparr>)"
    by (simp add: checkRateLimit_def s_def DefaultSessionConfig_def countFrame_def frame_def ackBytes_def Let_def)
  have ack: "DecodeAck (fPayload frame) = Inr ?ack" by (simp add: frame_def DecodeAck_iff)
  have "requireCapability s CapabilityAck ''ack'' = None"
    by (simp add: s_def requireCapability_def requireRemoteCapability_def RemoteSupports_def DefaultSessionConfig_def DefaultCapabilities_def)
  from stale_ack_ends_session [OF _ rate _ _ _ this ack, of "sampleOutgoing\<lparr>otAckedBytes := 8\<rparr>" quietTransfers] show ?thesis
    by (simp add: s_def frame_def headed_def NewFrame_def Let_def) blast
qed

end
