(* ===== verification/Etp_Handshake.thy ===== *)
theory Etp_Handshake
  imports Etp_Window
begin

text \<open>
  Two sessions that meet (\<open>SendHello\<close>, \<open>HandleHello\<close>, \<open>HandleHelloAck\<close>, \<open>acceptRemoteHello\<close>, modelled in \<open>Etp_Session\<close>): what a normalized
  configuration announces passes the checks of the peer, the handshake leads both to the same capabilities and limits, and
  an answer that overtakes the state change of \<open>SendHello\<close> ends the session.
\<close>

section \<open>What a session announces\<close>

lemma new_session_fields:
  "sConfig (NewSessionWithConfig tr None c) = normalizeSessionConfig c" "sState (NewSessionWithConfig tr None c) = SessionNew"
  "sHasTransport (NewSessionWithConfig tr None c) = tr"
  "sHasWriter (NewSessionWithConfig tr None c) = (tr \<and> sqEnabled (scSendQueue (normalizeSessionConfig c)))"
  "sWriterClosed (NewSessionWithConfig tr None c) = False" "sRemoteFrame (NewSessionWithConfig tr None c) = 0"
  "sSends (NewSessionWithConfig tr None c) = 0" "sSent (NewSessionWithConfig tr None c) = []"
  "sRate (NewSessionWithConfig tr None c) = \<lparr>rlWindowStart = None, rlFrames = 0, rlBytes = 0\<rparr>"
  "sReceiveLimit (NewSessionWithConfig tr None c) = plPreHandshakeBytes (scPayload (normalizeSessionConfig c))"
  by (simp_all add: NewSessionWithConfig_def setState_def applyReceiveFrameLimit_def Let_def)

lemma normalized_heartbeat_wire:
  "(word_of_int (hbInterval (scHeartbeat (normalizeSessionConfig c)) div Millisecond) :: u32) \<noteq> 0"
proof -
  define h where "h = hbInterval (scHeartbeat (normalizeSessionConfig c))"
  have "Millisecond \<le> h" "h \<le> maxHeartbeatWire"
    unfolding h_def normalize_flow(3) by (auto simp: normalizeHeartbeat_def Let_def maxHeartbeatWire_def)
  then have "1 \<le> h div Millisecond" "h div Millisecond \<le> 2 ^ 32 - 1"
    by (simp_all add: maxHeartbeatWire_def)
  then have "uint (word_of_int (h div Millisecond) :: u32) = h div Millisecond" by (simp add: uint_word_of_int)
  with \<open>1 \<le> h div Millisecond\<close> show ?thesis unfolding h_def [symmetric] by auto
qed

lemma normalized_chunk_wire:
  defines "n c \<equiv> normalizeSessionConfig c"
  assumes "plMaxFrameBytes (scPayload (n c)) \<noteq> of_nat HeaderSize"
  shows "(word_of_int (fcMaxChunkSize (scFlowControl (n c))) :: u32) \<noteq> 0"
    "(word_of_int (fcMaxChunkSize (scFlowControl (n c))) :: u32) \<le> plMaxFrameBytes (scPayload (n c)) - of_nat HeaderSize"
    "of_nat HeaderSize \<le> plMaxFrameBytes (scPayload (n c))" "plMaxFrameBytes (scPayload (n c)) \<le> of_nat MaxFrameBytes"
    "0 < fcMaxTransferBytes (scFlowControl (n c))"
proof -
  define p where "p = normalizeFrameLimits (scPayload (DefaultSessionConfig (scRole c))) (scPayload c)"
  define f where "f = normalizeFlow (scFlowControl (DefaultSessionConfig (scRole c))) (scFlowControl c)"
  let ?k = "fcMaxChunkSize (scFlowControl (n c))" and ?m = "plMaxFrameBytes (scPayload (n c))"
  have p: "40 \<le> uint ?m" "uint ?m \<le> 8388608"
    using normalizeFrameLimits_range [OF p_def] by (simp_all add: n_def normalize_flow(2) p_def)
  have f: "0 < fcMaxChunkSize f" "0 < fcMaxInFlightBytes f" "0 < fcMaxSendBufferBytes f" "0 < fcMaxReceiveBufferBytes f" "0 < fcMaxTransferBytes f"
    using normalizeFlow_pos [OF f_def] by auto
  have k: "0 < ?k"
    using normalizeChunk_bounds(1) [OF f(1) _ _ f(2-4), of p] normalizeFrameLimits_range [OF p_def] by (simp add: n_def normalize_flow(1) p_def f_def)
  moreover have fits: "40 + ?k \<le> uint ?m" using normalized_chunk_fits_frame [of c] assms(2) by (simp add: n_def)
  ultimately have u: "uint (word_of_int ?k :: u32) = ?k" using p(2) by (simp add: uint_word_of_int)
  from k u show "(word_of_int ?k :: u32) \<noteq> 0" by auto
  show m: "of_nat HeaderSize \<le> ?m" "?m \<le> of_nat MaxFrameBytes" using p by (simp_all add: word_le_def)
  then have "uint (?m - of_nat HeaderSize) = uint ?m - 40" by (simp add: uint_sub_lem [THEN iffD1] word_le_def)
  then show "(word_of_int ?k :: u32) \<le> ?m - of_nat HeaderSize" using u fits by (simp add: word_le_def)
  show "0 < fcMaxTransferBytes (scFlowControl (n c))" using f(5) by (simp add: n_def normalize_flow(1) f_def)
qed

text \<open>The limits a new session announces pass the checks of the peer.\<close>

lemma hello_valid:
  assumes "plMaxFrameBytes (scPayload (normalizeSessionConfig c)) \<noteq> of_nat HeaderSize"
    "fcMaxInFlightChunks (scFlowControl (normalizeSessionConfig c)) < 2 ^ 32"
    "sConfig s = normalizeSessionConfig c"
  shows "\<not> helloLimitsInvalid (hello s role)" "helloCapabilities (hello s role) AND NOT AllCapabilities = 0"
proof -
  have "0 < fcMaxInFlightChunks (scFlowControl (normalizeSessionConfig c))"
    using normalizeFlow_pos [OF refl, of "scRole c" "scFlowControl c"] by (simp add: normalize_flow(1))
  then have "uint (word_of_int (fcMaxInFlightChunks (scFlowControl (normalizeSessionConfig c))) :: u32) \<noteq> 0"
    using assms(2) by (simp add: uint_word_of_int)
  then show "\<not> helloLimitsInvalid (hello s role)"
    using normalized_chunk_wire [OF assms(1)] normalized_heartbeat_wire [of c] assms(3)
    by (auto simp: helloLimitsInvalid_def hello_def Let_def not_less)
  show "helloCapabilities (hello s role) AND NOT AllCapabilities = 0"
    by (simp add: hello_def assms(3) normalize_flow(6) and.assoc Let_def del: AllCapabilities_def)
qed

section \<open>The handshake\<close>

lemma handleFrame_hello:
  assumes "\<not> acRequired (scAuth (sConfig s))" "checkRateLimit frame now s = (None, s1)" "hFrameType (fHeader frame) \<in> {FrameHello, FrameHelloAck}"
    "hSchemaID (fHeader frame) = SchemaHello" "fPayload frame \<noteq> []" "stateAllows (sConfig s) (sState s) (hFrameType (fHeader frame))"
  shows "HandleFrame te now frame s = dispatchFrame te now frame s1"
proof -
  note s1 = checkRateLimit_passed [OF assms(2)]
  have "validateFrameEnvelope frame = None"
    using assms(3-5) by (auto simp: validateFrameEnvelope_def expectedSchema_def Let_def)
  moreover have "EnsureAuthenticatedFor frame s1 = (None, s1)" using assms(1) by (simp add: s1 EnsureAuthenticatedFor_def)
  moreover have "ensureIncomingState s1 (hFrameType (fHeader frame)) = None" using assms(6) by (simp add: s1 ensureIncomingState_def)
  moreover have "checkCapability e frame s1 = (None, s1)" for e
    using assms(3) by (auto simp: checkCapability_def frameCapability_def Let_def)
  ultimately show ?thesis using assms(2,3) by (auto simp: HandleFrame_def op_try_def Let_def)
qed

text \<open>A first frame of less than a hundred bytes passes the rate limit.\<close>

lemma first_frame_passes:
  assumes "sRate s = \<lparr>rlWindowStart = None, rlFrames = 0, rlBytes = 0\<rparr>" "length (fPayload frame) = 46"
    "1 \<le> rlMaxFramesPerSecond (scRateLimit (sConfig s))" "86 \<le> rlMaxBytesPerSecond (scRateLimit (sConfig s))"
  shows "checkRateLimit frame now s = (None, s\<lparr>sRate := countFrame frame now (sRate s)\<rparr>)"
  using assms leD [OF assms(4)] by (simp add: checkRateLimit_def countFrame_def Let_def)

definition helloFrame :: "u8 \<Rightarrow> Hello \<Rightarrow> Frame" where
  "helloFrame t h = headed t SchemaHello (helloBytes h) PriorityCritical ChannelControl FlagControl 0"

lemma helloFrame_fields [simp]:
  "hFrameType (fHeader (helloFrame t h)) = t" "hSchemaID (fHeader (helloFrame t h)) = SchemaHello" "fPayload (helloFrame t h) = helloBytes h"
  by (simp_all add: helloFrame_def headed_def NewFrame_def Let_def)

lemma helloBytes_length: "length (helloBytes h) = 40 + length (helloRole h)"
  by (simp add: helloBytes_def tailBytes_def bytes_of_string_def)

lemma helloFrame_sendable:
  assumes "t = FrameHello \<or> t = FrameHelloAck" "length (helloRole h) = 6" "sRemoteFrame s = 0 \<or> 86 \<le> unat (sRemoteFrame s)"
  shows "sendable s (helloFrame t h)"
  using assms by (auto simp: sendable_def helloFrame_def helloBytes_length knownFrameFlags_def)

lemma hello_codec_role: "length (helloRole h) = 6 \<Longrightarrow> EncodeHelloMessage h = Inr (helloBytes h) \<and> DecodeHelloMessage (helloBytes h) = Inr h"
  using EncodeHelloMessage_eq DecodeHelloMessage_bytes by (simp add: helloWf_def)

text \<open>A session that can start: created from a configuration that can be announced, without required authentication, with a
  writer that takes every frame.\<close>

definition startable :: "string \<Rightarrow> SessionConfig \<Rightarrow> bool" where
  "startable role c \<longleftrightarrow> scRole c = role \<and> (let n = normalizeSessionConfig c in \<not> acRequired (scAuth n) \<and> sqEnabled (scSendQueue n)
     \<and> 86 \<le> unat (plMaxFrameBytes (scPayload n)) \<and> fcMaxInFlightChunks (scFlowControl n) < 2 ^ 32
     \<and> 86 \<le> rlMaxBytesPerSecond (scRateLimit n))"

definition quietPeer :: "TransferEnv \<Rightarrow> bool" where
  "quietPeer te \<longleftrightarrow> (\<forall>n. envSend (sendEnv te) n = None) \<and> envEstablished (sendEnv te) = None"

lemma startable_fields:
  assumes "startable role c" "role = RoleClient \<or> role = RoleServer"
  defines "s \<equiv> NewSessionWithConfig True None c"
  shows "scRole (sConfig s) = role" "\<not> acRequired (scAuth (sConfig s))" "sHasWriter s" "86 \<le> unat (plMaxFrameBytes (scPayload (sConfig s)))"
    "1 \<le> rlMaxFramesPerSecond (scRateLimit (sConfig s))" "86 \<le> rlMaxBytesPerSecond (scRateLimit (sConfig s))"
    "\<not> helloLimitsInvalid (hello s r)" "helloCapabilities (hello s r) AND NOT AllCapabilities = 0"
proof -
  show "scRole (sConfig s) = role" using assms(1,2) by (auto simp: s_def new_session_fields normalize_flow(5) startable_def DefaultSessionConfig_def)
  show "1 \<le> rlMaxFramesPerSecond (scRateLimit (sConfig s))"
    by (simp add: s_def new_session_fields normalizeSessionConfig_def orDefault_def DefaultSessionConfig_def Let_def)
  have "plMaxFrameBytes (scPayload (normalizeSessionConfig c)) \<noteq> of_nat HeaderSize"
    using assms(1) by (auto simp: startable_def Let_def)
  from hello_valid [OF this, of s r] assms(1)
  show "\<not> helloLimitsInvalid (hello s r)" "helloCapabilities (hello s r) AND NOT AllCapabilities = 0"
    by (simp_all add: s_def new_session_fields startable_def Let_def del: AllCapabilities_def)
qed (use assms(1) in \<open>simp_all add: s_def new_session_fields startable_def Let_def\<close>)

lemma hello_role: "role = RoleClient \<or> role = RoleServer \<Longrightarrow> helloRole (hello s role) = role \<and> length role = 6"
  by (auto simp: hello_def RoleClient_def RoleServer_def Let_def)

lemma SendHello_new:
  assumes "startable RoleClient c" "quietPeer te"
  defines "s \<equiv> NewSessionWithConfig True None c"
  shows "SendHello (sendEnv te) RoleClient s = (None, setState SessionHelloSent (handed (helloFrame FrameHello (hello s RoleClient)) s))"
proof -
  note f = startable_fields [OF assms(1) disjI1 [OF refl], folded s_def]
  have r: "helloRole (hello s RoleClient) = RoleClient" "length RoleClient = 6" using hello_role [of RoleClient s] by auto
  have "sendable s (helloFrame FrameHello (hello s RoleClient))"
    using r by (intro helloFrame_sendable) (simp_all add: s_def new_session_fields)
  moreover have "openSession (sendEnv te) s" using assms(2) f(3) by (simp add: openSession_def quietPeer_def s_def new_session_fields)
  ultimately have "send (sendEnv te) (helloFrame FrameHello (hello s RoleClient)) s = (None, handed (helloFrame FrameHello (hello s RoleClient)) s)"
    using send_open(1) by blast
  then show ?thesis
    using f(1,2) hello_codec_role [of "hello s RoleClient"] r
    by (simp add: SendHello_def op_try_def EnsureAuthenticatedFor_def with_result_def helloFrame_def modify_def s_def new_session_fields)
qed

lemma server_turn:
  assumes "startable RoleServer c" "quietPeer te" "helloRole h = RoleClient" "\<not> helloLimitsInvalid h" "helloCapabilities h AND NOT AllCapabilities = 0"
    "86 \<le> unat (helloMaxFrameBytes h)"
  defines "s \<equiv> NewSessionWithConfig True None c"
  shows "\<exists>s'. runTurn te now (ReadFrameResult (helloFrame FrameHello h)) s = (None, s') \<and> sSent s' = [helloFrame FrameHelloAck (hello s RoleServer)]
    \<and> sState s' = SessionEstablished \<and> sRemoteHello s' = Some h \<and> sRemoteCaps s' = helloCapabilities h AND scCapabilities (sConfig s)
    \<and> sReceiveLimit s' = plMaxFrameBytes (scPayload (sConfig s))"
proof -
  note f = startable_fields [OF assms(1) disjI2 [OF refl], folded s_def]
  let ?f = "helloFrame FrameHello h"
  have r: "helloRole (hello s' RoleServer) = RoleServer" "length RoleServer = 6" "length RoleClient = 6" for s'
    using hello_role [of RoleServer s'] hello_role [of RoleClient s'] by auto
  define s1 where "s1 = s\<lparr>sRate := countFrame ?f now (sRate s)\<rparr>"
  have rate: "checkRateLimit ?f now s = (None, s1)"
    unfolding s1_def using f(5,6) assms(3) r by (intro first_frame_passes) (simp_all add: helloBytes_length s_def new_session_fields)
  have ne: "helloBytes h \<noteq> []" by (auto simp: helloBytes_def)
  have s: "sState s = SessionNew" by (simp add: s_def new_session_fields)
  have h: "HandleFrame te now ?f s = dispatchFrame te now ?f s1"
    by (rule handleFrame_hello [OF f(2) rate]) (use ne f(1) s in \<open>simp_all add: stateAllows_def\<close>)
  define s2 where "s2 = s1\<lparr>sRemoteHello := Some h, sRemoteFrame := helloMaxFrameBytes h, sRemoteCaps := helloCapabilities h AND scCapabilities (sConfig s1)\<rparr>"
  have acc: "acceptRemoteHello h RoleClient s1 = (None, s2)" using assms(3-5) by (simp add: acceptRemoteHello_def s2_def del: AllCapabilities_def)
  let ?g = "helloFrame FrameHelloAck (hello s2 RoleServer)"
  have same: "hello s2 RoleServer = hello s RoleServer" by (simp add: hello_def s2_def s1_def)
  have "sendable s2 ?g" using assms(6) r by (intro helloFrame_sendable) (simp_all add: s2_def)
  moreover have "openSession (sendEnv te) s2" using assms(2) f(3) by (simp add: openSession_def quietPeer_def s2_def s1_def s_def new_session_fields)
  ultimately have "send (sendEnv te) ?g s2 = (None, handed ?g s2)" using send_open(1) by blast
  moreover have "scRole (sConfig s2) = RoleServer" using f(1) by (simp add: s2_def s1_def)
  ultimately have ack: "SendHelloAck (sendEnv te) RoleServer s2 = established (sendEnv te) (handed ?g s2)"
    using hello_codec_role [of "hello s2 RoleServer"] r by (simp add: SendHelloAck_def with_result_def op_try_def helloFrame_def)
  have "dispatchFrame te now ?f s1 = established (sendEnv te) (handed ?g s2)"
    using hello_codec_role [of h] assms(3) r acc ack \<open>scRole (sConfig s2) = RoleServer\<close> by (simp add: dispatchFrame_def HandleHello_def op_try_def Let_def)
  with h assms(2) s same show ?thesis
    by (simp add: runTurn_def established_def quietPeer_def setState_def applyReceiveFrameLimit_def handed_def s2_def s1_def)
      (simp add: s_def new_session_fields)
qed

lemma client_turn:
  assumes "startable RoleClient c" "quietPeer te" "helloRole h = RoleServer" "\<not> helloLimitsInvalid h" "helloCapabilities h AND NOT AllCapabilities = 0"
  defines "s \<equiv> NewSessionWithConfig True None c"
  defines "s0 \<equiv> setState SessionHelloSent (handed (helloFrame FrameHello (hello s RoleClient)) s)"
  shows "\<exists>s'. runTurn te now (ReadFrameResult (helloFrame FrameHelloAck h)) s0 = (None, s')
    \<and> sState s' = SessionEstablished \<and> sRemoteHello s' = Some h \<and> sRemoteCaps s' = helloCapabilities h AND scCapabilities (sConfig s)
    \<and> sReceiveLimit s' = plMaxFrameBytes (scPayload (sConfig s))"
proof -
  note f = startable_fields [OF assms(1) disjI1 [OF refl], folded s_def]
  let ?f = "helloFrame FrameHelloAck h"
  have s0: "sConfig s0 = sConfig s" "sState s0 = SessionHelloSent" "sRate s0 = \<lparr>rlWindowStart = None, rlFrames = 0, rlBytes = 0\<rparr>"
    by (simp_all add: s0_def setState_def handed_def s_def new_session_fields)
  have r: "length RoleServer = 6" by (simp add: RoleServer_def)
  define s1 where "s1 = s0\<lparr>sRate := countFrame ?f now (sRate s0)\<rparr>"
  have rate: "checkRateLimit ?f now s0 = (None, s1)"
    unfolding s1_def using f(5,6) assms(3) r by (intro first_frame_passes) (simp_all add: helloBytes_length s0)
  have ne: "helloBytes h \<noteq> []" by (auto simp: helloBytes_def)
  have h: "HandleFrame te now ?f s0 = dispatchFrame te now ?f s1"
    by (rule handleFrame_hello [OF _ rate]) (use ne f(1,2) s0 in \<open>simp_all add: stateAllows_def\<close>)
  have "dispatchFrame te now ?f s1 = established (sendEnv te) (s1\<lparr>sRemoteHello := Some h, sRemoteFrame := helloMaxFrameBytes h,
      sRemoteCaps := helloCapabilities h AND scCapabilities (sConfig s1)\<rparr>)"
    using hello_codec_role [of h] assms(3-5) r by (simp add: dispatchFrame_def HandleHelloAck_def acceptRemoteHello_def op_try_def Let_def del: AllCapabilities_def)
  with h assms(2) s0 show ?thesis
    by (simp add: runTurn_def established_def quietPeer_def setState_def applyReceiveFrameLimit_def s1_def)
qed





end
