(* ===== verification/Etp_Reassembly.thy ===== *)
theory Etp_Reassembly
  imports Etp_Window
begin

text \<open>
  What incoming transfers keep. The locale \<open>transfer_invariant\<close> states what a property of one transfer has
  to satisfy to hold of all transfers of a session under every operation and every step of the
  transfers' goroutines; it is interpreted for the reassembly of the body. The theory goes on to
  the end of a transfer: its goroutine finishes, and the writer is closed only with the whole
  body.
\<close>

section \<open>Operations that only touch flow flags\<close>

definition sameButFlow :: "u64 \<times> incomingTransfer \<Rightarrow> u64 \<times> incomingTransfer \<Rightarrow> bool" where
  "sameButFlow x y \<longleftrightarrow> fst x = fst y \<and> (\<exists>b. snd y = (snd x)\<lparr>incFlowBlocked := b\<rparr>)"

text \<open>\<open>flowed s s'\<close>: from \<open>s\<close> to \<open>s'\<close> frames were sent, and transfers in the map were marked blocked or not.\<close>

definition flowed :: "Session \<Rightarrow> Session \<Rightarrow> bool" where
  "flowed s s' \<longleftrightarrow> chat (s\<lparr>sIncoming := []\<rparr>) (s'\<lparr>sIncoming := []\<rparr>) \<and> list_all2 sameButFlow (sIncoming s) (sIncoming s')"

lemma sameButFlow_refl [simp]: "sameButFlow x x"
  unfolding sameButFlow_def by (auto intro!: exI [of _ "incFlowBlocked (snd x)"])

lemma sameButFlow_trans: "sameButFlow x y \<Longrightarrow> sameButFlow y z \<Longrightarrow> sameButFlow x z"
  by (auto simp: sameButFlow_def)

lemma core_incoming: "core (s\<lparr>sIncoming := x\<rparr>) = (core s)\<lparr>sIncoming := x\<rparr>"
  by (simp add: core_def)

lemma chat_incoming: "chat s s' \<Longrightarrow> chat (s\<lparr>sIncoming := x\<rparr>) (s'\<lparr>sIncoming := x\<rparr>)"
  by (simp add: chat_def core_incoming)

lemma flowed_chat: "chat s s' \<Longrightarrow> flowed s s'"
  by (simp add: flowed_def chat_incoming chat_fields list_all2_refl)

lemma flowed_trans: "flowed s s' \<Longrightarrow> flowed s' s'' \<Longrightarrow> flowed s s''"
  unfolding flowed_def
  by (elim conjE, rule conjI) (erule (1) chat_trans, rule list_all2_trans [OF sameButFlow_trans], assumption+)

lemma flowed_refl [simp]: "flowed s s"
  by (simp add: flowed_chat)

lemma sameButFlow_flow [simp]: "sameButFlow (i, tr) (i, tr\<lparr>incFlowBlocked := b\<rparr>)"
  unfolding sameButFlow_def by (intro conjI exI [of _ b]) simp_all

lemma update_sameButFlow:
  "map_of al i = Some tr \<Longrightarrow> list_all2 sameButFlow al (AList.update i (tr\<lparr>incFlowBlocked := b\<rparr>) al)"
  by (induction al) (auto simp: list_all2_refl)

lemma flowed_put:
  "map_of (sIncoming s) i = Some tr \<Longrightarrow> flowed s (putIncoming i (tr\<lparr>incFlowBlocked := b\<rparr>) s)"
  by (simp add: flowed_def putIncoming_def update_sameButFlow)

lemma flowed_sendIncomingWindow: "flowed s (snd (sendIncomingWindow env i s))"
proof (cases "RemoteSupports s CapabilityFlowControl")
  case True
  have "flowed s' (snd (SendWindow env w s'))" for w s' by (rule flowed_chat) (rule chat_guarded)
  with True show ?thesis
    by (auto simp: sendIncomingWindow_def lookupIncoming_def Let_def split: option.split
        intro: flowed_trans [OF flowed_put])
qed (simp add: sendIncomingWindow_def)

lemma flowed_notify: "flowed s (notifyBlockedWindows env i s)"
proof -
  have "flowed s (foldl (\<lambda>s i. snd (sendIncomingWindow env i s)) s' ids)" if "flowed s s'" for s' ids
    using that
    by (induction ids arbitrary: s') (simp_all add: flowed_trans [OF _ flowed_sendIncomingWindow])
  then show ?thesis by (simp add: notifyBlockedWindows_def)
qed

lemma flowed_fields:
  assumes "flowed s s'"
  shows "sReceiveBytes s' = sReceiveBytes s" "sConfig s' = sConfig s" "sDetached s' = sDetached s"
    "sState s' = sState s" "sWriterLog s' = sWriterLog s" "sCompleted s' = sCompleted s"
    "sCompletedIDs s' = sCompletedIDs s" "sOutgoing s' = sOutgoing s" "sCalls s' = sCalls s"
  using chat_fields [of "s\<lparr>sIncoming := []\<rparr>" "s'\<lparr>sIncoming := []\<rparr>"] assms by (simp_all add: flowed_def)

lemma flowed_map_of:
  assumes "flowed s s'"
  shows "map_of (sIncoming s) i = Some tr \<Longrightarrow> \<exists>b. map_of (sIncoming s') i = Some (tr\<lparr>incFlowBlocked := b\<rparr>)"
    "map_of (sIncoming s) i = None \<Longrightarrow> map_of (sIncoming s') i = None"
proof -
  have l: "list_all2 sameButFlow (sIncoming s) (sIncoming s')" using assms by (simp add: flowed_def)
  show "map_of (sIncoming s) i = Some tr \<Longrightarrow> \<exists>b. map_of (sIncoming s') i = Some (tr\<lparr>incFlowBlocked := b\<rparr>)"
    using l by (induction rule: list_all2_induct) (auto simp: sameButFlow_def split: if_splits)
  show "map_of (sIncoming s) i = None \<Longrightarrow> map_of (sIncoming s') i = None"
    using l by (induction rule: list_all2_induct) (auto simp: sameButFlow_def split: if_splits)
qed

text \<open>Storing a transfer again after only flow flags changed.\<close>

lemma update_flow:
  "list_all2 sameButFlow (AList.update j x al) bl \<Longrightarrow> sameButFlow (j, y) (j, y') \<Longrightarrow>
   list_all2 sameButFlow (AList.update j y al) (AList.update j y' bl)"
proof (induction al arbitrary: bl)
  case Nil
  then show ?case by (auto simp: list_all2_Cons1 sameButFlow_def [of "(j, x)"])
next
  case (Cons kv al)
  then show ?case
    by (cases "fst kv = j") (auto simp: list_all2_Cons1 sameButFlow_def [of "(j, x)"] sameButFlow_def [of kv])
qed

definition sameTransfers :: "Session \<Rightarrow> Session \<Rightarrow> bool" where
  "sameTransfers s s' \<longleftrightarrow> list_all2 sameButFlow (sIncoming s) (sIncoming s')
     \<and> list_all2 sameButFlow (sDetached s) (sDetached s')"

lemma sameTransfers_flowed: "flowed s s' \<Longrightarrow> sameTransfers s s'"
  by (simp add: sameTransfers_def flowed_fields list_all2_refl) (simp add: flowed_def)

lemma sameTransfers_store:
  assumes "findTransfer g s = Some (i, tr0)" "sameTransfers (storeTransfer g x s) s'"
  obtains b where "findTransfer g s' = Some (i, x\<lparr>incFlowBlocked := b\<rparr>)"
    "\<And>y y'. sameButFlow (i, y) (i, y') \<Longrightarrow> sameTransfers (storeTransfer g y s) (storeTransfer g y' s')"
proof (cases g)
  case (Mapped j)
  then have ij: "j = i" using assms(1) by auto
  have l: "list_all2 sameButFlow (AList.update i x (sIncoming s)) (sIncoming s')"
    using assms(2) Mapped ij by (simp add: sameTransfers_def putIncoming_def)
  have "\<exists>b. map_of bl i = Some (x\<lparr>incFlowBlocked := b\<rparr>)" if "list_all2 sameButFlow al bl" "map_of al i = Some x" for al bl
    using that by (induction rule: list_all2_induct) (auto simp: sameButFlow_def split: if_splits)
  from this [OF l] obtain b where "map_of (sIncoming s') i = Some (x\<lparr>incFlowBlocked := b\<rparr>)"
    by (auto simp: update_conv')
  moreover have "sameTransfers (storeTransfer g y s) (storeTransfer g y' s')" if "sameButFlow (i, y) (i, y')" for y y'
    using update_flow [OF l that] assms(2) Mapped ij by (simp add: sameTransfers_def putIncoming_def)
  ultimately show ?thesis using that Mapped ij by simp
next
  case (Detached k)
  then have k: "k < length (sDetached s)" "sDetached s ! k = (i, tr0)" using assms(1) by (auto split: if_splits)
  have l: "list_all2 sameButFlow ((sDetached s)[k := (i, x)]) (sDetached s')"
    and m: "list_all2 sameButFlow (sIncoming s) (sIncoming s')"
    using assms(2) Detached k by (simp_all add: sameTransfers_def)
  have k': "k < length (sDetached s')" using list_all2_lengthD [OF l] k by simp
  have "sameButFlow (i, x) (sDetached s' ! k)" using list_all2_nthD [OF l, of k] k by simp
  then obtain b where b: "sDetached s' ! k = (i, x\<lparr>incFlowBlocked := b\<rparr>)"
    by (cases "sDetached s' ! k") (auto simp: sameButFlow_def)
  have "sameTransfers (storeTransfer g y s) (storeTransfer g y' s')" if "sameButFlow (i, y) (i, y')" for y y'
    using list_all2_update_cong [OF l that, of k] m Detached k b by (simp add: sameTransfers_def)
  with that b k' Detached show ?thesis by simp
qed

section \<open>Invariants of a receiving transfer\<close>

text \<open>The transfers a session holds: those in the map and those removed from it whose goroutine runs.\<close>

definition allIncoming :: "Session \<Rightarrow> (u64 \<times> incomingTransfer) set" where
  "allIncoming s = set (sIncoming s) \<union> set (sDetached s)"

definition everyIncoming :: "(u64 \<Rightarrow> incomingTransfer \<Rightarrow> bool) \<Rightarrow> Session \<Rightarrow> bool" where
  "everyIncoming I s \<longleftrightarrow> (\<forall>(i, tr) \<in> allIncoming s. I i tr)"

lemma set_update_AList: "set (AList.update k v al) \<subseteq> insert (k, v) (set al)"
  by (induction al) auto

lemma set_delete_AList: "set (AList.delete k al) \<subseteq> set al"
  by (induction al) auto

lemma writeIncomingChunk_failed:
  assumes "findTransfer g s = Some (i, tr)" "incWriting tr = Some chunk" "teWrite te i chunk = (n, err)"
    "err \<noteq> None \<or> n \<noteq> length (fPayload chunk)"
  shows "\<exists>e. writeIncomingChunk te g s =
    (let s = notifyBlockedWindows (sendEnv te) i (releaseIncomingChunk chunk (storeTransfer g
               (tr\<lparr>incWriting := None, incWritten := incWritten tr @ take n (fPayload chunk)\<rparr>) s))
     in snd (sendNack (sendEnv te) (hTransferID (fHeader chunk)) (hChunkID (fHeader chunk)) (hChunkID (fHeader chunk)) NackWriteFailed
          (case findTransfer g s of None \<Rightarrow> s | Some (_, tr) \<Rightarrow> storeTransfer g (stop e tr) s)))"
proof (cases err)
  case None
  with assms show ?thesis
    by (intro exI [of _ "Err ''short write''"]) (simp add: writeIncomingChunk_def Let_def)
next
  case (Some e)
  with assms show ?thesis
    by (intro exI [of _ e]) (simp add: writeIncomingChunk_def Let_def)
qed

text \<open>A property of single transfers that holds when a transfer is opened with acceptable metadata (\<open>Q\<close>)
  and that every change of a transfer keeps, as long as the chunks it accepts are acceptable (\<open>P\<close>),
  holds of all transfers of a session.\<close>

locale transfer_invariant =
  fixes I :: "u64 \<Rightarrow> incomingTransfer \<Rightarrow> bool"
    and P :: "u64 \<Rightarrow> incomingTransfer \<Rightarrow> Frame \<Rightarrow> bool"
    and Q :: "u64 \<Rightarrow> TransferBegin \<Rightarrow> bool"
  assumes fresh: "Q i meta \<Longrightarrow>
      I i (newIncomingTransfer s meta (if tbFlags meta AND TransferFlagChecksumSHA256 \<noteq> 0 then Some [] else None))"
    and flow: "I i tr \<Longrightarrow> I i (tr\<lparr>incFlowBlocked := b\<rparr>)"
    and accept: "I i tr \<Longrightarrow> P i tr frame \<Longrightarrow> classifyChunk frame tr = DataTake \<Longrightarrow>
      length (incQueue tr) < incQueueCap tr \<Longrightarrow> I i (acceptChunk frame tr)"
    and discard: "I i tr \<Longrightarrow> incWriting tr = None \<Longrightarrow> incQueue tr = chunk # queue \<Longrightarrow> incFailed tr \<noteq> None \<Longrightarrow>
      I i (tr\<lparr>incQueue := queue\<rparr>)"
    and take_next: "I i tr \<Longrightarrow> incWriting tr = None \<Longrightarrow> incQueue tr = chunk # queue \<Longrightarrow> incFailed tr = None \<Longrightarrow>
      I i (tr\<lparr>incQueue := queue, incWriting := Some chunk\<rparr>)"
    and counted: "I i tr \<Longrightarrow> incWriting tr = Some chunk \<Longrightarrow> incFailed tr = None \<Longrightarrow>
      I i (countChunk chunk (tr\<lparr>incWriting := None, incWritten := incWritten tr @ fPayload chunk\<rparr>))"
    and uncounted: "I i tr \<Longrightarrow> incWriting tr = Some chunk \<Longrightarrow> incFailed tr \<noteq> None \<Longrightarrow>
      I i (tr\<lparr>incWriting := None, incWritten := incWritten tr @ fPayload chunk\<rparr>)"
    and short: "I i tr \<Longrightarrow> incWriting tr = Some chunk \<Longrightarrow>
      I i (stop e (tr\<lparr>incWriting := None, incWritten := incWritten tr @ take n (fPayload chunk)\<rparr>))"
    and stopped: "I i tr \<Longrightarrow> I i (stop e tr)"
    and suspended: "I i tr \<Longrightarrow> I i (suspend e tr)"
    and finished: "I i tr \<Longrightarrow> I i (tr\<lparr>incDone := True\<rparr>)"
    and ending: "I i tr \<Longrightarrow> I i (closeQueue (tr\<lparr>incEnding := True\<rparr>))"
    and failing: "I i tr \<Longrightarrow> I i (failIncoming e tr)"
begin

lemma every_same: "everyIncoming I s \<Longrightarrow> sIncoming s' = sIncoming s \<Longrightarrow> sDetached s' = sDetached s \<Longrightarrow> everyIncoming I s'"
  by (simp add: everyIncoming_def allIncoming_def)

lemma every_chat: "everyIncoming I s \<Longrightarrow> chat s s' \<Longrightarrow> everyIncoming I s'"
  by (simp add: everyIncoming_def allIncoming_def chat_fields)

lemma every_look: "everyIncoming I s \<Longrightarrow> map_of (sIncoming s) i = Some tr \<Longrightarrow> I i tr"
  by (auto simp: everyIncoming_def allIncoming_def dest: map_of_SomeD)

lemma every_find: "everyIncoming I s \<Longrightarrow> findTransfer g s = Some (i, tr) \<Longrightarrow> I i tr"
proof (cases g)
  case (Detached k)
  assume s: "everyIncoming I s" "findTransfer g s = Some (i, tr)"
  then have "(i, tr) \<in> set (sDetached s)" using Detached by (auto split: if_splits dest: nth_mem)
  with s(1) show ?thesis by (auto simp: everyIncoming_def allIncoming_def)
qed (auto simp: every_look)

lemma every_put: "everyIncoming I s \<Longrightarrow> I i tr \<Longrightarrow> everyIncoming I (putIncoming i tr s)"
  using set_update_AList [of i tr "sIncoming s"]
  by (auto simp: everyIncoming_def allIncoming_def putIncoming_def)

lemma every_store:
  assumes "everyIncoming I s" "findTransfer g s = Some (i, tr0)" "I i tr"
  shows "everyIncoming I (storeTransfer g tr s)"
proof (cases g)
  case (Mapped j)
  with assms show ?thesis by (auto simp: every_put)
next
  case (Detached k)
  with assms(2) have k: "k < length (sDetached s)" "fst (sDetached s ! k) = i" by (auto split: if_splits)
  with assms(1,3) Detached show ?thesis
    using set_update_subset_insert [of "sDetached s" k "(i, tr)"]
    by (auto simp: everyIncoming_def allIncoming_def)
qed

lemma flow_list:
  assumes "list_all2 sameButFlow xs ys" "\<forall>x \<in> set xs. I (fst x) (snd x)"
  shows "\<forall>y \<in> set ys. I (fst y) (snd y)"
  using assms by (induction rule: list_all2_induct) (auto simp: sameButFlow_def flow)

lemma every_pairs: "everyIncoming I s \<longleftrightarrow> (\<forall>x \<in> set (sIncoming s). I (fst x) (snd x)) \<and> (\<forall>x \<in> set (sDetached s). I (fst x) (snd x))"
  by (auto simp: everyIncoming_def allIncoming_def split_beta)

lemma every_sameTransfers: "everyIncoming I s \<Longrightarrow> sameTransfers s s' \<Longrightarrow> everyIncoming I s'"
  unfolding every_pairs sameTransfers_def using flow_list by blast

lemmas every_flowed = every_sameTransfers [OF _ sameTransfers_flowed]

lemma every_release [simp]: "everyIncoming I (releaseIncomingChunk chunk s) \<longleftrightarrow> everyIncoming I s"
    "everyIncoming I (releaseReceiveBytes n s) \<longleftrightarrow> everyIncoming I s"
    "everyIncoming I (logWriter i e s) \<longleftrightarrow> everyIncoming I s"
    "everyIncoming I (removeOpening i s) \<longleftrightarrow> everyIncoming I s"
    "everyIncoming I (snd (reserveReceiveBytes n s)) \<longleftrightarrow> everyIncoming I s"
  by (simp_all add: everyIncoming_def allIncoming_def releaseIncomingChunk_def releaseReceiveBytes_def
      logWriter_def removeOpening_def reserveReceiveBytes_def Let_def)

lemma every_remove: "everyIncoming I s \<Longrightarrow> everyIncoming I (removeIncoming i s)"
  using set_delete_AList [of i "sIncoming s"]
  by (auto simp: everyIncoming_def allIncoming_def removeIncoming_def split: option.split if_splits
      dest: map_of_SomeD)

lemma every_take: "everyIncoming I s \<Longrightarrow> everyIncoming I (takeChunk g s)"
  by (auto simp: takeChunk_def split: option.split prod.split list.split
      intro!: every_store discard take_next dest: every_find)

lemma every_finish: "everyIncoming I s \<Longrightarrow> everyIncoming I (finishTransfer g s)"
proof -
  assume s: "everyIncoming I s"
  have "everyIncoming I (s\<lparr>sDetached := take k (sDetached s) @ drop (Suc k) (sDetached s)\<rparr>)" if "everyIncoming I s" for k s
    using that by (auto simp: everyIncoming_def allIncoming_def dest: in_set_takeD in_set_dropD)
  with s show ?thesis
    by (auto simp: finishTransfer_def Let_def split: option.split goroutine.split
        intro!: every_put finished intro: every_look [OF s])
qed

lemma every_data:
  assumes "everyIncoming I s"
    and "\<And>tr. map_of (sIncoming s) (hTransferID (fHeader frame)) = Some tr \<Longrightarrow> P (hTransferID (fHeader frame)) tr frame"
  shows "everyIncoming I (snd (handleIncomingTransferData env frame s))"
proof -
  have nack: "everyIncoming I (snd (sendNack env i a b r s'))" if "everyIncoming I s'" for i a b r s'
    using that by (rule every_chat) (rule chat_messages)
  have ack: "everyIncoming I (snd (sendAck env i a b r s'))" if "everyIncoming I s'" for i a b r s'
    using that by (rule every_chat) (rule chat_messages)
  have r: "everyIncoming I s'" if "reserveReceiveBytes n s = (b, s')" for n b s'
    using every_release(5) [of n s] assms(1) that by simp
  show ?thesis
    using assms r
    by (auto simp: handleIncomingTransferData_def Let_def lookupIncoming_def nack ack
        split: option.split dataVerdict.split prod.split
        intro!: nack every_put flow accept dest: every_look)
qed

lemma every_write:
  assumes "everyIncoming I s"
  shows "everyIncoming I (writeIncomingChunk te g s)"
proof (cases "findTransfer g s")
  case (Some x)
  obtain i tr where x: "x = (i, tr)" by force
  show ?thesis
  proof (cases "incWriting tr")
    case (Some chunk)
    obtain n err where w: "teWrite te i chunk = (n, err)" by force
    define t where "t = tr\<lparr>incWriting := None, incWritten := incWritten tr @ take n (fPayload chunk)\<rparr>"
    have I: "I i tr" using every_find [OF assms] \<open>findTransfer g s = Some x\<close> x by simp
    note find = \<open>findTransfer g s = Some x\<close> [unfolded x]
    note store = every_store [OF assms find]
    have env: "everyIncoming I (notifyBlockedWindows env j s')" "everyIncoming I (snd (sendIncomingWindow env j s'))"
      "everyIncoming I (snd (sendAck env j a b r s'))" "everyIncoming I (snd (emitProgress p s'))"
      "everyIncoming I (snd (sendNack env j a b rr s'))"
      if "everyIncoming I s'" for env j s' a b r p rr
      using that by (blast intro: every_flowed flowed_notify flowed_sendIncomingWindow
          every_chat chat_messages chat_emit)+
    show ?thesis
    proof (cases "err = None \<and> n = length (fPayload chunk)")
      case True
      then have t: "t = tr\<lparr>incWriting := None, incWritten := incWritten tr @ fPayload chunk\<rparr>" by (simp add: t_def)
      have "everyIncoming I (storeTransfer g (if incFailed tr = None then countChunk chunk t else t) s)"
        using counted [OF I Some] uncounted [OF I Some] by (auto simp: t intro!: store)
      then show ?thesis
        using True by (auto simp: writeIncomingChunk_def find Some w Let_def t_def [symmetric] t env)
    next
      case False
      define s1 where "s1 = notifyBlockedWindows (sendEnv te) i (releaseIncomingChunk chunk (storeTransfer g t s))"
      have "sameTransfers (storeTransfer g t s) s1"
        using sameTransfers_flowed [OF flowed_notify, of "releaseIncomingChunk chunk (storeTransfer g t s)"]
        by (simp add: s1_def sameTransfers_def releaseIncomingChunk_def releaseReceiveBytes_def)
      from sameTransfers_store [OF find this] obtain b where b: "findTransfer g s1 = Some (i, t\<lparr>incFlowBlocked := b\<rparr>)"
        "\<And>y y'. sameButFlow (i, y) (i, y') \<Longrightarrow> sameTransfers (storeTransfer g y s) (storeTransfer g y' s1)"
        by blast
      have "stop e (t\<lparr>incFlowBlocked := b\<rparr>) = (stop e t)\<lparr>incFlowBlocked := b\<rparr>" for e
        by (simp add: stop_def closeQueue_def failIncoming_def)
      with b(2) have "sameTransfers (storeTransfer g (stop e t) s) (storeTransfer g (stop e (t\<lparr>incFlowBlocked := b\<rparr>)) s1)" for e
        by simp
      moreover have "everyIncoming I (storeTransfer g (stop e t) s)" for e
        using short [OF I Some] by (auto simp: t_def intro!: store)
      ultimately have stopped: "everyIncoming I (storeTransfer g (stop e (t\<lparr>incFlowBlocked := b\<rparr>)) s1)" for e
        by (rule every_sameTransfers [rotated])
      have "err \<noteq> None \<or> n \<noteq> length (fPayload chunk)" using False by auto
      from writeIncomingChunk_failed [OF find Some w this, folded t_def, folded s1_def] show ?thesis
        using env(5) [OF stopped] by (auto simp: Let_def b(1))
    qed
  qed (use assms \<open>findTransfer g s = Some x\<close> x in \<open>simp add: writeIncomingChunk_def\<close>)
qed (use assms in \<open>simp add: writeIncomingChunk_def\<close>)

end

context transfer_invariant
begin

lemma every_sent: "everyIncoming I s \<Longrightarrow> everyIncoming I (snd (sendNack env i a b r s))"
    "everyIncoming I s \<Longrightarrow> everyIncoming I (snd (SendTransferState env st s))"
    "everyIncoming I s \<Longrightarrow> everyIncoming I (snd (emitEvent e s))"
    "everyIncoming I s \<Longrightarrow> everyIncoming I (snd (emitProgress p s))"
    "everyIncoming I s \<Longrightarrow> everyIncoming I (snd (send env f s))"
  by (erule every_chat, rule chat_messages chat_emit chat_send)+

lemma every_with: "everyIncoming I s \<Longrightarrow> (\<And>x. r = Inr x \<Longrightarrow> everyIncoming I (snd (k x s))) \<Longrightarrow> everyIncoming I (snd (with_result r k s))"
  by (simp add: with_result_def ret_def split: sum.split)

lemma every_remember [simp]: "everyIncoming I (rememberTransferState now st s) \<longleftrightarrow> everyIncoming I s"
  by (simp add: everyIncoming_def allIncoming_def rememberTransferState_def removeCompletedIDLocked_def Let_def split: prod.split)

lemma every_lookupCompleted [simp]: "everyIncoming I (snd (lookupCompleted now i s)) \<longleftrightarrow> everyIncoming I s"
  by (simp add: everyIncoming_def allIncoming_def lookupCompleted_def removeCompletedIDLocked_def split: option.split)

lemma every_fields [simp]:
  "everyIncoming I (s\<lparr>sLastIncoming := a, sOpening := b\<rparr>) \<longleftrightarrow> everyIncoming I s"
  "everyIncoming I (s\<lparr>sOpens := c\<rparr>) \<longleftrightarrow> everyIncoming I s"
  "everyIncoming I (s\<lparr>sLastIncoming := a, sOpening := b, sOpens := c\<rparr>) \<longleftrightarrow> everyIncoming I s"
  by (simp_all add: everyIncoming_def allIncoming_def)

lemma every_cleanup:
  assumes "everyIncoming I s"
  shows "everyIncoming I (cleanupIncoming reason b s)"
  using assms by (auto simp: every_pairs cleanupIncoming_def Let_def stopped suspended)

lemma every_cancel: "everyIncoming I s \<Longrightarrow> everyIncoming I (snd (handleIncomingCancel env frame s))"
  unfolding handleIncomingCancel_def
  by (rule every_with, assumption)
    (auto simp: Let_def lookupIncoming_def split: option.split
      intro!: every_with every_sent every_remove every_put stopped dest: every_look)

lemma every_window: "everyIncoming I s \<Longrightarrow> everyIncoming I (snd (sendIncomingWindow env i s))"
  using every_flowed flowed_sendIncomingWindow by blast

lemma every_open:
  assumes "everyIncoming I s" "Q (iiTransferID info) (iiMeta info)"
  shows "everyIncoming I (snd (openIncomingTransfer te outcome info s))"
proof (cases outcome)
  case OpenReady
  let ?i = "iiTransferID info" and ?tr = "newIncomingTransfer s (iiMeta info)
    (if tbFlags (iiMeta info) AND TransferFlagChecksumSHA256 \<noteq> 0 then Some [] else None)"
  have "everyIncoming I (putIncoming ?i ?tr (removeOpening ?i s))"
    using assms by (intro every_put fresh) auto
  then have w: "everyIncoming I (snd (sendIncomingWindow env ?i (putIncoming ?i ?tr (removeOpening ?i s))))" for env
    by (rule every_window)
  obtain r s' where r: "sendIncomingWindow (sendEnv te) ?i (putIncoming ?i ?tr (removeOpening ?i s)) = (r, s')" by force
  with w [of "sendEnv te"] have s': "everyIncoming I s'" by simp
  have "everyIncoming I (removeIncoming ?i (case lookupIncoming s' ?i of None \<Rightarrow> s' | Some tr \<Rightarrow> putIncoming ?i (stop e tr) s'))" for e
    using s' by (auto simp: lookupIncoming_def split: option.split intro!: every_remove every_put stopped dest: every_look)
  with OpenReady assms(1) r s' show ?thesis
    by (auto simp: openIncomingTransfer_def Let_def split: option.split prod.split)
qed (use assms(1) in \<open>auto simp: openIncomingTransfer_def Let_def intro!: every_sent\<close>)

lemma every_begin:
  assumes "everyIncoming I s"
    and "\<And>meta. DecodeTransferBegin (fPayload frame) = Inr meta \<Longrightarrow> checkBegin s frame meta (teOpen te \<noteq> None) = None \<Longrightarrow> Q (hTransferID (fHeader frame)) meta"
  shows "everyIncoming I (snd (handleIncomingTransferBegin te frame s))"
  using assms
  by (auto simp: handleIncomingTransferBegin_def Let_def split: sum.split option.split intro!: every_sent every_open)

lemma every_runOpen:
  assumes "everyIncoming I s" "Q (iiTransferID info) (iiMeta info)"
  shows "everyIncoming I (runOpen te outcome info s)"
proof -
  have "everyIncoming I (snd (openIncomingTransfer te outcome info (s\<lparr>sOpens := remove1 info (sOpens s)\<rparr>)))"
    using assms by (intro every_open) simp_all
  then show ?thesis
    by (auto simp: runOpen_def Let_def split: prod.split option.split intro!: every_sent)
qed

lemma every_drain: "everyIncoming I s \<Longrightarrow> everyIncoming I (drainTransfer te i n s)"
  by (induction n arbitrary: s) (simp_all add: every_finish every_take every_write)

lemma every_endFailed: "everyIncoming I s \<Longrightarrow> everyIncoming I (snd (endFailed env now i tr reason s))"
  by (simp add: endFailed_def sendTransferFailed_def Let_def every_sent)

lemma every_commit:
  assumes "everyIncoming I s" "I (hTransferID (fHeader frame)) tr"
  shows "everyIncoming I (snd (commitTransfer te now frame tr s))"
  using assms
  by (auto simp: commitTransfer_def Let_def split: option.split closeOutcome.split
      intro!: every_endFailed every_remove every_put every_sent failing)

lemma every_end:
  assumes "everyIncoming I s"
  shows "everyIncoming I (snd (handleIncomingTransferEnd te now frame s))"
proof -
  let ?i = "hTransferID (fHeader frame)"
  have look: "everyIncoming I s'" if "lookupCompleted now ?i s = (x, s')" for x s'
    using every_lookupCompleted [of now ?i s] assms that by simp
  have drained: "everyIncoming I (snd (case lookupIncoming s' ?i of None \<Rightarrow> (None, s') | Some tr \<Rightarrow> commitTransfer te now frame tr s'))"
    if "everyIncoming I s'" for s'
    using that by (auto simp: lookupIncoming_def split: option.split intro!: every_commit dest: every_look)
  show ?thesis
  proof (cases "map_of (sIncoming s) ?i")
    case None
    with assms look show ?thesis
      by (auto simp: handleIncomingTransferEnd_def lookupIncoming_def Let_def split: option.split prod.split intro!: every_sent)
  next
    case (Some tr)
    then have "everyIncoming I (putIncoming ?i (closeQueue (tr\<lparr>incEnding := True\<rparr>)) s)"
      using assms by (auto intro!: every_put ending dest: every_look)
    note main = drained [OF every_drain [OF this]]
    note unfold = handleIncomingTransferEnd_def lookupIncoming_def [of s] Let_def
    consider "\<not> (incAcceptedBytes tr = tbTotalSize (incMeta tr) \<and> incAcceptedNextChunk tr = tbChunkCount (incMeta tr)) \<or> incEnding tr"
      | e where "teWait te = Some e" | "teWait te = None" "\<not> incEnding tr"
        "incAcceptedBytes tr = tbTotalSize (incMeta tr) \<and> incAcceptedNextChunk tr = tbChunkCount (incMeta tr)"
      by (cases "teWait te") auto
    then show ?thesis
    proof cases
      case 1
      with assms look Some show ?thesis
        by (auto simp: unfold split: option.split prod.split intro!: every_sent)
    next
      case 2
      with assms look Some show ?thesis
        by (auto simp: unfold intro!: every_sent every_put ending stopped dest: every_look)
    next
      case 3
      with Some main show ?thesis by (simp add: unfold del: drainTransfer.simps)
    qed
  qed
qed

end

section \<open>What happens to the incoming transfers of a session\<close>

text \<open>Frames for transfers, the goroutines of the transfers, the application's answers and the end of the
  connection, in any order. The parameters restrict the chunks that arrive for a transfer and the
  announcements that are accepted; everything else is unrestricted.\<close>

inductive receive_run :: "(u64 \<Rightarrow> incomingTransfer \<Rightarrow> Frame \<Rightarrow> bool) \<Rightarrow> (u64 \<Rightarrow> TransferBegin \<Rightarrow> bool) \<Rightarrow> Session \<Rightarrow> Session \<Rightarrow> bool"
  for P Q where
  start: "sIncoming s = [] \<Longrightarrow> sDetached s = [] \<Longrightarrow> sReceiveBytes s = 0 \<Longrightarrow> receive_run P Q s s"
| data: "receive_run P Q s0 s \<Longrightarrow>
    (\<And>tr. map_of (sIncoming s) (hTransferID (fHeader frame)) = Some tr \<Longrightarrow> P (hTransferID (fHeader frame)) tr frame) \<Longrightarrow>
    receive_run P Q s0 (snd (handleIncomingTransferData env frame s))"
| announced: "receive_run P Q s0 s \<Longrightarrow>
    (\<And>meta. DecodeTransferBegin (fPayload frame) = Inr meta \<Longrightarrow>
       checkBegin s frame meta (teOpen te \<noteq> None) = None \<Longrightarrow> Q (hTransferID (fHeader frame)) meta) \<Longrightarrow>
    receive_run P Q s0 (snd (handleIncomingTransferBegin te frame s))"
| opened: "receive_run P Q s0 s \<Longrightarrow> Q (iiTransferID info) (iiMeta info) \<Longrightarrow> receive_run P Q s0 (runOpen te outcome info s)"
| taken: "receive_run P Q s0 s \<Longrightarrow> receive_run P Q s0 (takeChunk g s)"
| written: "receive_run P Q s0 s \<Longrightarrow> receive_run P Q s0 (writeIncomingChunk te g s)"
| finished: "receive_run P Q s0 s \<Longrightarrow> receive_run P Q s0 (finishTransfer g s)"
| ended: "receive_run P Q s0 s \<Longrightarrow> receive_run P Q s0 (snd (handleIncomingTransferEnd te now frame s))"
| cancelled: "receive_run P Q s0 s \<Longrightarrow> receive_run P Q s0 (snd (handleIncomingCancel env frame s))"
| cleaned: "receive_run P Q s0 s \<Longrightarrow> receive_run P Q s0 (cleanupIncoming reason b s)"
| other: "receive_run P Q s0 s \<Longrightarrow> sIncoming s' = sIncoming s \<Longrightarrow> sDetached s' = sDetached s \<Longrightarrow>
    sReceiveBytes s' = sReceiveBytes s \<Longrightarrow> sConfig s' = sConfig s \<Longrightarrow> receive_run P Q s0 s'"

context transfer_invariant
begin

lemma every_run: "receive_run P Q s0 s \<Longrightarrow> everyIncoming I s"
proof (induction rule: receive_run.induct)
  case (start s)
  then show ?case by (simp add: everyIncoming_def allIncoming_def)
next
  case (announced s0 s frame te)
  show ?case using announced.IH announced.hyps(2) by (rule every_begin)
next
  case (other s0 s s')
  then show ?case by (blast intro: every_same)
qed (simp_all add: every_data every_runOpen every_take every_write every_finish every_end
    every_cancel every_cleanup)

end

section \<open>Reassembly\<close>

text \<open>The bytes of chunk \<open>k\<close> of a body, metadata that describe a body, and a chunk that carries its part of it.\<close>

definition chunkOf :: "bytes \<Rightarrow> nat \<Rightarrow> nat \<Rightarrow> bytes" where
  "chunkOf body sz k = take sz (drop (k * sz) body)"

definition metaFits :: "bytes \<Rightarrow> TransferBegin \<Rightarrow> bool" where
  "metaFits body meta \<longleftrightarrow> unat (tbTotalSize meta) = length body \<and> 0 < unat (tbChunkSize meta)
     \<and> unat (tbChunkCount meta) = chunksNeeded (length body) (unat (tbChunkSize meta))"

definition honestChunk :: "(u64 \<Rightarrow> bytes) \<Rightarrow> u64 \<Rightarrow> incomingTransfer \<Rightarrow> Frame \<Rightarrow> bool" where
  "honestChunk body i tr frame \<longleftrightarrow>
     fPayload frame = chunkOf (body i) (unat (tbChunkSize (incMeta tr))) (unat (hChunkID (fHeader frame)))"

definition chunksHeld :: "incomingTransfer \<Rightarrow> Frame list" where
  "chunksHeld tr = (case incWriting tr of None \<Rightarrow> [] | Some chunk \<Rightarrow> [chunk]) @ incQueue tr"

text \<open>The chunks a transfer holds are the next ones of the body, in order, and what was written before them
  is the body up to there; a failed transfer has written a prefix.\<close>

definition reassembles :: "bytes \<Rightarrow> incomingTransfer \<Rightarrow> bool" where
  "reassembles body tr \<longleftrightarrow>
     (let sz = unat (tbChunkSize (incMeta tr)); n = unat (incAcceptedNextChunk tr); k = unat (incNextChunk tr) in
      metaFits body (incMeta tr) \<and> n \<le> unat (tbChunkCount (incMeta tr))
      \<and> unat (incAcceptedBytes tr) = min (length body) (n * sz)
      \<and> (incHash tr = None \<longleftrightarrow> tbFlags (incMeta tr) AND TransferFlagChecksumSHA256 = 0)
      \<and> (\<exists>rest. body = incWritten tr @ (case incWriting tr of None \<Rightarrow> [] | Some chunk \<Rightarrow> fPayload chunk) @ rest)
      \<and> (incFailed tr = None \<longrightarrow>
           k \<le> n \<and> incWritten tr = take (k * sz) body \<and> unat (incReceivedBytes tr) = length (incWritten tr)
           \<and> (\<forall>h. incHash tr = Some h \<longrightarrow> h = incWritten tr)
           \<and> map (\<lambda>f. (unat (hChunkID (fHeader f)), fPayload f)) (chunksHeld tr) = map (\<lambda>j. (j, chunkOf body sz j)) [k..<n]))"

lemma take_chunk: "take (k * sz) body @ chunkOf body sz k = take (Suc k * sz) body"
  by (simp add: chunkOf_def take_add [symmetric] add.commute)

lemma take_chunks: "k \<le> n \<Longrightarrow> take (k * sz) body @ concat (map (chunkOf body sz) [k..<n]) = take (n * sz) body"
proof (induction n rule: dec_induct)
  case (step n)
  then show ?case by (simp add: take_chunk flip: append_assoc)
qed simp

lemma classify_take:
  assumes "classifyChunk frame tr = DataTake"
  shows "incFailed tr = None" "incAccepting tr" "hChunkID (fHeader frame) = incAcceptedNextChunk tr"
    "incAcceptedNextChunk tr < tbChunkCount (incMeta tr)"
  using assms by (auto simp: classifyChunk_def Let_def split: option.splits if_splits)

lemma reassembles_fresh:
  "metaFits body meta \<Longrightarrow> reassembles body
     (newIncomingTransfer s meta (if tbFlags meta AND TransferFlagChecksumSHA256 \<noteq> 0 then Some [] else None))"
  by (auto simp: reassembles_def newIncomingTransfer_def chunksHeld_def Let_def)

lemma reassembles_failed:
  assumes "reassembles body tr" "incFailed tr' \<noteq> None" "incMeta tr' = incMeta tr" "incWriting tr' = incWriting tr"
    "incAcceptedNextChunk tr' = incAcceptedNextChunk tr" "incAcceptedBytes tr' = incAcceptedBytes tr" "incWritten tr' = incWritten tr"
    "incHash tr' = incHash tr"
  shows "reassembles body tr'"
  using assms by (auto simp: reassembles_def Let_def)

lemma reassembles_accept:
  assumes "reassembles body tr" "honestChunk (\<lambda>_. body) i tr frame" "classifyChunk frame tr = DataTake"
  shows "reassembles body (acceptChunk frame tr)"
proof -
  let ?sz = "unat (tbChunkSize (incMeta tr))" and ?n = "unat (incAcceptedNextChunk tr)" and ?k = "unat (incNextChunk tr)"
  note c = classify_take [OF assms(3)]
  note inv = assms(1) [unfolded reassembles_def Let_def, simplified c(1), simplified]
  have lt: "?n < unat (tbChunkCount (incMeta tr))" using c(4) by (simp add: word_less_nat_alt)
  then have n: "unat (incAcceptedNextChunk tr + 1) = Suc ?n"
    using unsigned_less [of "tbChunkCount (incMeta tr)", where ?'a = nat] by (simp add: unat_word_ariths)
  have m: "metaFits body (incMeta tr)" using inv by blast
  then have less: "?n * ?sz < length body"
    using lt chunksNeeded_less [of ?n "length body" ?sz] by (simp add: metaFits_def)
  have p: "fPayload frame = chunkOf body ?sz ?n" using assms(2) c(3) by (simp add: honestChunk_def)
  then have l: "length (fPayload frame) = min ?sz (length body - ?n * ?sz)" by (simp add: chunkOf_def min.commute)
  have "length body < 2 ^ 64" using m u64_less [of "tbTotalSize (incMeta tr)"] by (simp add: metaFits_def)
  then have "unat (incAcceptedBytes tr + of_nat (length (fPayload frame))) = ?n * ?sz + length (fPayload frame)"
    using inv less l by (simp add: unat_word_ariths unat_of_nat min_def split: if_splits)
  then have bytes: "unat (incAcceptedBytes tr + of_nat (length (fPayload frame))) = min (length body) (Suc ?n * ?sz)"
    using l less by (auto simp: min_def)
  have held: "chunksHeld (acceptChunk frame tr) = chunksHeld tr @ [frame]"
    by (simp add: chunksHeld_def acceptChunk_def)
  show ?thesis
    unfolding reassembles_def Let_def held
    using inv lt n bytes p c(3) by (auto simp: acceptChunk_def c(1) upt_Suc_append)
qed

lemma upt_map_Cons: "map g (c # cs) = map f [k..<n] \<Longrightarrow> k < n \<and> g c = f k \<and> map g cs = map f [Suc k..<n]"
  by (cases "k < n") (auto simp: upt_conv_Cons)

lemma reassembles_take:
  assumes "reassembles body tr" "incWriting tr = None" "incQueue tr = chunk # queue" "incFailed tr = None"
  shows "reassembles body (tr\<lparr>incQueue := queue, incWriting := Some chunk\<rparr>)"
proof -
  let ?sz = "unat (tbChunkSize (incMeta tr))" and ?n = "unat (incAcceptedNextChunk tr)" and ?k = "unat (incNextChunk tr)"
  note inv = assms(1) [unfolded reassembles_def Let_def, simplified assms(4), simplified]
  have "map (\<lambda>f. (unat (hChunkID (fHeader f)), fPayload f)) (chunk # queue) = map (\<lambda>j. (j, chunkOf body ?sz j)) [?k..<?n]"
    using inv assms(2,3) by (simp add: chunksHeld_def)
  from upt_map_Cons [OF this] have "fPayload chunk = chunkOf body ?sz ?k" by simp
  then have "body = incWritten tr @ fPayload chunk @ drop (Suc ?k * ?sz) body"
    using inv take_chunk [of ?k ?sz body] by (metis append_assoc append_take_drop_id)
  with assms inv show ?thesis
    by (auto simp: reassembles_def Let_def chunksHeld_def)
qed

lemma reassembles_counted:
  assumes "reassembles body tr" "incWriting tr = Some chunk" "incFailed tr = None"
  shows "reassembles body (countChunk chunk (tr\<lparr>incWriting := None, incWritten := incWritten tr @ fPayload chunk\<rparr>))"
proof -
  let ?sz = "unat (tbChunkSize (incMeta tr))" and ?n = "unat (incAcceptedNextChunk tr)" and ?k = "unat (incNextChunk tr)"
  note inv = assms(1) [unfolded reassembles_def Let_def, simplified assms(3), simplified]
  have "map (\<lambda>f. (unat (hChunkID (fHeader f)), fPayload f)) (chunk # incQueue tr) = map (\<lambda>j. (j, chunkOf body ?sz j)) [?k..<?n]"
    using inv assms(2) by (simp add: chunksHeld_def)
  from upt_map_Cons [OF this] have k: "?k < ?n" "unat (hChunkID (fHeader chunk)) = ?k" "fPayload chunk = chunkOf body ?sz ?k"
    and q: "map (\<lambda>f. (unat (hChunkID (fHeader f)), fPayload f)) (incQueue tr) = map (\<lambda>j. (j, chunkOf body ?sz j)) [Suc ?k..<?n]"
    by simp_all
  have next_id: "unat (hChunkID (fHeader chunk) + 1) = Suc ?k"
    using k unsigned_less [of "incAcceptedNextChunk tr", where ?'a = nat] by (simp add: unat_word_ariths)
  have w: "incWritten tr @ fPayload chunk = take (Suc ?k * ?sz) body"
    using inv k(3) take_chunk by simp
  obtain rest where b: "body = (incWritten tr @ fPayload chunk) @ rest" using inv assms(2) by auto
  have recv: "unat (incReceivedBytes tr) = length (incWritten tr)" and m: "metaFits body (incMeta tr)"
    using inv by blast+
  have "length (incWritten tr) + length (fPayload chunk) \<le> length body"
    by (subst b) simp
  also have "length body < 2 ^ 64"
    using m u64_less [of "tbTotalSize (incMeta tr)"] by (simp add: metaFits_def)
  finally have "unat (incReceivedBytes tr + of_nat (length (fPayload chunk))) = length (incWritten tr @ fPayload chunk)"
    by (simp add: unat_word_ariths unat_of_nat recv)
  moreover have "h = incWritten tr @ fPayload chunk" if "map_option (\<lambda>h. h @ fPayload chunk) (incHash tr) = Some h" for h
    using that inv by auto
  moreover have "\<exists>rest. body = (incWritten tr @ fPayload chunk) @ [] @ rest" using b by auto
  moreover have "?n \<le> unat (tbChunkCount (incMeta tr))" "unat (incAcceptedBytes tr) = min (length body) (?n * ?sz)"
    using inv by blast+
  moreover have "incHash tr = None \<longleftrightarrow> tbFlags (incMeta tr) AND TransferFlagChecksumSHA256 = 0"
    using inv by simp
  ultimately show ?thesis
    unfolding reassembles_def Let_def countChunk_def chunksHeld_def
    using m k(1) next_id w q by (simp add: assms(3) Suc_leI del: append_assoc mult_Suc)
qed

lemma reassembles_short:
  assumes "reassembles body tr" "incWriting tr = Some chunk" "incFailed tr' \<noteq> None" "incMeta tr' = incMeta tr"
    "incWriting tr' = None" "incAcceptedNextChunk tr' = incAcceptedNextChunk tr" "incAcceptedBytes tr' = incAcceptedBytes tr"
    "incWritten tr' = incWritten tr @ take n (fPayload chunk)" "incHash tr' = incHash tr"
  shows "reassembles body tr'"
proof -
  obtain rest where "body = incWritten tr @ fPayload chunk @ rest"
    using assms(1,2) by (auto simp: reassembles_def Let_def)
  then have "body = (incWritten tr @ take n (fPayload chunk)) @ drop n (fPayload chunk) @ rest" by simp
  with assms show ?thesis by (auto simp: reassembles_def Let_def)
qed

lemma reassembles_cong:
  assumes "incMeta tr' = incMeta tr" "incAcceptedNextChunk tr' = incAcceptedNextChunk tr" "incNextChunk tr' = incNextChunk tr"
    "incAcceptedBytes tr' = incAcceptedBytes tr" "incWritten tr' = incWritten tr" "incWriting tr' = incWriting tr"
    "incFailed tr' = incFailed tr" "incReceivedBytes tr' = incReceivedBytes tr" "incHash tr' = incHash tr"
    "incQueue tr' = incQueue tr"
  shows "reassembles body tr' \<longleftrightarrow> reassembles body tr"
  by (simp only: reassembles_def chunksHeld_def assms)

lemma reassembles_flags:
  "reassembles body tr \<Longrightarrow> reassembles body (tr\<lparr>incFlowBlocked := b\<rparr>)"
  "reassembles body tr \<Longrightarrow> reassembles body (tr\<lparr>incDone := b\<rparr>)"
  "reassembles body tr \<Longrightarrow> reassembles body (closeQueue (tr\<lparr>incEnding := b\<rparr>))"
  by (erule reassembles_cong [THEN iffD2, rotated -1]; simp add: closeQueue_def)+

lemma reassembles_stopped:
  "reassembles body tr \<Longrightarrow> reassembles body (stop e tr)" "reassembles body tr \<Longrightarrow> reassembles body (suspend e tr)"
  "reassembles body tr \<Longrightarrow> reassembles body (failIncoming e tr)"
  "reassembles body tr \<Longrightarrow> incFailed tr \<noteq> None \<Longrightarrow> reassembles body (tr\<lparr>incQueue := queue\<rparr>)"
  by (erule reassembles_failed; simp add: stop_def suspend_def failIncoming_def closeQueue_def)+

interpretation reassembly: transfer_invariant "\<lambda>i. reassembles (body i)" "honestChunk body" "\<lambda>i. metaFits (body i)"
  for body
proof (unfold_locales, goal_cases)
  case (1 i meta s)
  then show ?case by (rule reassembles_fresh)
next
  case (3 i tr frame)
  then show ?case by (auto intro!: reassembles_accept simp: honestChunk_def)
next
  case (7 i tr chunk)
  then show ?case by (intro reassembles_short [where tr' = "tr\<lparr>incWriting := None, incWritten := incWritten tr @ fPayload chunk\<rparr>" and n = "length (fPayload chunk)"]) auto
next
  case (8 i tr chunk e n)
  then show ?case by (rule reassembles_short) (auto simp: stop_def failIncoming_def closeQueue_def)
qed (simp_all add: reassembles_take reassembles_counted reassembles_flags reassembles_stopped)

lemma reassembles_whole:
  assumes "reassembles body tr" "incFailed tr = None" "incAcceptedBytes tr = tbTotalSize (incMeta tr)"
    "incQueue tr = []" "incWriting tr = None"
  shows "incWritten tr = body" "incNextChunk tr = incAcceptedNextChunk tr" "incReceivedBytes tr = tbTotalSize (incMeta tr)"
proof -
  let ?sz = "unat (tbChunkSize (incMeta tr))" and ?n = "unat (incAcceptedNextChunk tr)" and ?k = "unat (incNextChunk tr)"
  note inv = assms(1) [unfolded reassembles_def Let_def]
  have w: "?k \<le> ?n" "incWritten tr = take (?k * ?sz) body" "unat (incReceivedBytes tr) = length (incWritten tr)"
    "map (\<lambda>f. (unat (hChunkID (fHeader f)), fPayload f)) (chunksHeld tr) = map (\<lambda>j. (j, chunkOf body ?sz j)) [?k..<?n]"
    using inv assms(2) by blast+
  have "[?k..<?n] = []" using w(4) assms(4,5) by (simp add: chunksHeld_def)
  then have k: "?k = ?n" using w(1) unfolding upt_eq_Nil_conv by linarith
  moreover have "length body = min (length body) (?n * ?sz)"
    using inv assms(3) by (simp add: metaFits_def)
  ultimately show written: "incWritten tr = body" using w(2) by (simp add: min_def split: if_splits)
  show "incNextChunk tr = incAcceptedNextChunk tr" using k by (rule unsigned_word_eqI)
  have "unat (incReceivedBytes tr) = unat (tbTotalSize (incMeta tr))"
    using w(3) written inv by (simp add: metaFits_def)
  then show "incReceivedBytes tr = tbTotalSize (incMeta tr)" by (rule unsigned_word_eqI)
qed


text \<open>A transfer of six bytes in chunks of four, after its first chunk was written.\<close>

definition sampleMeta :: TransferBegin where
  "sampleMeta = \<lparr>tbTotalSize = 6, tbChunkSize = 4, tbChunkCount = 2, tbContentType = 0, tbFlags = 0,
     tbChecksum = replicate 32 0, tbName = '''', tbEvent = '''', tbField = '''', tbIndex = 0, tbParts = [], tbFields = []\<rparr>"

definition sampleReceiver :: Session where
  "sampleReceiver = (newDefault RoleServer)\<lparr>sState := SessionEstablished\<rparr>"

definition sampleOpened :: Session where
  "sampleOpened = runOpen quietTransfers OpenReady \<lparr>iiTransferID = 7, iiRequestID = 0, iiMeta = sampleMeta\<rparr> sampleReceiver"

definition sampleChunk :: "u32 \<Rightarrow> bytes \<Rightarrow> Frame" where
  "sampleChunk k payload = (let f = headed FrameData 0 payload PriorityLow ChannelBulk 0 7 in f\<lparr>fHeader := (fHeader f)\<lparr>hChunkID := k\<rparr>\<rparr>)"

definition sampleReceived :: Session where
  "sampleReceived = writeIncomingChunk quietTransfers (Mapped 7) (takeChunk (Mapped 7)
     (snd (handleIncomingTransferData quietEnv (sampleChunk 0 [1, 2, 3, 4]) sampleOpened)))"

lemma sampleChunk_fields [simp]:
  "fPayload (sampleChunk k p) = p" "hTransferID (fHeader (sampleChunk k p)) = 7" "hChunkID (fHeader (sampleChunk k p)) = k"
  "hFlags (fHeader (sampleChunk k p)) = 0"
  by (simp_all add: sampleChunk_def headed_def NewFrame_def Let_def)

definition sampleIncoming :: incomingTransfer where
  "sampleIncoming = \<lparr>incMeta = sampleMeta, incReceivedBytes = 0, incAcceptedBytes = 0, incFirstChunk = 0,
     incLastChunk = 0, incNextChunk = 0, incAcceptedNextChunk = 0, incHash = None, incQueue = [],
     incQueueCap = 16, incFailed = None, incAccepting = True, incEnding = False, incFlowBlocked = False,
     incSuspendOnFailure = False, incCanceled = False, incDone = False, incWriting = None, incWritten = []\<rparr>"

lemma sampleOpened_eq:
  "sampleOpened = (newDefault RoleServer)\<lparr>sState := SessionEstablished, sOpens := [], sOpening := [], sIncoming := [(7, sampleIncoming)]\<rparr>"
proof -
  have "tbFlags sampleMeta = 0" by (simp add: sampleMeta_def)
  then show ?thesis
    by (simp add: sampleOpened_def runOpen_def openIncomingTransfer_def sampleReceiver_def newIncomingTransfer_def
        removeOpening_def sendIncomingWindow_def RemoteSupports_def putIncoming_def sampleIncoming_def DefaultSessionConfig_def)
qed

definition sampleWritten :: incomingTransfer where
  "sampleWritten = countChunk (sampleChunk 0 [1, 2, 3, 4])
     ((acceptChunk (sampleChunk 0 [1, 2, 3, 4]) sampleIncoming)\<lparr>incQueue := [], incWritten := [1, 2, 3, 4]\<rparr>)"

lemma sample_data: "snd (handleIncomingTransferData quietEnv (sampleChunk 0 [1, 2, 3, 4]) sampleOpened)
    = sampleOpened\<lparr>sReceiveBytes := 4, sIncoming := [(7, acceptChunk (sampleChunk 0 [1, 2, 3, 4]) sampleIncoming)]\<rparr>"
  by (simp add: handleIncomingTransferData_def lookupIncoming_def sampleOpened_eq classifyChunk_def
      reserveReceiveBytes_def DefaultSessionConfig_def sampleIncoming_def sampleMeta_def expectedChunkSize_def putIncoming_def Let_def)

lemma sample_received: "sIncoming sampleReceived = [(7, sampleWritten)]"
  unfolding sampleReceived_def sample_data
  by (simp add: takeChunk_def writeIncomingChunk_def sampleOpened_eq acceptChunk_def sampleIncoming_def putIncoming_def
      quietTransfers_def SessionEnv.defs releaseIncomingChunk_def releaseReceiveBytes_def sampleWritten_def countChunk_def
      sendIncomingWindow_def RemoteSupports_def notifyBlockedWindows_def blockedTransfers_def emitProgress_def Let_def)

definition sampleBody :: bytes where
  "sampleBody = [1, 2, 3, 4, 5, 6]"

lemma sample_run: "receive_run (honestChunk (\<lambda>i. sampleBody)) (\<lambda>i. metaFits sampleBody) sampleReceiver sampleReceived"
proof -
  have meta: "metaFits sampleBody sampleMeta" by (simp add: metaFits_def sampleMeta_def sampleBody_def chunksNeeded_def)
  have "receive_run (honestChunk (\<lambda>i. sampleBody)) (\<lambda>i. metaFits sampleBody) sampleReceiver sampleOpened"
    unfolding sampleOpened_def by (rule receive_run.opened, rule receive_run.start) (simp_all add: sampleReceiver_def meta)
  then show ?thesis
    unfolding sampleReceived_def
    by (intro receive_run.written receive_run.taken receive_run.data)
      (auto simp: honestChunk_def sampleOpened_eq sampleIncoming_def sampleMeta_def sampleBody_def chunkOf_def)
qed


section \<open>The end of a transfer\<close>

text \<open>What a goroutine's step leaves alone.\<close>

definition keepsTransfer :: "incomingTransfer \<Rightarrow> incomingTransfer \<Rightarrow> bool" where
  "keepsTransfer tr tr' \<longleftrightarrow> incMeta tr' = incMeta tr \<and> incAcceptedBytes tr' = incAcceptedBytes tr
     \<and> incAcceptedNextChunk tr' = incAcceptedNextChunk tr \<and> incDone tr' = incDone tr
     \<and> (incAccepting tr' \<longrightarrow> incAccepting tr) \<and> (incFailed tr \<noteq> None \<longrightarrow> incFailed tr' \<noteq> None)"

lemma keepsTransfer_refl [simp]: "keepsTransfer tr tr"
  by (simp add: keepsTransfer_def)

lemma keepsTransfer_trans: "keepsTransfer tr tr' \<Longrightarrow> keepsTransfer tr' tr'' \<Longrightarrow> keepsTransfer tr tr''"
  by (auto simp: keepsTransfer_def)

lemma take_mapped:
  assumes "map_of (sIncoming s) i = Some tr" "incWriting tr = None"
  shows "\<exists>tr'. map_of (sIncoming (takeChunk (Mapped i) s)) i = Some tr' \<and> keepsTransfer tr tr'
    \<and> incQueue tr' = tl (incQueue tr) \<and> (incQueue tr = [] \<longrightarrow> incWriting tr' = None)"
  using assms
  by (auto simp: takeChunk_def keepsTransfer_def putIncoming_def update_conv' releaseIncomingChunk_def
      releaseReceiveBytes_def split: list.split)

lemma flowed_lookup:
  assumes "flowed s s'" "map_of (sIncoming s) i = Some tr"
  obtains b where "map_of (sIncoming s') i = Some (tr\<lparr>incFlowBlocked := b\<rparr>)"
  using flowed_map_of(1) [OF assms] by blast

lemma flowed_written:
  "flowed s (snd (emitProgress p (notifyBlockedWindows env i (snd (sendIncomingWindow env i s)))))"
  "flowed s (snd (emitProgress p (notifyBlockedWindows env i (snd (sendIncomingWindow env i (snd (sendAck env j a b r s)))))))"
proof -
  show 1: "flowed s (snd (emitProgress p (notifyBlockedWindows env i (snd (sendIncomingWindow env i s)))))" for s
    by (rule flowed_trans [OF _ flowed_chat [OF chat_emit(2)]], rule flowed_trans [OF _ flowed_notify])
      (rule flowed_sendIncomingWindow)
  show "flowed s (snd (emitProgress p (notifyBlockedWindows env i (snd (sendIncomingWindow env i (snd (sendAck env j a b r s)))))))"
    by (rule flowed_trans [OF _ 1]) (rule flowed_chat, rule chat_messages)
qed

lemma write_mapped:
  assumes "map_of (sIncoming s) i = Some tr"
  shows "\<exists>tr'. map_of (sIncoming (writeIncomingChunk te (Mapped i) s)) i = Some tr' \<and> keepsTransfer tr tr'
    \<and> incQueue tr' = incQueue tr \<and> incWriting tr' = None"
proof (cases "incWriting tr")
  case None
  with assms show ?thesis by (simp add: writeIncomingChunk_def)
next
  case (Some chunk)
  obtain n err where w: "teWrite te i chunk = (n, err)" by force
  define t where "t = tr\<lparr>incWriting := None, incWritten := incWritten tr @ take n (fPayload chunk)\<rparr>"
  have find: "findTransfer (Mapped i) s = Some (i, tr)" using assms by simp
  have stored: "map_of (sIncoming (releaseIncomingChunk chunk (storeTransfer (Mapped i) x s))) i = Some x" for x
    by (simp add: putIncoming_def update_conv' releaseIncomingChunk_def releaseReceiveBytes_def)
  show ?thesis
  proof (cases "err = None \<and> n = length (fPayload chunk)")
    case True
    let ?x = "if incFailed tr = None then countChunk chunk t else t"
    have "flowed (releaseIncomingChunk chunk (storeTransfer (Mapped i) ?x s)) (writeIncomingChunk te (Mapped i) s)"
      using True
      by (auto simp: writeIncomingChunk_def find Some w Let_def t_def flowed_written flowed_notify
          simp del: findTransfer.simps storeTransfer.simps)
    from flowed_lookup [OF this stored] obtain b where
      "map_of (sIncoming (writeIncomingChunk te (Mapped i) s)) i = Some (?x\<lparr>incFlowBlocked := b\<rparr>)" .
    moreover have "keepsTransfer tr (?x\<lparr>incFlowBlocked := b\<rparr>)" "incQueue (?x\<lparr>incFlowBlocked := b\<rparr>) = incQueue tr"
      "incWriting (?x\<lparr>incFlowBlocked := b\<rparr>) = None"
      by (simp_all add: keepsTransfer_def countChunk_def t_def)
    ultimately show ?thesis by blast
  next
    case False
    define s1 where "s1 = notifyBlockedWindows (sendEnv te) i (releaseIncomingChunk chunk (storeTransfer (Mapped i) t s))"
    have f: "flowed (releaseIncomingChunk chunk (storeTransfer (Mapped i) t s)) s1" unfolding s1_def by (rule flowed_notify)
    obtain b where b: "map_of (sIncoming s1) i = Some (t\<lparr>incFlowBlocked := b\<rparr>)" by (rule flowed_lookup [OF f stored])
    have "err \<noteq> None \<or> n \<noteq> length (fPayload chunk)" using False by auto
    from writeIncomingChunk_failed [OF find Some w this, folded t_def, folded s1_def] obtain e where
      eq: "writeIncomingChunk te (Mapped i) s = snd (sendNack (sendEnv te) (hTransferID (fHeader chunk)) (hChunkID (fHeader chunk))
        (hChunkID (fHeader chunk)) NackWriteFailed (putIncoming i (stop e (t\<lparr>incFlowBlocked := b\<rparr>)) s1))"
      by (auto simp: b Let_def)
    have "chat (putIncoming i (stop e (t\<lparr>incFlowBlocked := b\<rparr>)) s1) (writeIncomingChunk te (Mapped i) s)"
      unfolding eq by (rule chat_messages)
    then have "map_of (sIncoming (writeIncomingChunk te (Mapped i) s)) i = Some (stop e (t\<lparr>incFlowBlocked := b\<rparr>))"
      by (simp add: chat_fields putIncoming_def update_conv')
    then show ?thesis
      by (simp add: keepsTransfer_def stop_def closeQueue_def failIncoming_def t_def)
  qed
qed

text \<open>Enough rounds are run: the queue has been emptied and the goroutine has finished.\<close>

definition drained :: "incomingTransfer \<Rightarrow> incomingTransfer \<Rightarrow> bool" where
  "drained tr tr' \<longleftrightarrow> incMeta tr' = incMeta tr \<and> incAcceptedBytes tr' = incAcceptedBytes tr
     \<and> incAcceptedNextChunk tr' = incAcceptedNextChunk tr \<and> incDone tr' \<and> incQueue tr' = [] \<and> incWriting tr' = None"

lemma drain_rounds:
  assumes "map_of (sIncoming s) i = Some tr" "length (incQueue tr) < n" "\<not> incAccepting tr"
  shows "\<exists>tr'. map_of (sIncoming (drainTransfer te i n s)) i = Some tr' \<and> drained tr tr'"
  using assms
proof (induction n arbitrary: s tr)
  case (Suc n)
  let ?s1 = "writeIncomingChunk te (Mapped i) s" and ?s2 = "takeChunk (Mapped i) (writeIncomingChunk te (Mapped i) s)"
  obtain t1 where t1: "map_of (sIncoming ?s1) i = Some t1" "keepsTransfer tr t1" "incQueue t1 = incQueue tr" "incWriting t1 = None"
    using write_mapped [OF Suc.prems(1), of te] by blast
  obtain t2 where t2: "map_of (sIncoming ?s2) i = Some t2" "keepsTransfer t1 t2" "incQueue t2 = tl (incQueue t1)"
      "incQueue t1 = [] \<longrightarrow> incWriting t2 = None"
    using take_mapped [OF t1(1,4)] by blast
  have keep: "keepsTransfer tr t2" by (rule keepsTransfer_trans [OF t1(2) t2(2)])
  then have open': "\<not> incAccepting t2" using Suc.prems(3) by (auto simp: keepsTransfer_def)
  show ?case
  proof (cases n)
    case 0
    then have "incQueue t2 = []" "incWriting t2 = None" using Suc.prems(2) t1(3) t2(3,4) by simp_all
    with 0 t2(1) keep open' show ?thesis
      by (auto simp: finishTransfer_def putIncoming_def update_conv' logWriter_def Let_def drained_def keepsTransfer_def)
  next
    case (Suc m)
    then have "length (incQueue t2) < n" using Suc.prems(2) t1(3) t2(3) by simp
    from Suc.IH [OF t2(1) this open'] obtain tr' where
      "map_of (sIncoming (drainTransfer te i n ?s2)) i = Some tr'" "drained t2 tr'" by blast
    with keep show ?thesis by (auto simp: drained_def keepsTransfer_def)
  qed
qed simp

text \<open>C22: Waiting for the goroutine of a transfer ends: once the queue is closed, as many rounds as there are
  queued chunks and one more write or discard all of them, whichever writes fail, and the
  goroutine has finished.\<close>

theorem goroutine_finishes:
  assumes "map_of (sIncoming s) i = Some tr" "\<not> incAccepting tr" "length (incQueue tr) < n"
  shows "\<exists>tr'. map_of (sIncoming (drainTransfer te i n s)) i = Some tr' \<and> incDone tr' \<and> incQueue tr' = [] \<and> incWriting tr' = None"
  using drain_rounds [OF assms(1,3,2), of te] unfolding drained_def by blast

theorem goroutine_finishes_witness:
  "\<exists>tr. map_of (sIncoming (drainTransfer quietTransfers 7 2
      (putIncoming 7 (closeQueue (acceptChunk (sampleChunk 0 [1, 2, 3, 4]) sampleIncoming)) sampleOpened))) 7 = Some tr
    \<and> incDone tr \<and> incQueue tr = [] \<and> incWriting tr = None"
  by (rule goroutine_finishes [where tr = "closeQueue (acceptChunk (sampleChunk 0 [1, 2, 3, 4]) sampleIncoming)"])
    (simp_all add: putIncoming_def update_conv' closeQueue_def acceptChunk_def sampleIncoming_def)

text \<open>Which operations end a writer by closing it.\<close>

lemma log_store [simp]: "sWriterLog (storeTransfer g tr s) = sWriterLog s" "sWriterLog (putIncoming i tr s) = sWriterLog s"
  by (cases g) (simp_all add: putIncoming_def)

lemma log_kept [simp]:
  "sWriterLog (releaseIncomingChunk chunk s) = sWriterLog s"
  "sWriterLog (takeChunk g s) = sWriterLog s"
  "sWriterLog (removeIncoming i s) = sWriterLog s"
  "sWriterLog (rememberTransferState now st s) = sWriterLog s"
  "sWriterLog (snd (lookupCompleted now i s)) = sWriterLog s"
  by (auto simp: takeChunk_def releaseIncomingChunk_def releaseReceiveBytes_def removeIncoming_def
      rememberTransferState_def removeCompletedIDLocked_def lookupCompleted_def Let_def
      split: option.split prod.split list.split)

lemma log_sent [simp]:
  "sWriterLog (notifyBlockedWindows env i s) = sWriterLog s" "sWriterLog (snd (sendIncomingWindow env i s)) = sWriterLog s"
  "sWriterLog (snd (sendAck env i a b r s)) = sWriterLog s" "sWriterLog (snd (sendNack env i a b rr s)) = sWriterLog s"
  "sWriterLog (snd (emitProgress p s)) = sWriterLog s" "sWriterLog (snd (emitEvent e s)) = sWriterLog s"
  "sWriterLog (snd (SendTransferState env st s)) = sWriterLog s"
  by (simp_all add: flowed_fields [OF flowed_notify] flowed_fields [OF flowed_sendIncomingWindow]
      chat_fields [OF chat_messages(1)] chat_fields [OF chat_messages(2)] chat_fields [OF chat_messages(3)]
      chat_fields [OF chat_emit(1)] chat_fields [OF chat_emit(2)])

lemma log_write [simp]: "sWriterLog (writeIncomingChunk te g s) = sWriterLog s"
  by (simp add: writeIncomingChunk_def Let_def split: option.split prod.split)

lemma log_finish: "(i, WriterClosed) \<in> set (sWriterLog (finishTransfer g s)) \<longleftrightarrow> (i, WriterClosed) \<in> set (sWriterLog s)"
  by (auto simp: finishTransfer_def logWriter_def Let_def putIncoming_def split: option.split goroutine.split)

lemma log_drain: "(i, WriterClosed) \<in> set (sWriterLog (drainTransfer te j n s)) \<longleftrightarrow> (i, WriterClosed) \<in> set (sWriterLog s)"
  by (induction n arbitrary: s) (simp_all add: log_finish)

lemma log_endFailed [simp]: "sWriterLog (snd (endFailed env now i tr reason s)) = sWriterLog s"
  by (simp add: endFailed_def sendTransferFailed_def Let_def)

text \<open>The writer is closed only on the successful branch.\<close>

definition completion :: "u64 \<Rightarrow> incomingTransfer \<Rightarrow> TransferStateMessage" where
  "completion i tr = \<lparr>tsmTransferID = i, tsmReceivedBytes = tbTotalSize (incMeta tr), tsmNextChunk = tbChunkCount (incMeta tr),
     tsmFlags = TransferStateFlagCompleted, tsmReasonCode = 0\<rparr>"

lemma commit_closes:
  assumes "(i, WriterClosed) \<in> set (sWriterLog (snd (commitTransfer te now frame tr s)))" "(i, WriterClosed) \<notin> set (sWriterLog s)"
    "hTransferID (fHeader frame) = i"
  shows "incFailed tr = None \<and> (tbTotalSize (incMeta tr) > 0 \<longrightarrow> incReceivedBytes tr = tbTotalSize (incMeta tr))
    \<and> (\<forall>h. incHash tr = Some h \<longrightarrow> teSha256 te h = tbChecksum (incMeta tr))
    \<and> (\<exists>s1. commitTransfer te now frame tr s = SendTransferState (sendEnv te) (stateMessage i tr TransferStateFlagCompleted 0) s1)"
  using assms
  by (auto simp: commitTransfer_def logWriter_def Let_def split: if_splits option.splits closeOutcome.splits)

lemma removed_lookup: "lookupIncoming (removeIncoming i s) i = None"
  by (auto simp: lookupIncoming_def removeIncoming_def delete_conv' split: option.split)

lemma commit_removed:
  assumes "(i, WriterClosed) \<in> set (sWriterLog (snd (commitTransfer te now frame tr s)))" "(i, WriterClosed) \<notin> set (sWriterLog s)"
    "hTransferID (fHeader frame) = i"
  shows "lookupIncoming (snd (commitTransfer te now frame tr s)) i = None"
proof -
  have sent: "lookupIncoming (snd (SendTransferState env st s)) i = lookupIncoming s i"
    "lookupIncoming (snd (emitProgress p s)) i = lookupIncoming s i" for env st p s
    by (simp_all add: lookupIncoming_def chat_fields [OF chat_messages(3)] chat_fields [OF chat_emit(2)])
  have kept: "lookupIncoming (rememberTransferState now st s) i = lookupIncoming s i"
    "lookupIncoming (s\<lparr>sWriterLog := l\<rparr>) i = lookupIncoming s i" for now st s l
    by (simp_all add: lookupIncoming_def rememberTransferState_def removeCompletedIDLocked_def Let_def split: prod.split)
  show ?thesis
    using assms
    by (auto simp: commitTransfer_def logWriter_def Let_def sent kept removed_lookup
        split: if_splits option.splits closeOutcome.splits)
qed

lemma end_closes:
  assumes "hTransferID (fHeader frame) = i" "lookupIncoming s i = Some tr" "(i, WriterClosed) \<notin> set (sWriterLog s)"
    "(i, WriterClosed) \<in> set (sWriterLog (snd (handleIncomingTransferEnd te now frame s)))"
  shows "incAcceptedBytes tr = tbTotalSize (incMeta tr)" "incAcceptedNextChunk tr = tbChunkCount (incMeta tr)"
    "handleIncomingTransferEnd te now frame s =
       (let sd = drainTransfer te i (length (incQueue tr) + 1) (putIncoming i (closeQueue (tr\<lparr>incEnding := True\<rparr>)) s)
        in case lookupIncoming sd i of None \<Rightarrow> (None, sd) | Some tr \<Rightarrow> commitTransfer te now frame tr sd)"
proof -
  have look: "sWriterLog s' = sWriterLog s" if "lookupCompleted now i s = (x, s')" for x s'
    using log_kept(5) [of now i s] that by simp
  have main: "incAcceptedBytes tr = tbTotalSize (incMeta tr) \<and> incAcceptedNextChunk tr = tbChunkCount (incMeta tr)
    \<and> \<not> incEnding tr \<and> teWait te = None"
    using assms look unfolding handleIncomingTransferEnd_def Let_def
    by (auto split: if_splits option.splits prod.splits simp del: drainTransfer.simps)
  with assms(1,2) show "incAcceptedBytes tr = tbTotalSize (incMeta tr)" "incAcceptedNextChunk tr = tbChunkCount (incMeta tr)"
    "handleIncomingTransferEnd te now frame s =
       (let sd = drainTransfer te i (length (incQueue tr) + 1) (putIncoming i (closeQueue (tr\<lparr>incEnding := True\<rparr>)) s)
        in case lookupIncoming sd i of None \<Rightarrow> (None, sd) | Some tr \<Rightarrow> commitTransfer te now frame tr sd)"
    by (simp_all add: handleIncomingTransferEnd_def Let_def del: drainTransfer.simps)
qed


lemma sampleReceived_fields:
  "sReceiveBytes sampleReceived = 0" "sConfig sampleReceived = DefaultSessionConfig RoleServer"
  "sRemoteCaps sampleReceived = 0" "sWriterLog sampleReceived = []"
  unfolding sampleReceived_def sample_data
  by (simp_all add: takeChunk_def writeIncomingChunk_def sampleOpened_eq acceptChunk_def sampleIncoming_def putIncoming_def
      quietTransfers_def SessionEnv.defs releaseIncomingChunk_def releaseReceiveBytes_def countChunk_def
      sendIncomingWindow_def RemoteSupports_def notifyBlockedWindows_def blockedTransfers_def emitProgress_def Let_def)

definition sampleLast :: incomingTransfer where
  "sampleLast = acceptChunk (sampleChunk 1 [5, 6]) sampleWritten"

definition sampleAll :: Session where
  "sampleAll = snd (handleIncomingTransferData quietEnv (sampleChunk 1 [5, 6]) sampleReceived)"

lemma sampleAll_eq: "sampleAll = sampleReceived\<lparr>sReceiveBytes := 2, sIncoming := [(7, sampleLast)]\<rparr>"
  by (simp add: sampleAll_def sampleLast_def handleIncomingTransferData_def lookupIncoming_def sample_received sampleReceived_fields
      sampleWritten_def countChunk_def acceptChunk_def classifyChunk_def reserveReceiveBytes_def DefaultSessionConfig_def
      sampleIncoming_def sampleMeta_def expectedChunkSize_def putIncoming_def Let_def word_le_nat_alt)

lemma sampleAll_closed:
  "(7, WriterClosed) \<in> set (sWriterLog (snd (handleIncomingTransferEnd quietTransfers 0 (endFrame 7 sampleOptions) sampleAll)))"
  by (simp add: sampleAll_eq handleIncomingTransferEnd_def sampleLast_def sampleWritten_def countChunk_def acceptChunk_def
      sampleIncoming_def sampleMeta_def endFrame_def headed_def NewFrame_def lookupIncoming_def quietTransfers_def SessionEnv.defs
      takeChunk_def writeIncomingChunk_def putIncoming_def releaseIncomingChunk_def releaseReceiveBytes_def
      sendIncomingWindow_def RemoteSupports_def notifyBlockedWindows_def blockedTransfers_def emitProgress_def 
      sampleReceived_fields closeQueue_def finishTransfer_def commitTransfer_def logWriter_def Let_def)


end
