(* ===== verification/Etp_Gate.thy ===== *)
theory Etp_Gate
  imports Etp_Reassembly
begin

text \<open>
  The authentication gate of a session (\<open>EnsureAuthenticatedFor\<close>, \<open>HandleAuth\<close>, the states that count as
  authenticated): what no peer can reach before an authentication was accepted, over every order of frames, timers,
  goroutines and calls of the application, and the one way around it.
\<close>

section \<open>Nothing before authentication\<close>

text \<open>A session that requires authentication and whose peer has not been authenticated.\<close>

definition unauthenticated :: "Session \<Rightarrow> bool" where
  "unauthenticated s \<longleftrightarrow> acRequired (scAuth (sConfig s)) \<and> sRemoteCaps s = 0
     \<and> sState s \<notin> {SessionAuthAccepted, SessionHelloSent, SessionEstablished, SessionDraining}
     \<and> sCalls s = [] \<and> sHandlerJobs s = [] \<and> sIncoming s = [] \<and> sOpening s = [] \<and> sOpens s = []
     \<and> (\<forall>msg b. sPeerClose s \<noteq> Some (msg, True, b))"

definition authAccepted :: "Session \<Rightarrow> bool" where
  "authAccepted s \<longleftrightarrow> (\<exists>e \<in> set (sEvents s). peCode e = EventAuthAccepted)"

lemma unauth_chat: "unauthenticated s \<Longrightarrow> chat s s' \<Longrightarrow> unauthenticated s'"
  by (simp add: unauthenticated_def chat_fields)

lemma unauth_sent [simp]:
  "unauthenticated s \<Longrightarrow> unauthenticated (snd (send env f s))"
  "unauthenticated s \<Longrightarrow> unauthenticated (snd (sendAndWait env f s))"
  "unauthenticated s \<Longrightarrow> unauthenticated (snd (SendError env code frame message s))"
  "unauthenticated s \<Longrightarrow> unauthenticated (snd (emitEvent e s))"
  "unauthenticated s \<Longrightarrow> unauthenticated (snd (markBadFrame frame message s))"
  "unauthenticated s \<Longrightarrow> unauthenticated (snd (sendCloseAckAndWait env msg s))"
  by (erule unauth_chat, rule chats)+

lemma unauth_fields [simp]:
  "unauthenticated (s\<lparr>sRate := r\<rparr>) \<longleftrightarrow> unauthenticated s"
  "unauthenticated (s\<lparr>sIdentity := i\<rparr>) \<longleftrightarrow> unauthenticated s"
  "unauthenticated (s\<lparr>sTransportClosed := b\<rparr>) \<longleftrightarrow> unauthenticated s"
  "unauthenticated (s\<lparr>sPeerCloseSeen := b\<rparr>) \<longleftrightarrow> unauthenticated s"
  "unauthenticated (s\<lparr>sPeerCloseDone := d\<rparr>) \<longleftrightarrow> unauthenticated s"
  "unauthenticated (s\<lparr>sCloseAck := c\<rparr>) \<longleftrightarrow> unauthenticated s"
  "unauthenticated (failOutgoing e s) \<longleftrightarrow> unauthenticated s"
  "unauthenticated (closeWriter s) \<longleftrightarrow> unauthenticated s"
  "unauthenticated (snd (closeTransport env s)) \<longleftrightarrow> unauthenticated s"
  by (simp_all add: unauthenticated_def failOutgoing_def closeWriter_def closeTransport_def Let_def)

lemma unauth_cleanup [simp]: "unauthenticated s \<Longrightarrow> unauthenticated (cleanupIncoming reason b s)"
  by (simp add: unauthenticated_def cleanupIncoming_def Let_def)

lemma unauth_state [simp]:
  "unauthenticated s \<Longrightarrow> st \<notin> {SessionAuthAccepted, SessionHelloSent, SessionEstablished, SessionDraining} \<Longrightarrow>
   unauthenticated (setState st s)"
  "unauthenticated s \<Longrightarrow> st \<notin> {SessionAuthAccepted, SessionHelloSent, SessionEstablished, SessionDraining} \<Longrightarrow>
   unauthenticated (s\<lparr>sState := st\<rparr>)"
  by (simp_all add: unauthenticated_def setState_def Let_def)

lemma unauth_ops:
  "unauthenticated s \<Longrightarrow> (\<And>x. unauthenticated (snd (k x s))) \<Longrightarrow> unauthenticated (snd (with_result r k s))"
  "unauthenticated (snd (m s)) \<Longrightarrow> (\<And>s'. unauthenticated s' \<Longrightarrow> unauthenticated (snd (f s'))) \<Longrightarrow> unauthenticated (snd (op_try m f s))"
  "unauthenticated (snd (m s)) \<Longrightarrow> (\<And>s'. unauthenticated s' \<Longrightarrow> unauthenticated (snd (f s'))) \<Longrightarrow> unauthenticated (snd (op_seq m f s))"
  "unauthenticated s \<Longrightarrow> unauthenticated (snd (ret e s))"
  by (auto simp: with_result_def op_try_def op_seq_def ret_def split: sum.split option.split prod.split)

lemma unauth_reject: "unauthenticated s \<Longrightarrow> unauthenticated (snd (RejectAuth env a b message s))"
  unfolding RejectAuth_def
  by (auto simp: Let_def intro!: unauth_ops)

lemma unauth_rejectAndClose: "unauthenticated s \<Longrightarrow> unauthenticated (snd (rejectAuthAndClose env a b message s))"
  unfolding rejectAuthAndClose_def
  by (rule unauth_ops(2)) (auto simp: unauth_reject split: option.split)

lemma unauth_capability: "unauthenticated s \<Longrightarrow> requireCapability s cap name \<noteq> None"
  by (simp add: unauthenticated_def requireCapability_def requireRemoteCapability_def RemoteSupports_def)

lemma unauth_requireDrain: "unauthenticated s \<Longrightarrow> unauthenticated (snd (requireDrain env flags frame s))"
  by (auto simp: requireDrain_def split: option.split)

lemma unauth_peerClose: "unauthenticated s \<Longrightarrow> unauthenticated (snd (beginPeerClose SessionClosing s))"
  by (auto simp: beginPeerClose_def)

lemma unauth_handleClose:
  assumes "unauthenticated s"
  shows "unauthenticated (snd (handleIncomingClose env frame s))"
  unfolding handleIncomingClose_def
proof (rule unauth_ops(1) [OF assms])
  fix msg
  let ?k = "\<lambda>s. if sPeerCloseSeen s then (None, s)
       else
       let s = s\<lparr>sPeerCloseSeen := True\<rparr> in
       if closeFlags msg AND CloseFlagDrain \<noteq> 0
       then let (collision, s) = beginPeerClose SessionDraining s
            in (None, s\<lparr>sPeerClose := Some (msg, True, collision)\<rparr>)
       else let (collision, s) = beginPeerClose SessionClosing s;
                s = failOutgoing (Some ErrSessionClosed) (cleanupIncoming ''peer closed session'' False s)
            in (None, s\<lparr>sPeerClose := Some (msg, False, collision)\<rparr>)"
  show "unauthenticated (snd (op_try (requireDrain env (closeFlags msg) frame) ?k s))"
  proof (cases "closeFlags msg AND CloseFlagDrain = 0")
    case True
    have "unauthenticated (snd (beginPeerClose SessionClosing (s\<lparr>sPeerCloseSeen := True\<rparr>)))"
      using assms by (intro unauth_peerClose) simp
    moreover have "unauthenticated (s'\<lparr>sPeerClose := Some (msg, False, c)\<rparr>)" if "unauthenticated s'" for s' c
      using that by (simp add: unauthenticated_def)
    ultimately show ?thesis
      using True assms by (auto simp: op_try_def requireDrain_def Let_def split: prod.split)
  next
    case False
    then obtain e where "requireCapability s CapabilityGracefulClose ''graceful close'' = Some e"
      using unauth_capability [OF assms] by blast
    with False assms show ?thesis by (simp add: op_try_def requireDrain_def)
  qed
qed

lemma unauth_accept: "unauthenticated s \<Longrightarrow> authAccepted (snd (AcceptAuth env result s)) \<or> unauthenticated (snd (AcceptAuth env result s))"
proof -
  assume s: "unauthenticated s"
  have "authAccepted (snd (emitEvent ((newEvent EventAuthAccepted m)\<lparr>peFrameType := t\<rparr>) s'))" for m t s'
    by (simp add: authAccepted_def emitEvent_def newEvent_def)
  with s show ?thesis
    unfolding AcceptAuth_def by (auto simp: with_result_def ret_def op_try_def Let_def split: sum.split prod.split option.split)
      (metis snd_conv unauth_fields(2) unauth_sent(1))
qed

lemma unauth_handleAuth:
  assumes "unauthenticated s"
  shows "authAccepted (snd (handleAuthFrame env frame s)) \<or> unauthenticated (snd (handleAuthFrame env frame s))"
proof -
  have p: "unauthenticated (setState SessionAuthPending s)" using assms by simp
  have "authAccepted (snd (HandleAuth env frame s')) \<or> unauthenticated (snd (HandleAuth env frame s'))" if "unauthenticated s'" for s'
    using that unauth_accept [OF that] unauth_rejectAndClose
    by (auto simp: HandleAuth_def Let_def unauth_rejectAndClose split: sum.split option.split authOutcome.split)
  moreover have "authAccepted (snd (HandleAuthAccept frame s)) \<or> unauthenticated (snd (HandleAuthAccept frame s))"
    using assms by (auto simp: HandleAuthAccept_def with_result_def ret_def authAccepted_def emitEvent_def newEvent_def Let_def split: sum.split)
  moreover have "unauthenticated (snd (HandleAuthReject frame s))"
    unfolding HandleAuthReject_def Let_def using assms by (intro unauth_ops) simp_all
  ultimately show ?thesis
    using p assms by (auto simp: handleAuthFrame_def Let_def)
qed

lemma unauth_ensure:
  assumes "unauthenticated s" "hFrameType (fHeader frame) \<notin> {FrameAuth, FrameAuthAccept, FrameAuthReject, FrameClose}"
  shows "\<exists>e. fst (EnsureAuthenticatedFor frame s) = Some e" "unauthenticated (snd (EnsureAuthenticatedFor frame s))"
  using assms by (auto simp: EnsureAuthenticatedFor_def unauthenticated_def op_seq_def ret_def emitEvent_def Let_def)

lemma unauth_frame:
  assumes "unauthenticated s"
  shows "authAccepted (snd (HandleFrame te now frame s)) \<or> unauthenticated (snd (HandleFrame te now frame s))"
proof -
  obtain r s1 where r: "checkRateLimit frame now s = (r, s1)" by force
  have s1: "unauthenticated s1"
    using r assms by (auto simp: checkRateLimit_def op_seq_def ret_def Let_def emitEvent_def unauthenticated_def split: if_splits)
  have refuse: "unauthenticated (snd (refuseFrame env code frame message e s1))" for env code message e
    unfolding refuseFrame_def using s1 by (intro unauth_ops) simp_all
  let ?t = "hFrameType (fHeader frame)"
  consider "r \<noteq> None" | "validateFrameEnvelope frame \<noteq> None" | "?t \<in> {FrameAuth, FrameAuthAccept, FrameAuthReject}"
    | "r = None" "validateFrameEnvelope frame = None" "?t = FrameClose"
    | "r = None" "validateFrameEnvelope frame = None" "?t \<notin> {FrameAuth, FrameAuthAccept, FrameAuthReject, FrameClose}" by blast
  then show ?thesis
  proof cases
    case 4
    have "EnsureAuthenticatedFor frame s1 = (None, s1)" "ensureIncomingState s1 FrameClose = None" "frameCapability frame = (0, [])"
      using 4 by (simp_all add: EnsureAuthenticatedFor_def ensureIncomingState_def stateAllows_def frameCapability_def Let_def)
    with 4 s1 show ?thesis
      by (simp add: HandleFrame_def r op_try_def checkCapability_def dispatchFrame_def unauth_handleClose Let_def split: prod.split)
  next
    case 5
    obtain e s2 where "EnsureAuthenticatedFor frame s1 = (Some e, s2)" "unauthenticated s2"
      using unauth_ensure [OF s1 5(3)] by (cases "EnsureAuthenticatedFor frame s1") auto
    with 5 show ?thesis by (simp add: HandleFrame_def r Let_def unauth_reject)
  qed (use s1 refuse unauth_handleAuth [OF s1] in \<open>auto simp: HandleFrame_def r Let_def split: option.split\<close>)
qed

lemma accepted_kept [simp]:
  "authAccepted s \<Longrightarrow> authAccepted (cleanupIncoming reason b s)"
  "authAccepted (failOutgoing e s) \<longleftrightarrow> authAccepted s"
  "authAccepted (closeWriter s) \<longleftrightarrow> authAccepted s"
  "authAccepted (setState st s) \<longleftrightarrow> authAccepted s"
  "authAccepted (snd (closeTransport env s)) \<longleftrightarrow> authAccepted s"
  by (auto simp: authAccepted_def cleanupIncoming_def failOutgoing_def closeWriter_def setState_def closeTransport_def Let_def)

lemma unauth_turn:
  assumes "unauthenticated s"
  shows "authAccepted (snd (runTurn te now r s)) \<or> unauthenticated (snd (runTurn te now r s))"
proof (cases r)
  case (ReadFrameResult frame)
  from unauth_frame [OF assms, of te now frame] show ?thesis
    using assms ReadFrameResult by (cases "HandleFrame te now frame s") (auto simp: runTurn_def Let_def split: option.split)
next
  case (ReadFailed kind err)
  have "unauthenticated (runFailed kind err s)"
    using assms by (auto simp: runFailed_def Let_def split: readKind.split)
  with assms ReadFailed show ?thesis by (simp add: runTurn_def)
qed

lemma unauth_authenticate: "unauthenticated s \<Longrightarrow> unauthenticated (snd (Authenticate env req s))"
  unfolding Authenticate_def by (auto simp: modify_def intro!: unauth_ops)

lemma unauth_hello: "unauthenticated s \<Longrightarrow> unauthenticated (snd (SendHello env role s))"
proof -
  assume s: "unauthenticated s"
  have "hFrameType (fHeader (NewFrame FrameHello 0 [])) \<notin> {FrameAuth, FrameAuthAccept, FrameAuthReject, FrameClose}"
    by (simp add: NewFrame_def)
  from unauth_ensure [OF s this] s show ?thesis
    by (cases "EnsureAuthenticatedFor (NewFrame FrameHello 0 []) s") (auto simp: SendHello_def op_try_def)
qed

lemma unauth_goAway: "unauthenticated s \<Longrightarrow> unauthenticated (snd (SendGoAway env goAway s))"
proof -
  assume s: "unauthenticated s"
  have "unauthenticated (snd (case sendAndWait env f (setState SessionClosing s) of (None, s) \<Rightarrow> (None, s) | (Some e, s) \<Rightarrow> (Some e, setState SessionFailed s)))" for f
    using unauth_sent(2) [of "setState SessionClosing s" env f] s
    by (cases "sendAndWait env f (setState SessionClosing s)") (auto split: option.split)
  moreover obtain e where "requireCapability s CapabilityGracefulClose ''graceful close'' = Some e"
    using unauth_capability [OF s] by blast
  ultimately show ?thesis
    using s by (auto simp: SendGoAway_def Let_def intro!: unauth_ops)
qed

lemma unauth_localClose: "unauthenticated s \<Longrightarrow> unauthenticated (snd (CloseWith env peerDone msg s))"
proof -
  assume s: "unauthenticated s"
  obtain e where e: "requireCapability s CapabilityGracefulClose ''graceful close'' = Some e"
    using unauth_capability [OF s] by blast
  define s1 where "s1 = failOutgoing (Some ErrSessionClosed) (cleanupIncoming ''local session closed'' False (s\<lparr>sState := SessionClosing\<rparr>))"
  have s1: "unauthenticated s1" using s by (simp add: s1_def)
  have sent: "unauthenticated (snd (with_result r (\<lambda>payload. sendAndWait env (f payload)) s1))" for r f
    using s1 by (intro unauth_ops) simp_all
  have tail: "unauthenticated (snd (case x of (err, s) \<Rightarrow> (case err of
       None \<Rightarrow> (CloseWaiting d, s)
     | Some e \<Rightarrow> if sPeerCloseSeen s \<and> peerDone = None
                 then (CloseDone None, snd (closeTransport env (setState SessionClosed (closeWriter s))))
                 else (CloseDone (Some e), setState SessionFailed s))))" if "unauthenticated (snd x)" for x d
    using that by (cases x) (auto split: option.split)
  show ?thesis
    using s by (auto simp: CloseWith_def Let_def e [simplified] beginLocalClose_def s1_def [symmetric] intro!: tail sent)
qed

lemma unauth_closing:
  "unauthenticated s \<Longrightarrow> unauthenticated (snd (closeFinish env draining dr timeout peerDone s))"
  "unauthenticated s \<Longrightarrow> unauthenticated (finishPeer env dr s)"
proof -
  assume s: "unauthenticated s"
  then show "unauthenticated (snd (closeFinish env draining dr timeout peerDone s))"
    by (auto simp: closeFinish_def closeEnd_def closeTransport_def Let_def split: option.split)
  have p: "unauthenticated (s\<lparr>sPeerClose := None\<rparr>)" using s by (simp add: unauthenticated_def)
  have sent: "unauthenticated s'" if "sendCloseAckAndWait env msg (s\<lparr>sPeerClose := None\<rparr>) = (x, s')" for msg x s'
    using unauth_sent(6) [OF p, of env msg] that by simp
  show "unauthenticated (finishPeer env dr s)"
    using s by (auto simp: finishPeer_def Let_def split: option.split prod.split dest!: sent)
qed

lemma unauth_background:
  "unauthenticated s \<Longrightarrow> unauthenticated (snd (heartbeatTick env now lr lw s))"
  "unauthenticated s \<Longrightarrow> unauthenticated (authTimeout env s)"
  "unauthenticated s \<Longrightarrow> unauthenticated (handleWriterFailure env e s)"
  "unauthenticated s \<Longrightarrow> unauthenticated (runHandlerJob env outcome s)"
proof -
  assume s: "unauthenticated s"
  then have "sState s \<noteq> SessionEstablished" "sHandlerJobs s = []" by (auto simp: unauthenticated_def)
  with s show "unauthenticated (snd (heartbeatTick env now lr lw s))" "unauthenticated (runHandlerJob env outcome s)"
    by (auto simp: heartbeatTick_def runHandlerJob_def Let_def)
  show "unauthenticated (authTimeout env s)"
    using s by (auto simp: authTimeout_def Let_def unauth_rejectAndClose)
  show "unauthenticated (handleWriterFailure env e s)"
    using s by (auto simp: handleWriterFailure_def Let_def)
qed

text \<open>Everything that can happen to such a session while no authentication has been accepted: frames of the
  peer, read errors, the timers, the goroutines, and calls of its own application.\<close>

inductive unaccepted_run :: "Session \<Rightarrow> bool" where
  created: "acRequired (scAuth config) \<Longrightarrow> unaccepted_run (NewSessionWithConfig hasTransport None config)"
| started: "unaccepted_run s \<Longrightarrow> unaccepted_run (s\<lparr>sRunning := True, sStarted := True\<rparr>)"
| turn: "unaccepted_run s \<Longrightarrow> \<not> authAccepted (snd (runTurn te now r s)) \<Longrightarrow> unaccepted_run (snd (runTurn te now r s))"
| authenticate: "unaccepted_run s \<Longrightarrow> unaccepted_run (snd (Authenticate env req s))"
| say_hello: "unaccepted_run s \<Longrightarrow> unaccepted_run (snd (SendHello env role s))"
| go_away: "unaccepted_run s \<Longrightarrow> unaccepted_run (snd (SendGoAway env goAway s))"
| closing: "unaccepted_run s \<Longrightarrow> unaccepted_run (snd (CloseWith env peerDone msg s))"
| closed: "unaccepted_run s \<Longrightarrow> unaccepted_run (snd (closeFinish env draining dr timeout peerDone s))"
| peer_closed: "unaccepted_run s \<Longrightarrow> unaccepted_run (finishPeer env dr s)"
| heartbeat: "unaccepted_run s \<Longrightarrow> unaccepted_run (snd (heartbeatTick env now lr lw s))"
| timer: "unaccepted_run s \<Longrightarrow> unaccepted_run (authTimeout env s)"
| writer: "unaccepted_run s \<Longrightarrow> unaccepted_run (handleWriterFailure env e s)"
| worker: "unaccepted_run s \<Longrightarrow> unaccepted_run (runHandlerJob env outcome s)"

lemma unauth_new: "acRequired (scAuth config) \<Longrightarrow> unauthenticated (NewSessionWithConfig hasTransport None config)"
  by (simp add: unauthenticated_def NewSessionWithConfig_def setState_def applyReceiveFrameLimit_def
      normalizeSessionConfig_def Let_def)

lemma unaccepted_run_inv: "unaccepted_run s \<Longrightarrow> unauthenticated s"
proof (induction rule: unaccepted_run.induct)
  case (turn s te now r)
  then show ?case using unauth_turn by blast
next
  case (started s)
  then show ?case by (simp add: unauthenticated_def)
qed (simp_all add: unauth_new unauth_authenticate unauth_hello unauth_goAway unauth_localClose unauth_closing unauth_background)



section \<open>A way around authentication\<close>

definition authServer :: SessionConfig where
  "authServer = DefaultServerConfig\<lparr>scAuth := (scAuth DefaultServerConfig)\<lparr>acRequired := True\<rparr>\<rparr>"

lemma authServer_normalized: "normalizeSessionConfig authServer = authServer"
  by (simp add: authServer_def DefaultServerConfig_def normalizeSessionConfig_def default_role_idem DefaultSessionConfig_def normalizeFlow_def
      normalizeHeartbeat_def normalizeFrameLimits_def normalizeChunk_def normalizeInline_def
      normalizeSendQueue_def Let_def orDefault_def orDefaultW_def capChunk_def AllCapabilities_def
      DefaultCapabilities_def maxHeartbeatWire_def RoleClient_def RoleServer_def)

definition drainRequest :: Frame where
  "drainRequest = headed FrameClose SchemaClose (closeBytes \<lparr>closeReasonCode = CloseNormal, closeFlags = CloseFlagDrain, closeDrainTimeoutMillis = 1000\<rparr>)
     PriorityCritical ChannelControl FlagControl 0"

definition textFrame :: "string \<Rightarrow> Frame" where
  "textFrame text' = headed FrameData SchemaTextMessage (textBytes text') PriorityNormal ChannelRealtime (FlagFirst OR FlagLast) 0"

text \<open>The first two frames of a session pass the rate limit.\<close>

lemma rate_two:
  assumes "rlWindowStart (sRate s) = None" "2 \<le> rlMaxFramesPerSecond (scRateLimit (sConfig s))"
    "2 ^ 24 \<le> unat (rlMaxBytesPerSecond (scRateLimit (sConfig s)))" "length (fPayload f1) < 2 ^ 22" "length (fPayload f2) < 2 ^ 22"
    "sRate s2 = countFrame f1 now (sRate s)" "sConfig s2 = sConfig s"
  shows "checkRateLimit f1 now s = (None, s\<lparr>sRate := countFrame f1 now (sRate s)\<rparr>)"
    "checkRateLimit f2 now s2 = (None, s2\<lparr>sRate := countFrame f2 now (sRate s2)\<rparr>)"
proof -
  have c1: "rlFrames (countFrame f1 now (sRate s)) = 1" "rlBytes (countFrame f1 now (sRate s)) = of_nat (40 + length (fPayload f1))"
    using assms(1) by (simp_all add: countFrame_def)
  have c2: "rlFrames (countFrame f2 now (sRate s2)) = 2" "rlBytes (countFrame f2 now (sRate s2)) = of_nat (80 + length (fPayload f1) + length (fPayload f2))"
    using assms(1) by (simp_all add: countFrame_def assms(6) Let_def)
  have u1: "unat (of_nat (40 + length (fPayload f1)) :: u64) = 40 + length (fPayload f1)"
    using assms(4) unfolding unat_of_nat by (simp add: take_bit_nat_eq_self)
  have u2: "unat (of_nat (80 + length (fPayload f1) + length (fPayload f2)) :: u64) = 80 + length (fPayload f1) + length (fPayload f2)"
    using assms(4,5) unfolding unat_of_nat by (simp add: take_bit_nat_eq_self)
  have "\<not> rlMaxBytesPerSecond (scRateLimit (sConfig s)) < rlBytes (countFrame f1 now (sRate s))"
    unfolding c1 word_less_nat_alt u1 using assms(3,4) by simp
  then show "checkRateLimit f1 now s = (None, s\<lparr>sRate := countFrame f1 now (sRate s)\<rparr>)"
    using assms(2) by (simp add: checkRateLimit_def Let_def c1(1))
  have "\<not> rlMaxBytesPerSecond (scRateLimit (sConfig s)) < rlBytes (countFrame f2 now (sRate s2))"
    unfolding c2 word_less_nat_alt u2 using assms(3,4,5) by simp
  then show "checkRateLimit f2 now s2 = (None, s2\<lparr>sRate := countFrame f2 now (sRate s2)\<rparr>)"
    using assms(2) by (simp add: checkRateLimit_def Let_def c2(1) assms(7))
qed

lemma drain_enters:
  assumes "checkRateLimit drainRequest now s = (None, s1)" "sState s = SessionNew" "\<not> sPeerCloseSeen s"
    "requireCapability s CapabilityGracefulClose ''graceful close'' = None"
  shows "HandleFrame te now drainRequest s = (None, s1\<lparr>sPeerCloseSeen := True, sState := SessionDraining,
    sPeerClose := Some (\<lparr>closeReasonCode = CloseNormal, closeFlags = CloseFlagDrain, closeDrainTimeoutMillis = 1000\<rparr>, True, False)\<rparr>)"
proof -
  let ?m = "\<lparr>closeReasonCode = CloseNormal, closeFlags = CloseFlagDrain, closeDrainTimeoutMillis = 1000\<rparr>"
  note s1 = checkRateLimit_passed [OF assms(1)]
  have f: "hFrameType (fHeader drainRequest) = FrameClose" "hSchemaID (fHeader drainRequest) = SchemaClose"
    "fPayload drainRequest = closeBytes ?m"
    by (simp_all add: drainRequest_def headed_def NewFrame_def Let_def)
  have d: "DecodeCloseMessage (fPayload drainRequest) = Inr ?m"
    by (simp add: DecodeCloseMessage_iff f closeWf_def closeFlagsInvalid_def)
  have "validateFrameEnvelope drainRequest = None"
    by (simp add: validateFrameEnvelope_def expectedSchema_def f closeBytes_def Let_def)
  moreover have "EnsureAuthenticatedFor drainRequest s1 = (None, s1)" "ensureIncomingState s1 FrameClose = None" "frameCapability drainRequest = (0, [])"
    by (simp_all add: EnsureAuthenticatedFor_def ensureIncomingState_def stateAllows_def frameCapability_def f Let_def)
  moreover have "handleIncomingClose env drainRequest s1 = (None, s1\<lparr>sPeerCloseSeen := True, sState := SessionDraining, sPeerClose := Some (?m, True, False)\<rparr>)" for env
    using assms(2-4)
    by (simp add: handleIncomingClose_def d with_result_def op_try_def requireDrain_def s1 beginPeerClose_def)
  ultimately show ?thesis
    using assms(1) f(1) by (simp add: HandleFrame_def op_try_def checkCapability_def dispatchFrame_def Let_def)
qed

lemma text_reaches_handler:
  assumes "checkRateLimit (textFrame t) now s = (None, s1)" "sState s = SessionDraining" "\<not> sRunning s"
    "length t < 2 ^ 20 - 4" "plMaxTextBytes (scPayload (sConfig s)) = 2 ^ 20" "envText (sendEnv te) = Some handler"
  shows "HandleFrame te now (textFrame t) s = (handler (textFrame t) t, s1\<lparr>sCalls := sCalls s @ [TextCall (textFrame t) t]\<rparr>)"
proof -
  note s1 = checkRateLimit_passed [OF assms(1)]
  have f: "hFrameType (fHeader (textFrame t)) = FrameData" "hSchemaID (fHeader (textFrame t)) = SchemaTextMessage"
    "fPayload (textFrame t) = textBytes t" "hTransferID (fHeader (textFrame t)) = 0"
    by (simp_all add: textFrame_def headed_def NewFrame_def Let_def)
  have l: "length (textBytes t) = 4 + length t" by (simp add: textBytes_def)
  then have d: "DecodeTextMessage (fPayload (textFrame t)) = Inr t"
    using assms(4) by (simp add: DecodeTextMessage_def f decodeString_iff)
  have "textBytes t \<noteq> []" using l by (cases "textBytes t") simp_all
  then have "validateFrameEnvelope (textFrame t) = None"
    by (simp add: validateFrameEnvelope_def expectedSchema_def f Let_def)
  moreover have "EnsureAuthenticatedFor (textFrame t) s1 = (None, s1)" "ensureIncomingState s1 FrameData = None" "frameCapability (textFrame t) = (0, [])"
    using assms(2) by (simp_all add: EnsureAuthenticatedFor_def ensureIncomingState_def stateAllows_def frameCapability_def f s1 Let_def)
  moreover have "handleIncomingData (sendEnv te) (textFrame t) s1 = (handler (textFrame t) t, s1\<lparr>sCalls := sCalls s @ [TextCall (textFrame t) t]\<rparr>)"
    using assms(3-6) l d by (simp add: handleIncomingData_def f s1 invokeApplicationHandler_def)
  ultimately show ?thesis
    using assms(1) f(1) by (simp add: HandleFrame_def op_try_def checkCapability_def dispatchFrame_def Let_def)
qed

abbreviation negotiatedServer :: "u64 \<Rightarrow> Session" where
  "negotiatedServer offered \<equiv> NewSessionWithConfig True (Some offered) authServer"

lemma negotiatedServer_fields:
  "sConfig (negotiatedServer offered) = authServer" "sState (negotiatedServer offered) = SessionNew"
  "\<not> sPeerCloseSeen (negotiatedServer offered)" "\<not> sRunning (negotiatedServer offered)"
  "sRate (negotiatedServer offered) = \<lparr>rlWindowStart = None, rlFrames = 0, rlBytes = 0\<rparr>"
  "sCalls (negotiatedServer offered) = []" "sEvents (negotiatedServer offered) = []"
  "sRemoteCaps (negotiatedServer offered) = offered AND DefaultCapabilities AND AllCapabilities"
  by (simp_all add: NewSessionWithConfig_def authServer_normalized Let_def setState_def applyReceiveFrameLimit_def)
    (simp_all add: authServer_def DefaultServerConfig_def DefaultSessionConfig_def)

text \<open>C36: A carrier that brings its own capabilities opens a way around required authentication: the
  first frame of a peer may be a close request that asks for draining. A draining session counts as
  authenticated, so the next frame, a text message, is handed to the application, although no authentication was
  accepted.\<close>

theorem negotiated_drain_bypasses_auth:
  assumes "offered AND CapabilityGracefulClose \<noteq> 0" "length t < 2 ^ 20 - 4" "envText (sendEnv te) = Some handler"
  shows "acRequired (scAuth (sConfig (negotiatedServer offered)))
    \<and> (let (e1, s1) = HandleFrame te now drainRequest (negotiatedServer offered);
           (e2, s2) = HandleFrame te now (textFrame t) s1
       in e1 = None \<and> e2 = handler (textFrame t) t \<and> sCalls s2 = [TextCall (textFrame t) t] \<and> \<not> authAccepted s2)"
proof -
  let ?s = "negotiatedServer offered"
  let ?p = "Some (\<lparr>closeReasonCode = CloseNormal, closeFlags = CloseFlagDrain, closeDrainTimeoutMillis = 1000\<rparr>, True, False)"
  define s1 where "s1 = ?s\<lparr>sRate := countFrame drainRequest now (sRate ?s)\<rparr>"
  define s2 where "s2 = s1\<lparr>sPeerCloseSeen := True, sState := SessionDraining, sPeerClose := ?p\<rparr>"
  have cfg: "2 \<le> rlMaxFramesPerSecond (scRateLimit authServer)" "2 ^ 24 \<le> unat (rlMaxBytesPerSecond (scRateLimit authServer))"
    "plMaxTextBytes (scPayload authServer) = 2 ^ 20" "scCapabilities authServer AND CapabilityGracefulClose \<noteq> 0" "acRequired (scAuth authServer)"
    by (simp_all add: authServer_def DefaultServerConfig_def DefaultSessionConfig_def AllCapabilities_def DefaultCapabilities_def)
  have len: "length (fPayload drainRequest) < 2 ^ 22" "length (fPayload (textFrame t)) < 2 ^ 22"
    using assms(2) by (simp_all add: drainRequest_def textFrame_def headed_def NewFrame_def closeBytes_def textBytes_def Let_def)
  have "rlWindowStart (sRate ?s) = None" "sRate s2 = countFrame drainRequest now (sRate ?s)" "sConfig s2 = sConfig ?s"
    by (simp_all add: negotiatedServer_fields s1_def s2_def)
  note rate = rate_two [OF this(1) _ _ len this(2,3)]
  have r1: "checkRateLimit drainRequest now ?s = (None, s1)"
    and r2: "checkRateLimit (textFrame t) now s2 = (None, s2\<lparr>sRate := countFrame (textFrame t) now (sRate s2)\<rparr>)"
    unfolding s1_def by (rule rate; simp only: negotiatedServer_fields cfg)+
  have "offered AND DefaultCapabilities AND AllCapabilities AND CapabilityGracefulClose \<noteq> 0"
    using assms(1) by (simp add: AllCapabilities_def DefaultCapabilities_def and.assoc)
  then have cap: "requireCapability ?s CapabilityGracefulClose ''graceful close'' = None"
    using cfg(4) by (simp add: requireCapability_def requireRemoteCapability_def RemoteSupports_def negotiatedServer_fields and.assoc)
  have h1: "HandleFrame te now drainRequest ?s = (None, s2)"
    unfolding s2_def by (rule drain_enters [OF r1 _ _ cap]) (simp_all add: negotiatedServer_fields)
  have "sState s2 = SessionDraining" "\<not> sRunning s2" "sCalls s2 = []" "sEvents s2 = []" "sConfig s2 = authServer"
    by (simp_all add: s2_def s1_def negotiatedServer_fields)
  with text_reaches_handler [OF r2 _ _ assms(2) _ assms(3)] cfg show ?thesis
    by (simp add: h1 negotiatedServer_fields authAccepted_def)
qed

theorem negotiated_drain_bypasses_auth_witness:
  defines "te \<equiv> quietTransfers\<lparr>envText := Some (\<lambda>_ _. None)\<rparr>"
  shows "sCalls (snd (HandleFrame te 5 (textFrame ''hi'') (snd (HandleFrame te 5 drainRequest (negotiatedServer 0xFFF))))) = [TextCall (textFrame ''hi'') ''hi'']"
  using negotiated_drain_bypasses_auth [of "0xFFF" "''hi''" te "\<lambda>_ _. None" 5]
  by (simp add: te_def SessionEnv.defs Let_def split: prod.splits)

end
