(* ===== verification/Etp_Stream.thy ===== *)
theory Etp_Stream
  imports Etp_Lease
begin

text \<open>
  The stream transport of \<open>transport.go\<close>: frames with a four-byte length over a byte stream, with the
  deadlines that bound what a slow peer can do. The stream itself is a connection with the documented behaviour of
  Go's network connections. The mutexes make concurrent calls of one direction a sequence, and the two
  directions touch different parts of the connection.
\<close>

section \<open>A connection\<close>

text \<open>The errors a stream or a stream transport returns. \<open>Timeout\<close> is a \<open>net.Error\<close> whose \<open>Timeout()\<close> is
  true; \<open>OtherError\<close> holds every other error of the connection and the plain errors of the package.\<close>

datatype streamError =
    Timeout | EOF | UnexpectedEOF | ErrShortWrite | OtherError go_error
  | ErrSlowloris string | ErrInvalidFrame string "int list"

text \<open>
  The carrier behind the interface \<open>DeadlineStream\<close>, with the documented behaviour of a network connection: the
  peer's bytes arrive in segments, each at a time in nanoseconds, after the last of which the stream ends with an
  error at some time or stays silent. A read returns what has arrived, at most as much as the buffer takes, waits
  for the next arrival otherwise, and fails with a timeout once the read deadline has passed. A write
  accepts a number of bytes and may fail; \<open>cnWrites\<close> lists what the next calls of \<open>Write\<close> do, and a
  call beyond it accepts everything.
\<close>

record Conn =
  cnNow :: int
  cnReadDeadline :: "int option"
  cnWriteDeadline :: "int option"
  cnIn :: "(int \<times> bytes) list"
  cnEnd :: "(int \<times> streamError) option"
  cnDeadlineErr :: "streamError option"
  cnWrites :: "(nat \<times> streamError option) list"
  cnOut :: bytes
  cnCloses :: nat

text \<open>\<open>conn.Read\<close> with a buffer of \<open>k\<close> bytes; \<open>None\<close> when it blocks for ever.\<close>

definition arrival :: "Conn \<Rightarrow> int option" where
  "arrival c = (case cnIn c of (at, b) # rest \<Rightarrow> Some at | [] \<Rightarrow> map_option fst (cnEnd c))"

definition delivered :: "nat \<Rightarrow> int \<Rightarrow> Conn \<Rightarrow> (bytes \<times> streamError option) \<times> Conn" where
  "delivered k at c =
     (let c = c\<lparr>cnNow := max (cnNow c) at\<rparr>
      in case cnIn c of
           [] \<Rightarrow> (([], map_option snd (cnEnd c)), c)
         | (t, b) # rest \<Rightarrow>
             if length b \<le> k then ((b, None), c\<lparr>cnIn := rest\<rparr>)
             else ((take k b, None), c\<lparr>cnIn := (t, drop k b) # rest\<rparr>))"

definition connRead :: "nat \<Rightarrow> Conn \<Rightarrow> ((bytes \<times> streamError option) \<times> Conn) option" where
  "connRead k c =
     (case (arrival c, cnReadDeadline c) of
        (None, None) \<Rightarrow> None
      | (None, Some d) \<Rightarrow> Some (([], Some Timeout), c\<lparr>cnNow := max (cnNow c) d\<rparr>)
      | (Some at, None) \<Rightarrow> Some (delivered k at c)
      | (Some at, Some d) \<Rightarrow>
          if d \<le> max (cnNow c) at then Some (([], Some Timeout), c\<lparr>cnNow := max (cnNow c) d\<rparr>)
          else Some (delivered k at c))"

text \<open>\<open>io.ReadFull\<close>: reads until the buffer of \<open>k\<close> bytes is full or a read fails; an end of file after some
  bytes is unexpected.\<close>

definition readEnd :: "bytes \<Rightarrow> streamError \<Rightarrow> streamError" where
  "readEnd acc e = (if acc \<noteq> [] \<and> e = EOF then UnexpectedEOF else e)"

lemma connRead_shrinks:
  assumes "connRead k c = Some ((b, None), c')" "0 < k"
  shows "length b \<le> k" "(length (cnIn c'), k - length b) \<in> {(x, y). x \<le> length (cnIn c) \<and> y \<le> k \<and> (x < length (cnIn c) \<or> y < k)}"
  using assms
  by (auto simp: connRead_def delivered_def arrival_def Let_def split: option.splits if_splits list.splits prod.splits)

function readFull :: "nat \<Rightarrow> bytes \<Rightarrow> Conn \<Rightarrow> ((streamError + bytes) \<times> Conn) option" where
  "readFull k acc c =
     (if k \<le> length acc then Some (Inr acc, c)
      else case connRead (k - length acc) c of
             None \<Rightarrow> None
           | Some ((b, Some e), c') \<Rightarrow> Some (Inl (readEnd (acc @ b) e), c')
           | Some ((b, None), c') \<Rightarrow> readFull k (acc @ b) c')"
  by pat_completeness auto
termination
  by (relation "measure (\<lambda>(k, acc, c). (k - length acc) + length (cnIn c))") (auto dest: connRead_shrinks)

declare readFull.simps [simp del]

definition connSetReadDeadline :: "int option \<Rightarrow> Conn \<Rightarrow> streamError option \<times> Conn" where
  "connSetReadDeadline d c = (case cnDeadlineErr c of Some e \<Rightarrow> (Some e, c) | None \<Rightarrow> (None, c\<lparr>cnReadDeadline := d\<rparr>))"

definition connSetWriteDeadline :: "int option \<Rightarrow> Conn \<Rightarrow> streamError option \<times> Conn" where
  "connSetWriteDeadline d c = (case cnDeadlineErr c of Some e \<Rightarrow> (Some e, c) | None \<Rightarrow> (None, c\<lparr>cnWriteDeadline := d\<rparr>))"

definition connWrite :: "bytes \<Rightarrow> Conn \<Rightarrow> (nat \<times> streamError option) \<times> Conn" where
  "connWrite data c =
     (case cnWrites c of
        [] \<Rightarrow> ((length data, None), c\<lparr>cnOut := cnOut c @ data\<rparr>)
      | (n, e) # rest \<Rightarrow>
          let n = min n (length data) in ((n, e), c\<lparr>cnWrites := rest, cnOut := cnOut c @ take n data\<rparr>))"

definition connClose :: "Conn \<Rightarrow> Conn" where
  "connClose c = c\<lparr>cnCloses := cnCloses c + 1\<rparr>"

section \<open>The stream transport\<close>

text \<open>\<open>writeFull\<close>: a write that makes no progress ends it with a short write.\<close>

function writeFull :: "bytes \<Rightarrow> Conn \<Rightarrow> streamError option \<times> Conn" where
  "writeFull data c =
     (if data = [] then (None, c)
      else case connWrite data c of
             ((n, Some e), c') \<Rightarrow> (Some e, c')
           | ((n, None), c') \<Rightarrow> if n = 0 then (Some ErrShortWrite, c') else writeFull (drop n data) c')"
  by pat_completeness auto
termination
  by (relation "measure (\<lambda>(data, c). length data)") auto

declare writeFull.simps [simp del]

record SlowlorisConfig =
  slLengthTimeout :: int
  slFrameGrace :: int
  slMinReadRate :: int
  slMaxFrameBytes :: u32
  slDisableDeadlines :: bool

definition DefaultSlowlorisConfig :: SlowlorisConfig where
  "DefaultSlowlorisConfig = \<lparr>slLengthTimeout = 2 * 10 ^ 9, slFrameGrace = 2 * 10 ^ 9, slMinReadRate = 8 * 1024,
     slMaxFrameBytes = of_nat MaxFrameBytes, slDisableDeadlines = False\<rparr>"

record StreamTransport =
  stConn :: Conn
  stGuard :: SlowlorisConfig
  stMaxFrame :: u32
  stDeadlines :: bool

definition clampMaxFrame :: "u32 \<Rightarrow> u32" where
  "clampMaxFrame m = (if m = 0 \<or> m > of_nat MaxFrameBytes then of_nat MaxFrameBytes else m)"

definition NewStreamTransportForStream :: "Conn \<Rightarrow> SlowlorisConfig \<Rightarrow> StreamTransport" where
  "NewStreamTransportForStream conn guard =
     (let guard = (if slLengthTimeout guard \<le> 0 then guard\<lparr>slLengthTimeout := 2 * 10 ^ 9\<rparr> else guard);
          guard = (if slFrameGrace guard \<le> 0 then guard\<lparr>slFrameGrace := 2 * 10 ^ 9\<rparr> else guard);
          guard = (if slMinReadRate guard \<le> 0 then guard\<lparr>slMinReadRate := 8 * 1024\<rparr> else guard);
          guard = guard\<lparr>slMaxFrameBytes := clampMaxFrame (slMaxFrameBytes guard)\<rparr>
      in \<lparr>stConn = conn, stGuard = guard, stMaxFrame = slMaxFrameBytes guard, stDeadlines = (\<not> slDisableDeadlines guard)\<rparr>)"

definition NewStreamTransportWithSlowlorisGuard :: "Conn \<Rightarrow> SlowlorisConfig \<Rightarrow> StreamTransport" where
  "NewStreamTransportWithSlowlorisGuard conn guard = NewStreamTransportForStream conn guard"

definition NewStreamTransport :: "Conn \<Rightarrow> StreamTransport" where
  "NewStreamTransport conn = NewStreamTransportWithSlowlorisGuard conn DefaultSlowlorisConfig"

definition SendFrame :: "bytes \<Rightarrow> StreamTransport \<Rightarrow> streamError option \<times> StreamTransport" where
  "SendFrame frame t =
     (if length frame > MaxFrameBytes then (Some (OtherError (Err ''frame exceeds max size'')), t)
      else case writeFull (be32 (of_nat (length frame))) (stConn t) of
             (Some e, c) \<Rightarrow> (Some e, t\<lparr>stConn := c\<rparr>)
           | (None, c) \<Rightarrow> (case writeFull frame c of (e, c) \<Rightarrow> (e, t\<lparr>stConn := c\<rparr>)))"

definition SetMaxFrameBytes :: "u32 \<Rightarrow> StreamTransport \<Rightarrow> StreamTransport" where
  "SetMaxFrameBytes m t = t\<lparr>stMaxFrame := clampMaxFrame m\<rparr>"

definition SetWriteDeadline :: "int option \<Rightarrow> StreamTransport \<Rightarrow> streamError option \<times> StreamTransport" where
  "SetWriteDeadline d t =
     (if \<not> stDeadlines t then (None, t)
      else case connSetWriteDeadline d (stConn t) of (e, c) \<Rightarrow> (e, t\<lparr>stConn := c\<rparr>))"

definition CloseStream :: "StreamTransport \<Rightarrow> StreamTransport" where
  "CloseStream t = t\<lparr>stConn := connClose (stConn t)\<rparr>"

definition frameReadBudget :: "SlowlorisConfig \<Rightarrow> u32 \<Rightarrow> int" where
  "frameReadBudget guard n = slFrameGrace guard + (uint n * 10 ^ 9) div slMinReadRate guard"

definition setReadDeadline :: "int \<Rightarrow> StreamTransport \<Rightarrow> streamError option \<times> StreamTransport" where
  "setReadDeadline after t =
     (if \<not> stDeadlines t then (None, t)
      else case connSetReadDeadline (Some (cnNow (stConn t) + after)) (stConn t) of (e, c) \<Rightarrow> (e, t\<lparr>stConn := c\<rparr>))"

definition clearReadDeadline :: "StreamTransport \<Rightarrow> streamError option \<times> StreamTransport" where
  "clearReadDeadline t =
     (if \<not> stDeadlines t then (None, t)
      else case connSetReadDeadline None (stConn t) of (e, c) \<Rightarrow> (e, t\<lparr>stConn := c\<rparr>))"

definition classifyReadError :: "string \<Rightarrow> streamError \<Rightarrow> streamError" where
  "classifyReadError op' err = (if err = Timeout then ErrSlowloris (op' @ '' timeout'') else err)"

text \<open>Operations that may block for ever return \<open>None\<close>; \<open>io_try\<close> is the test of the error after a call.\<close>

type_synonym 'a blocking = "((streamError + 'a) \<times> StreamTransport) option"

definition io_try :: "'a blocking \<Rightarrow> ('a \<Rightarrow> StreamTransport \<Rightarrow> 'b blocking) \<Rightarrow> 'b blocking" where
  "io_try m f = (case m of None \<Rightarrow> None | Some (Inl e, t) \<Rightarrow> Some (Inl e, t) | Some (Inr x, t) \<Rightarrow> f x t)"

definition io_err :: "streamError option \<times> StreamTransport \<Rightarrow> unit blocking" where
  "io_err r = (case r of (Some e, t) \<Rightarrow> Some (Inl e, t) | (None, t) \<Rightarrow> Some (Inr (), t))"

definition io_classify :: "string \<Rightarrow> 'a blocking \<Rightarrow> 'a blocking" where
  "io_classify op' m = (case m of Some (Inl e, t) \<Rightarrow> Some (Inl (classifyReadError op' e), t) | r \<Rightarrow> r)"

definition readExactly :: "nat \<Rightarrow> StreamTransport \<Rightarrow> bytes blocking" where
  "readExactly k t = map_option (\<lambda>(r, c). (r, t\<lparr>stConn := c\<rparr>)) (readFull k [] (stConn t))"

definition readFrameLength :: "StreamTransport \<Rightarrow> bytes blocking" where
  "readFrameLength t =
     io_try (io_err (clearReadDeadline t)) (\<lambda>_ t.
       io_try (readExactly 1 t) (\<lambda>first t.
         io_try (io_err (setReadDeadline (slLengthTimeout (stGuard t)) t)) (\<lambda>_ t.
           io_try (readExactly 3 t) (\<lambda>rest t. Some (Inr (first @ rest), t)))))"

text \<open>The length check and the deadline that \<open>ReadFrameInto\<close> and \<open>readFrameBuffer\<close> share.\<close>

definition checkFrameLength :: "u32 \<Rightarrow> StreamTransport \<Rightarrow> unit blocking" where
  "checkFrameLength n t =
     (if n < of_nat HeaderSize then Some (Inl (ErrInvalidFrame ''incoming frame is smaller than header'' [uint n]), t)
      else if n > stMaxFrame t
      then Some (Inl (ErrInvalidFrame ''incoming frame exceeds max size'' [uint n, uint (stMaxFrame t)]), t)
      else io_err (setReadDeadline (frameReadBudget (stGuard t) n) t))"

definition ReadFrameInto :: "bytes \<Rightarrow> StreamTransport \<Rightarrow> bytes blocking" where
  "ReadFrameInto dst t =
     io_try (io_classify ''read frame length'' (readFrameLength t)) (\<lambda>readLen t.
       let n = rd32 readLen in
       io_try (checkFrameLength n t) (\<lambda>_ t.
         let dst = grow dst (unat n) in
         io_try (io_classify ''read frame body'' (readExactly (length dst) t)) (\<lambda>got t.
           Some (Inr (got @ drop (length got) dst), snd (clearReadDeadline t)))))"

definition ReadFrame :: "StreamTransport \<Rightarrow> bytes blocking" where
  "ReadFrame t = ReadFrameInto [] t"

text \<open>\<open>readFrameBuffer\<close> reads into a pooled buffer, and puts it back when the body cannot be read; the put
  buffers are returned beside the result.\<close>

definition readFrameBuffer :: "Buffer option \<Rightarrow> StreamTransport \<Rightarrow> Buffer blocking \<times> Buffer option" where
  "readFrameBuffer pooled t =
     (case io_classify ''read frame length'' (readFrameLength t) of
        None \<Rightarrow> (None, None)
      | Some (Inl e, t) \<Rightarrow> (Some (Inl e, t), None)
      | Some (Inr readLen, t) \<Rightarrow>
          let n = rd32 readLen in
          (case checkFrameLength n t of
             None \<Rightarrow> (None, None)
           | Some (Inl e, t) \<Rightarrow> (Some (Inl e, t), None)
           | Some (Inr _, t) \<Rightarrow>
               let b = (getFrameBuffer (unat n) pooled)\<lparr>bufLen := unat n\<rparr> in
               (case io_classify ''read frame body'' (readExactly (length (bufData b)) t) of
                  None \<Rightarrow> (None, None)
                | Some (Inl e, t) \<Rightarrow> (Some (Inl e, t), putFrameBuffer (Some b))
                | Some (Inr got, t) \<Rightarrow>
                    (Some (Inr (b\<lparr>bufArray := got @ drop (length got) (bufArray b)\<rparr>), snd (clearReadDeadline t)), None))))"

definition ReadFrameLease :: "Buffer option \<Rightarrow> StreamTransport \<Rightarrow> FrameLease blocking" where
  "ReadFrameLease pooled t = io_try (fst (readFrameBuffer pooled t)) (\<lambda>b t. Some (Inr (newPooledFrameLease b), t))"

section \<open>Frames over a transport\<close>

text \<open>\<open>Send\<close> encodes into a pooled buffer of the frame's size, and \<open>Read\<close> of a transport that leases its buffers
  keeps the lease in the frame, under the address the allocator gave it, or releases it when the frame is
  malformed. The stream transport is such a transport.\<close>

definition Send :: "Buffer option \<Rightarrow> Frame \<Rightarrow> StreamTransport \<Rightarrow> streamError option \<times> StreamTransport" where
  "Send pooled frame t =
     (if length (fPayload frame) > MaxFrameBytes - HeaderSize then (Some (OtherError (Err ''frame exceeds max size'')), t)
      else case EncodeFrameInto (bufArray (getFrameBuffer (EncodedFrameSize frame) pooled)) frame of
             Inl e \<Rightarrow> (Some (OtherError e), t)
           | Inr data \<Rightarrow> SendFrame data t)"

definition Read :: "Buffer option \<Rightarrow> nat \<Rightarrow> StreamTransport \<Rightarrow> (Frame \<times> FrameLease) blocking" where
  "Read pooled addr t =
     io_try (ReadFrameLease pooled t) (\<lambda>lease t.
       case decodeFrameView (flData lease) (Some addr) of
         Inl e \<Rightarrow> (case Release (Some lease) of
                     Inl p \<Rightarrow> Some (Inl (OtherError p), t)
                   | Inr _ \<Rightarrow> Some (Inl (case e of Err m \<Rightarrow> ErrInvalidFrame m [] | Errf m ns \<Rightarrow> ErrInvalidFrame m ns
                                              | GoPanic \<Rightarrow> OtherError GoPanic), t))
       | Inr frame \<Rightarrow> Some (Inr (frame, lease), t))"

section \<open>Reading what was sent\<close>

text \<open>The bytes under way, and the wait they cause: nothing hurries when there are no deadlines or
  everything has arrived.\<close>

definition inBytes :: "Conn \<Rightarrow> bytes" where
  "inBytes c = concat (map snd (cnIn c))"

definition unhurried :: "Conn \<Rightarrow> bool" where
  "unhurried c \<longleftrightarrow> (case cnReadDeadline c of None \<Rightarrow> True | Some d \<Rightarrow> cnNow c < d \<and> (\<forall>(at, b) \<in> set (cnIn c). at \<le> cnNow c))"

lemma connRead_unhurried:
  assumes "unhurried c" "cnIn c = (at, b) # rest" "0 < k"
  shows "\<exists>n. connRead k c = Some ((take k b, None), c\<lparr>cnNow := n, cnIn := (if length b \<le> k then rest else (at, drop k b) # rest)\<rparr>)
     \<and> cnNow c \<le> n \<and> (cnReadDeadline c \<noteq> None \<longrightarrow> n = cnNow c)"
  using assms
  by (auto simp: unhurried_def connRead_def arrival_def delivered_def Let_def intro!: exI [of _ "max (cnNow c) at"] split: option.splits)

text \<open>Reading \<open>k\<close> of the bytes that are coming takes exactly the next \<open>k\<close>, however they are cut into segments.\<close>

lemma readFull_unhurried:
  assumes "unhurried c" "k \<le> length acc + length (inBytes c)" "length acc \<le> k"
  shows "\<exists>n xs. readFull k acc c = Some (Inr (acc @ take (k - length acc) (inBytes c)), c\<lparr>cnNow := n, cnIn := xs\<rparr>)
    \<and> concat (map snd xs) = drop (k - length acc) (inBytes c) \<and> cnNow c \<le> n \<and> fst ` set xs \<subseteq> fst ` set (cnIn c)
    \<and> (cnReadDeadline c \<noteq> None \<longrightarrow> n = cnNow c)"
  using assms
proof (induction k acc c rule: readFull.induct)
  case (1 k acc c)
  show ?case
  proof (cases "k \<le> length acc")
    case True
    then show ?thesis using 1 by (auto simp: readFull.simps [of _ acc c] inBytes_def intro!: exI [of _ "cnNow c"] exI [of _ "cnIn c"])
  next
    case False
    then obtain at b rest where in': "cnIn c = (at, b) # rest"
      using "1.prems" by (cases "cnIn c") (auto simp: inBytes_def)
    define m where "m = k - length acc"
    have m: "0 < m" using False by (simp add: m_def)
    define in2 where "in2 = (if length b \<le> m then rest else (at, drop m b) # rest)"
    obtain n where r: "connRead m c = Some ((take m b, None), c\<lparr>cnNow := n, cnIn := in2\<rparr>)" "cnNow c \<le> n" "cnReadDeadline c \<noteq> None \<longrightarrow> n = cnNow c"
      using connRead_unhurried [OF "1.prems"(1) in' m] unfolding in2_def by blast
    let ?c = "c\<lparr>cnNow := n, cnIn := in2\<rparr>"
    have i: "inBytes c = take m b @ inBytes ?c" "fst ` set in2 \<subseteq> fst ` set (cnIn c)"
      by (auto simp: inBytes_def in2_def in')
    have u: "unhurried ?c"
      using "1.prems"(1) r(2,3) i(2) by (auto simp: unhurried_def in' in2_def split: option.splits if_splits)
    have l: "k \<le> length (acc @ take m b) + length (inBytes ?c)" "length (acc @ take m b) \<le> k"
      using "1.prems"(2) False i(1) by (simp_all add: m_def)
    obtain n' xs where ih: "readFull k (acc @ take m b) ?c = Some (Inr ((acc @ take m b) @ take (k - length (acc @ take m b)) (inBytes ?c)), ?c\<lparr>cnNow := n', cnIn := xs\<rparr>)"
      "concat (map snd xs) = drop (k - length (acc @ take m b)) (inBytes ?c)" "n \<le> n'" "fst ` set xs \<subseteq> fst ` set in2"
      "cnReadDeadline c \<noteq> None \<longrightarrow> n' = n"
      using "1.IH" [OF False r(1) [unfolded m_def] refl refl refl] u l by (auto simp: m_def)
    have t: "take m b @ take (k - length (acc @ take m b)) (inBytes ?c) = take m (inBytes c)"
      "drop (k - length (acc @ take m b)) (inBytes ?c) = drop m (inBytes c)"
      unfolding i(1) by (auto simp: m_def)
    have "readFull k acc c = readFull k (acc @ take m b) ?c"
      using False r(1) by (simp add: readFull.simps [of k acc] m_def)
    then have "readFull k acc c = Some (Inr (acc @ take m (inBytes c)), c\<lparr>cnNow := n', cnIn := xs\<rparr>)"
      using ih(1) t(1) by simp
    moreover have "cnNow c \<le> n'" using ih(3) r(2) by linarith
    moreover have "fst ` set xs \<subseteq> fst ` set (cnIn c)" by (rule order_trans [OF ih(4) i(2)])
    moreover have "cnReadDeadline c \<noteq> None \<longrightarrow> n' = cnNow c" using ih(5) r(3) by metis
    ultimately show ?thesis
      using ih(2) t(2) unfolding m_def [symmetric] by (intro exI [of _ n'] exI [of _ xs]) simp
  qed
qed

definition guardOk :: "SlowlorisConfig \<Rightarrow> bool" where
  "guardOk g \<longleftrightarrow> 0 < slLengthTimeout g \<and> 0 < slFrameGrace g \<and> 0 < slMinReadRate g"

definition calm :: "StreamTransport \<Rightarrow> bool" where
  "calm t \<longleftrightarrow> cnDeadlineErr (stConn t) = None \<and> guardOk (stGuard t)
     \<and> (if stDeadlines t then \<forall>(at, b) \<in> set (cnIn (stConn t)). at \<le> cnNow (stConn t) else cnReadDeadline (stConn t) = None)"

lemma NewStreamTransport_guard [simp]: "guardOk (stGuard (NewStreamTransportForStream conn guard))"
  by (simp add: NewStreamTransportForStream_def guardOk_def Let_def)

lemma calm_clear:
  assumes "calm t"
  shows "\<exists>c. clearReadDeadline t = (None, t\<lparr>stConn := c\<rparr>) \<and> calm (t\<lparr>stConn := c\<rparr>) \<and> unhurried c \<and> inBytes c = inBytes (stConn t)"
proof (cases "stDeadlines t")
  case True
  then show ?thesis
    using assms by (intro exI [of _ "(stConn t)\<lparr>cnReadDeadline := None\<rparr>"])
      (auto simp: calm_def clearReadDeadline_def connSetReadDeadline_def unhurried_def inBytes_def)
next
  case False
  then show ?thesis
    using assms by (intro exI [of _ "stConn t"]) (auto simp: calm_def clearReadDeadline_def unhurried_def)
qed

lemma calm_set:
  assumes "calm t" "0 < after"
  shows "\<exists>c. setReadDeadline after t = (None, t\<lparr>stConn := c\<rparr>) \<and> calm (t\<lparr>stConn := c\<rparr>) \<and> unhurried c \<and> inBytes c = inBytes (stConn t)"
proof (cases "stDeadlines t")
  case True
  then show ?thesis
    using assms by (intro exI [of _ "(stConn t)\<lparr>cnReadDeadline := Some (cnNow (stConn t) + after)\<rparr>"])
      (auto simp: calm_def setReadDeadline_def connSetReadDeadline_def unhurried_def inBytes_def)
next
  case False
  then show ?thesis
    using assms by (intro exI [of _ "stConn t"]) (auto simp: calm_def setReadDeadline_def unhurried_def)
qed

lemma calm_read:
  assumes "calm t" "unhurried (stConn t)" "k \<le> length (inBytes (stConn t))"
  shows "\<exists>c. readExactly k t = Some (Inr (take k (inBytes (stConn t))), t\<lparr>stConn := c\<rparr>) \<and> calm (t\<lparr>stConn := c\<rparr>)
    \<and> inBytes c = drop k (inBytes (stConn t))"
proof -
  obtain n xs where r: "readFull k [] (stConn t) = Some (Inr (take k (inBytes (stConn t))), (stConn t)\<lparr>cnNow := n, cnIn := xs\<rparr>)"
    "concat (map snd xs) = drop k (inBytes (stConn t))" "cnNow (stConn t) \<le> n" "fst ` set xs \<subseteq> fst ` set (cnIn (stConn t))"
    using readFull_unhurried [OF assms(2), of k "[]"] assms(3) by auto
  have "\<forall>(at, b) \<in> set xs. at \<le> n" if "\<forall>(at, b) \<in> set (cnIn (stConn t)). at \<le> cnNow (stConn t)"
    using that r(3,4) by fastforce
  with r assms(1) show ?thesis
    by (intro exI [of _ "(stConn t)\<lparr>cnNow := n, cnIn := xs\<rparr>"]) (auto simp: readExactly_def calm_def inBytes_def)
qed

lemma io_simps [simp]:
  "io_try (Some (Inr x, t)) f = f x t" "io_try (Some (Inl e, t)) f = Some (Inl e, t)" "io_try None f = None"
  "io_err (None, t) = Some (Inr (), t)" "io_err (Some e, t) = Some (Inl e, t)"
  "io_classify op' (Some (Inr x, t)) = Some (Inr x, t)" "io_classify op' None = None"
  "io_classify op' (Some (Inl e, t)) = Some (Inl (classifyReadError op' e), t)"
  by (simp_all add: io_try_def io_err_def io_classify_def)

lemma readFrameLength_calm:
  assumes "calm t" "4 \<le> length (inBytes (stConn t))"
  shows "\<exists>c. readFrameLength t = Some (Inr (take 4 (inBytes (stConn t))), t\<lparr>stConn := c\<rparr>) \<and> calm (t\<lparr>stConn := c\<rparr>)
    \<and> inBytes c = drop 4 (inBytes (stConn t))"
proof -
  let ?i = "inBytes (stConn t)"
  from calm_clear [OF assms(1)] obtain c1 where c1: "clearReadDeadline t = (None, t\<lparr>stConn := c1\<rparr>)" "calm (t\<lparr>stConn := c1\<rparr>)" "unhurried c1" "inBytes c1 = ?i"
    by blast
  from calm_read [OF c1(2), of 1] c1 assms(2) obtain c2 where c2: "readExactly 1 (t\<lparr>stConn := c1\<rparr>) = Some (Inr (take 1 ?i), t\<lparr>stConn := c2\<rparr>)"
    "calm (t\<lparr>stConn := c2\<rparr>)" "inBytes c2 = drop 1 ?i" by auto
  have "0 < slLengthTimeout (stGuard (t\<lparr>stConn := c2\<rparr>))" using c2(2) by (simp add: calm_def guardOk_def)
  from calm_set [OF c2(2) this] obtain c3 where c3: "setReadDeadline (slLengthTimeout (stGuard t)) (t\<lparr>stConn := c2\<rparr>) = (None, t\<lparr>stConn := c3\<rparr>)"
    "calm (t\<lparr>stConn := c3\<rparr>)" "unhurried c3" "inBytes c3 = drop 1 ?i" using c2(3) by auto
  have "3 \<le> length (drop 1 ?i)" using assms(2) by simp
  with calm_read [OF c3(2), of 3] c3(3,4) obtain c4 where c4: "readExactly 3 (t\<lparr>stConn := c3\<rparr>) = Some (Inr (take 3 (drop 1 ?i)), t\<lparr>stConn := c4\<rparr>)"
    "calm (t\<lparr>stConn := c4\<rparr>)" "inBytes c4 = drop 4 ?i" by auto
  have "take 1 ?i @ take 3 (drop 1 ?i) = take 4 ?i"
    using take_add [of 1 3 ?i] by (simp add: numeral_eq_Suc)
  with c1 c2 c3 c4 show ?thesis by (auto simp: readFrameLength_def)
qed

lemma checkFrameLength_calm:
  assumes "calm t" "40 \<le> unat n" "n \<le> stMaxFrame t"
  shows "\<exists>c. checkFrameLength n t = Some (Inr (), t\<lparr>stConn := c\<rparr>) \<and> calm (t\<lparr>stConn := c\<rparr>) \<and> unhurried c \<and> inBytes c = inBytes (stConn t)"
proof -
  have "0 < frameReadBudget (stGuard t) n"
    using assms(1) pos_imp_zdiv_nonneg_iff [of "slMinReadRate (stGuard t)" "uint n * 10 ^ 9"]
    by (simp add: frameReadBudget_def calm_def guardOk_def)
  from calm_set [OF assms(1) this] obtain c where "setReadDeadline (frameReadBudget (stGuard t) n) t = (None, t\<lparr>stConn := c\<rparr>)"
    "calm (t\<lparr>stConn := c\<rparr>)" "unhurried c" "inBytes c = inBytes (stConn t)" by blast
  moreover have "\<not> n < of_nat HeaderSize" "\<not> n > stMaxFrame t" using assms(2,3) by (simp_all add: word_less_nat_alt word_le_nat_alt)
  ultimately show ?thesis by (auto simp: checkFrameLength_def)
qed

lemma frame_read:
  assumes "calm t" "inBytes (stConn t) = be32 (of_nat (length body)) @ body @ rest" "40 \<le> length body" "length body \<le> unat (stMaxFrame t)"
  shows "\<exists>c. ReadFrameInto dst t = Some (Inr body, t\<lparr>stConn := c\<rparr>) \<and> calm (t\<lparr>stConn := c\<rparr>) \<and> inBytes c = rest"
    "\<exists>c b. readFrameBuffer pooled t = (Some (Inr b, t\<lparr>stConn := c\<rparr>), None) \<and> bufData b = body \<and> calm (t\<lparr>stConn := c\<rparr>) \<and> inBytes c = rest"
proof -
  let ?n = "of_nat (length body) :: u32"
  have n: "unat ?n = length body"
  proof -
    have "unat (stMaxFrame t) < 2 ^ 32" using unsigned_less [of "stMaxFrame t"] by simp
    with assms(4) show ?thesis by (simp add: unat_of_nat take_bit_nat_eq_self)
  qed
  have l: "length (be32 ?n) = 4" by (simp add: be32_def)
  from readFrameLength_calm [OF assms(1)] l obtain c1 where c1: "readFrameLength t = Some (Inr (be32 ?n), t\<lparr>stConn := c1\<rparr>)"
    "calm (t\<lparr>stConn := c1\<rparr>)" "inBytes c1 = body @ rest" by (auto simp: assms(2))
  have "?n \<le> stMaxFrame (t\<lparr>stConn := c1\<rparr>)" using assms(4) n by (simp add: word_le_nat_alt)
  from checkFrameLength_calm [OF c1(2) _ this] assms(3) n c1 obtain c2 where c2: "checkFrameLength ?n (t\<lparr>stConn := c1\<rparr>) = Some (Inr (), t\<lparr>stConn := c2\<rparr>)"
    "calm (t\<lparr>stConn := c2\<rparr>)" "unhurried c2" "inBytes c2 = body @ rest" by auto
  from calm_read [OF c2(2), of "length body"] c2 obtain c3 where c3: "readExactly (length body) (t\<lparr>stConn := c2\<rparr>) = Some (Inr body, t\<lparr>stConn := c3\<rparr>)"
    "calm (t\<lparr>stConn := c3\<rparr>)" "inBytes c3 = rest" by auto
  from calm_clear [OF c3(2)] c3 obtain c4 where c4: "clearReadDeadline (t\<lparr>stConn := c3\<rparr>) = (None, t\<lparr>stConn := c4\<rparr>)" "calm (t\<lparr>stConn := c4\<rparr>)" "inBytes c4 = rest" by auto
  have "length (grow dst (length body)) = length body" by (simp add: grow_def)
  then show "\<exists>c. ReadFrameInto dst t = Some (Inr body, t\<lparr>stConn := c\<rparr>) \<and> calm (t\<lparr>stConn := c\<rparr>) \<and> inBytes c = rest"
    using c1 c2 c3 c4 by (intro exI [of _ c4]) (simp add: ReadFrameInto_def n Let_def)
  define b where "b = (getFrameBuffer (length body) pooled)\<lparr>bufLen := length body\<rparr>"
  have "length (bufData b) = length body" by (auto simp: b_def bufData_def getFrameBuffer_def Let_def)
  then show "\<exists>c b. readFrameBuffer pooled t = (Some (Inr b, t\<lparr>stConn := c\<rparr>), None) \<and> bufData b = body \<and> calm (t\<lparr>stConn := c\<rparr>) \<and> inBytes c = rest"
    using c1 c2 c3 c4 by (intro exI [of _ c4] exI [of _ "b\<lparr>bufArray := body @ drop (length body) (bufArray b)\<rparr>"])
      (simp add: readFrameBuffer_def n Let_def b_def [symmetric], simp add: bufData_def b_def)
qed

text \<open>A writer that only shortens writes.\<close>

definition steady :: "Conn \<Rightarrow> bool" where
  "steady c \<longleftrightarrow> (\<forall>(n, e) \<in> set (cnWrites c). 0 < n \<and> e = None)"

lemma writeFull_steady:
  "steady c \<Longrightarrow> \<exists>ws. writeFull data c = (None, c\<lparr>cnWrites := ws, cnOut := cnOut c @ data\<rparr>) \<and> steady (c\<lparr>cnWrites := ws\<rparr>)"
proof (induction data c rule: writeFull.induct)
  case (1 data c)
  consider "data = []" | "data \<noteq> []" "cnWrites c = []" | n e rest where "data \<noteq> []" "cnWrites c = (n, e) # rest"
    by (cases "cnWrites c") auto
  then show ?case
  proof cases
    case 1
    then show ?thesis using "1.prems" by (auto simp: writeFull.simps [of _ c] intro!: exI [of _ "cnWrites c"])
  next
    case 2
    then show ?thesis
      using "1.prems" by (auto simp: writeFull.simps [of data] writeFull.simps [of "[]"] connWrite_def steady_def intro!: exI [of _ "[]"])
  next
    case 3
    define m where "m = min n (length data)"
    have ne: "e = None" "0 < m" using "1.prems" 3 by (auto simp: steady_def m_def)
    define c' where "c' = c\<lparr>cnWrites := rest, cnOut := cnOut c @ take m data\<rparr>"
    have w: "connWrite data c = ((m, None), c')"
      using 3 ne by (simp add: connWrite_def Let_def m_def c'_def)
    have "steady c'" using "1.prems" 3 by (simp add: steady_def c'_def)
    with "1.IH" [OF 3(1) w [symmetric] refl refl] ne(2) obtain ws where
      "writeFull (drop m data) c' = (None, c'\<lparr>cnWrites := ws, cnOut := cnOut c' @ drop m data\<rparr>)" "steady (c'\<lparr>cnWrites := ws\<rparr>)" by auto
    with 3 w ne show ?thesis
      by (auto simp: writeFull.simps [of data] c'_def steady_def)
  qed
qed

text \<open>Sending and receiving a sequence of encoded frames, one after the other.\<close>

fun sendAll :: "bytes list \<Rightarrow> StreamTransport \<Rightarrow> streamError option \<times> StreamTransport" where
  "sendAll [] t = (None, t)"
| "sendAll (f # fs) t = (case SendFrame f t of (None, t) \<Rightarrow> sendAll fs t | (Some e, t) \<Rightarrow> (Some e, t))"

fun readAll :: "nat \<Rightarrow> StreamTransport \<Rightarrow> bytes list blocking" where
  "readAll 0 t = Some (Inr [], t)"
| "readAll (Suc n) t = io_try (ReadFrame t) (\<lambda>f t. io_try (readAll n t) (\<lambda>fs t. Some (Inr (f # fs), t)))"

definition framed :: "bytes list \<Rightarrow> bytes" where
  "framed fs = concat (map (\<lambda>f. be32 (of_nat (length f)) @ f) fs)"

lemma sendAll_steady:
  assumes "steady (stConn t)" "\<forall>f \<in> set fs. length f \<le> MaxFrameBytes"
  shows "\<exists>t'. sendAll fs t = (None, t') \<and> cnOut (stConn t') = cnOut (stConn t) @ framed fs"
  using assms
proof (induction fs arbitrary: t)
  case Nil
  then show ?case by (simp add: framed_def)
next
  case (Cons f fs)
  obtain ws where w1: "writeFull (be32 (of_nat (length f))) (stConn t) = (None, (stConn t)\<lparr>cnWrites := ws, cnOut := cnOut (stConn t) @ be32 (of_nat (length f))\<rparr>)"
    "steady ((stConn t)\<lparr>cnWrites := ws\<rparr>)" using writeFull_steady Cons.prems(1) by blast
  let ?c = "(stConn t)\<lparr>cnWrites := ws, cnOut := cnOut (stConn t) @ be32 (of_nat (length f))\<rparr>"
  have "steady ?c" using w1(2) by (simp add: steady_def)
  then obtain ws' where w2: "writeFull f ?c = (None, ?c\<lparr>cnWrites := ws', cnOut := cnOut ?c @ f\<rparr>)" "steady (?c\<lparr>cnWrites := ws'\<rparr>)"
    using writeFull_steady by blast
  let ?t = "t\<lparr>stConn := ?c\<lparr>cnWrites := ws', cnOut := cnOut ?c @ f\<rparr>\<rparr>"
  have "SendFrame f t = (None, ?t)"
    using Cons.prems(2) w1(1) w2(1) by (simp add: SendFrame_def)
  moreover have "steady (stConn ?t)" using w2(2) by (simp add: steady_def)
  ultimately show ?case
    using Cons.IH [of ?t] Cons.prems(2) by (auto simp: framed_def)
qed

lemma readAll_calm:
  assumes "calm t" "inBytes (stConn t) = framed fs @ rest" "\<forall>f \<in> set fs. 40 \<le> length f \<and> length f \<le> unat (stMaxFrame t)"
  shows "\<exists>t'. readAll (length fs) t = Some (Inr fs, t') \<and> inBytes (stConn t') = rest"
  using assms
proof (induction fs arbitrary: t)
  case Nil
  then show ?case by (simp add: framed_def)
next
  case (Cons f fs)
  have "inBytes (stConn t) = be32 (of_nat (length f)) @ f @ framed fs @ rest" using Cons.prems(2) by (simp add: framed_def)
  from frame_read(1) [OF Cons.prems(1) this, of "[]"] Cons.prems(3) obtain c where c: "ReadFrame t = Some (Inr f, t\<lparr>stConn := c\<rparr>)"
    "calm (t\<lparr>stConn := c\<rparr>)" "inBytes c = framed fs @ rest" by (auto simp: ReadFrame_def)
  with Cons.IH [of "t\<lparr>stConn := c\<rparr>"] Cons.prems(3) show ?case by auto
qed

section \<open>Slow peers\<close>

lemma connRead_deadline:
  assumes "cnReadDeadline c = Some d"
  obtains r c' where "connRead k c = Some (r, c')" "cnNow c' \<le> max (cnNow c) d"
    "cnReadDeadline c' = Some d" "cnDeadlineErr c' = cnDeadlineErr c"
proof -
  have "delivered k at c = (r, c') \<Longrightarrow> cnNow c' = max (cnNow c) at \<and> cnReadDeadline c' = Some d \<and> cnDeadlineErr c' = cnDeadlineErr c" for at r c'
    using assms by (auto simp: delivered_def Let_def split: list.splits if_splits)
  note del = this
  show ?thesis
  proof (cases "\<exists>at. arrival c = Some at \<and> max (cnNow c) at < d")
    case True
    then obtain at where at: "arrival c = Some at" "max (cnNow c) at < d" by blast
    obtain r c' where r: "delivered k at c = (r, c')" by (cases "delivered k at c")
    have "connRead k c = Some (r, c')" using at assms r by (auto simp: connRead_def le_max_iff_disj)
    then show ?thesis using at(2) del [OF r] by (intro that [of r c']) simp_all
  next
    case False
    then have "connRead k c = Some (([], Some Timeout), c\<lparr>cnNow := max (cnNow c) d\<rparr>)"
      using assms by (auto simp: connRead_def split: option.splits)
    then show ?thesis using assms by (intro that [of _ "c\<lparr>cnNow := max (cnNow c) d\<rparr>"]) simp_all
  qed
qed

text \<open>A read with a deadline ends, and not later than the deadline.\<close>

lemma readFull_deadline:
  "cnReadDeadline c = Some d \<Longrightarrow>
   \<exists>r c'. readFull k acc c = Some (r, c') \<and> cnNow c' \<le> max (cnNow c) d \<and> cnReadDeadline c' = Some d \<and> cnDeadlineErr c' = cnDeadlineErr c"
proof (induction k acc c rule: readFull.induct)
  case (1 k acc c)
  show ?case
  proof (cases "k \<le> length acc")
    case True
    then show ?thesis using "1.prems" by (simp add: readFull.simps [of k])
  next
    case False
    obtain b e c' where r: "connRead (k - length acc) c = Some ((b, e), c')" "cnNow c' \<le> max (cnNow c) d"
      "cnReadDeadline c' = Some d" "cnDeadlineErr c' = cnDeadlineErr c"
      using connRead_deadline [OF "1.prems", of "k - length acc"] by (metis surj_pair)
    show ?thesis
    proof (cases e)
      case None
      with "1.IH" [OF False r(1) refl refl None] r obtain x c'' where "readFull k (acc @ b) c' = Some (x, c'')" "cnNow c'' \<le> max (cnNow c') d"
        "cnReadDeadline c'' = Some d" "cnDeadlineErr c'' = cnDeadlineErr c" by auto
      with False r None show ?thesis by (auto simp: readFull.simps [of k acc])
    next
      case (Some err)
      with False r show ?thesis by (simp add: readFull.simps [of k acc])
    qed
  qed
qed

lemma readExactly_deadline:
  assumes "cnReadDeadline (stConn t) = Some d"
  shows "\<exists>r c. readExactly k t = Some (r, t\<lparr>stConn := c\<rparr>) \<and> cnNow c \<le> max (cnNow (stConn t)) d \<and> cnDeadlineErr c = cnDeadlineErr (stConn t)"
  using readFull_deadline [OF assms, of k "[]"] by (auto simp: readExactly_def)

lemma setReadDeadline_ok:
  assumes "stDeadlines t" "cnDeadlineErr (stConn t) = None"
  shows "setReadDeadline after t = (None, t\<lparr>stConn := (stConn t)\<lparr>cnReadDeadline := Some (cnNow (stConn t) + after)\<rparr>\<rparr>)"
    "clearReadDeadline t = (None, t\<lparr>stConn := (stConn t)\<lparr>cnReadDeadline := None\<rparr>\<rparr>)"
  using assms by (simp_all add: setReadDeadline_def clearReadDeadline_def connSetReadDeadline_def)

text \<open>After the first byte the rest of the length takes at most the length timeout.\<close>

lemma readFrameLength_bounded:
  assumes "stDeadlines t" "cnDeadlineErr (stConn t) = None" "0 < slLengthTimeout (stGuard t)"
    and first: "readFull 1 [] ((stConn t)\<lparr>cnReadDeadline := None\<rparr>) = Some (Inr b, c1)" "cnDeadlineErr c1 = None"
  shows "\<exists>r c. readFrameLength t = Some (r, t\<lparr>stConn := c\<rparr>) \<and> cnNow c \<le> cnNow c1 + slLengthTimeout (stGuard t) \<and> cnDeadlineErr c = None"
proof -
  let ?t = "t\<lparr>stConn := c1\<lparr>cnReadDeadline := Some (cnNow c1 + slLengthTimeout (stGuard t))\<rparr>\<rparr>"
  obtain r c where rest: "readExactly 3 ?t = Some (r, t\<lparr>stConn := c\<rparr>)" "cnNow c \<le> cnNow c1 + slLengthTimeout (stGuard t)" "cnDeadlineErr c = None"
    using readExactly_deadline [of ?t _ 3] first(2) assms(3) by auto
  have "readExactly 1 (t\<lparr>stConn := (stConn t)\<lparr>cnReadDeadline := None\<rparr>\<rparr>) = Some (Inr b, t\<lparr>stConn := c1\<rparr>)"
    using first(1) by (simp add: readExactly_def)
  with rest assms(1,2) first(2) show ?thesis
    by (cases r) (auto simp: readFrameLength_def setReadDeadline_ok)
qed

lemma readFull_keeps: "readFull k acc c = Some (r, c') \<Longrightarrow> cnDeadlineErr c' = cnDeadlineErr c"
proof (induction k acc c rule: readFull.induct)
  case (1 k acc c)
  have keeps: "connRead m c = Some (x, c') \<Longrightarrow> cnDeadlineErr c' = cnDeadlineErr c" for m x c'
    by (auto simp: connRead_def delivered_def Let_def split: option.splits list.splits if_splits)
  show ?case
  proof (cases "k \<le> length acc \<or> connRead (k - length acc) c = None")
    case True
    then show ?thesis using "1.prems" by (auto simp: readFull.simps [of k acc] split: if_splits)
  next
    case False
    then obtain b e c1 where "connRead (k - length acc) c = Some ((b, e), c1)" by (cases "connRead (k - length acc) c") auto
    with False "1.prems" "1.IH" [OF _ this refl refl] keeps show ?thesis
      by (cases e) (auto simp: readFull.simps [of k acc])
  qed
qed

lemma checkFrameLength_cases:
  assumes "stDeadlines t" "cnDeadlineErr (stConn t) = None"
  obtains e where "checkFrameLength m t = Some (Inl e, t)" "e \<noteq> Timeout"
  | "checkFrameLength m t = Some (Inr (), t\<lparr>stConn := (stConn t)\<lparr>cnReadDeadline := Some (cnNow (stConn t) + frameReadBudget (stGuard t) m)\<rparr>\<rparr>)"
    "m \<le> stMaxFrame t"
proof (cases "m < of_nat HeaderSize \<or> m > stMaxFrame t")
  case True
  then have "\<exists>e. checkFrameLength m t = Some (Inl e, t) \<and> e \<noteq> Timeout"
    by (cases "m < of_nat HeaderSize") (simp_all add: checkFrameLength_def)
  then show ?thesis using that(1) by blast
next
  case False
  then show ?thesis using assms by (intro that(2)) (simp_all add: checkFrameLength_def setReadDeadline_ok not_less)
qed

text \<open>C21: The slow-peer guard bounds every frame: once its first byte has arrived, reading a frame
  returns, whatever the peer sends or does not send, within the length timeout, the grace
  period and the time the minimum rate allows for the largest frame; and a read that times out is reported
  as a slow peer and never as a plain timeout.\<close>

theorem slowloris_bounded:
  assumes "guardOk (stGuard t)" "stDeadlines t" "cnDeadlineErr (stConn t) = None"
    and "readFull 1 [] ((stConn t)\<lparr>cnReadDeadline := None\<rparr>) = Some (Inr b, c1)"
  shows "\<exists>r t'. ReadFrame t = Some (r, t') \<and> r \<noteq> Inl Timeout \<and>
    cnNow (stConn t') \<le> cnNow c1 + slLengthTimeout (stGuard t) + slFrameGrace (stGuard t)
      + (uint (stMaxFrame t) * 10 ^ 9) div slMinReadRate (stGuard t)"
proof -
  let ?g = "stGuard t" let ?n = "\<lambda>m. (uint (m::u32) * 10 ^ 9) div slMinReadRate ?g"
  have g: "0 < slLengthTimeout ?g" "0 < slFrameGrace ?g" "0 < slMinReadRate ?g" using assms(1) by (simp_all add: guardOk_def)
  have n: "0 \<le> ?n m" "m \<le> m' \<Longrightarrow> ?n m \<le> ?n m'" for m m'
    using g(3) by (simp_all add: pos_imp_zdiv_nonneg_iff zdiv_mono1 word_le_def)
  have "cnDeadlineErr c1 = None" using readFull_keeps [OF assms(4)] assms(3) by simp
  from readFrameLength_bounded [OF assms(2,3) g(1) assms(4) this] obtain r c where
    l: "readFrameLength t = Some (r, t\<lparr>stConn := c\<rparr>)" "cnNow c \<le> cnNow c1 + slLengthTimeout ?g" "cnDeadlineErr c = None" by blast
  show ?thesis
  proof (cases r)
    case (Inl e)
    then show ?thesis
      using l g n(1) [of "stMaxFrame t"] by (auto simp: ReadFrame_def ReadFrameInto_def classifyReadError_def)
  next
    case (Inr len)
    let ?m = "rd32 len"
    let ?c = "c\<lparr>cnReadDeadline := Some (cnNow c + frameReadBudget ?g ?m)\<rparr>"
    consider (bad) e where "checkFrameLength ?m (t\<lparr>stConn := c\<rparr>) = Some (Inl e, t\<lparr>stConn := c\<rparr>)" "e \<noteq> Timeout"
      | (ok) "checkFrameLength ?m (t\<lparr>stConn := c\<rparr>) = Some (Inr (), t\<lparr>stConn := ?c\<rparr>)" "?m \<le> stMaxFrame t"
      using checkFrameLength_cases [of "t\<lparr>stConn := c\<rparr>" ?m] assms(2) l(3) by auto
    then show ?thesis
    proof cases
      case bad
      then show ?thesis using l g Inr n(1) [of "stMaxFrame t"] by (auto simp: ReadFrame_def ReadFrameInto_def Let_def)
    next
      case ok
      let ?k = "length (grow [] (unat ?m))"
      obtain r c' where b: "readExactly ?k (t\<lparr>stConn := ?c\<rparr>) = Some (r, t\<lparr>stConn := c'\<rparr>)"
        "cnNow c' \<le> max (cnNow c) (cnNow c + frameReadBudget ?g ?m)" "cnDeadlineErr c' = None"
        using readExactly_deadline [of "t\<lparr>stConn := ?c\<rparr>" _ ?k] l(3) by auto
      have "cnNow c' \<le> cnNow c1 + slLengthTimeout ?g + slFrameGrace ?g + ?n (stMaxFrame t)"
        using b(2) l(2) g(2) n(1) [of ?m] n(2) [OF ok(2)] by (simp add: frameReadBudget_def)
      with l ok b Inr assms(2) show ?thesis
        by (cases r) (auto simp: ReadFrame_def ReadFrameInto_def Let_def classifyReadError_def setReadDeadline_ok)
    qed
  qed
qed

theorem slowloris_bounded_witness:
  defines "c \<equiv> \<lparr>cnNow = 5, cnReadDeadline = None, cnWriteDeadline = None, cnIn = [(6, [0])], cnEnd = None, cnDeadlineErr = None,
    cnWrites = [], cnOut = [], cnCloses = 0\<rparr>"
  shows "\<exists>r t'. ReadFrame (NewStreamTransport c) = Some (r, t') \<and> cnNow (stConn t') \<le> 6 + 2 * 10 ^ 9 + 2 * 10 ^ 9 + 1024 * 10 ^ 9"
proof -
  let ?t = "NewStreamTransport c"
  have t: "stConn ?t = c" "stDeadlines ?t" "stGuard ?t = DefaultSlowlorisConfig" "stMaxFrame ?t = 8388608"
    by (simp_all add: NewStreamTransport_def NewStreamTransportWithSlowlorisGuard_def NewStreamTransportForStream_def Let_def
        DefaultSlowlorisConfig_def clampMaxFrame_def)
  have "readFull 1 [] (c\<lparr>cnReadDeadline := None\<rparr>) = Some (Inr [0], c\<lparr>cnNow := 6, cnIn := []\<rparr>)"
    by (simp add: readFull.simps [of "Suc 0"] connRead_def arrival_def delivered_def c_def)
  moreover have "guardOk DefaultSlowlorisConfig" "cnDeadlineErr c = None" by (simp_all add: guardOk_def DefaultSlowlorisConfig_def c_def)
  ultimately show ?thesis
    using slowloris_bounded [of ?t "[0]" "c\<lparr>cnNow := 6, cnIn := []\<rparr>"] t by (auto simp: DefaultSlowlorisConfig_def)
qed

section \<open>Frames over a stream\<close>

definition encoded :: "Frame \<Rightarrow> bytes" where
  "encoded f = headerBytes (stampHeader (fHeader f) (length (fPayload f))) @ fPayload f"

fun sendEach :: "(nat \<Rightarrow> Buffer option) \<Rightarrow> Frame list \<Rightarrow> StreamTransport \<Rightarrow> streamError option \<times> StreamTransport" where
  "sendEach pool [] t = (None, t)"
| "sendEach pool (f # fs) t = (case Send (pool (length fs)) f t of (None, t) \<Rightarrow> sendEach pool fs t | (Some e, t) \<Rightarrow> (Some e, t))"

fun readEach :: "(nat \<Rightarrow> Buffer option) \<Rightarrow> nat \<Rightarrow> StreamTransport \<Rightarrow> Frame list blocking" where
  "readEach pool 0 t = Some (Inr [], t)"
| "readEach pool (Suc n) t = io_try (Read (pool n) n t) (\<lambda>(f, l) t. io_try (readEach pool n t) (\<lambda>fs t. Some (Inr (f # fs), t)))"

lemma Send_encoded: "frameEncodable f \<Longrightarrow> Send pooled f t = SendFrame (encoded f) t"
  by (simp add: Send_def EncodeFrameInto_eq encoded_def frameEncodable_def)

lemma sendEach_encoded: "\<forall>f \<in> set fs. frameEncodable f \<Longrightarrow> sendEach pool fs t = sendAll (map encoded fs) t"
  by (induction fs arbitrary: t) (auto simp: Send_encoded split: prod.split option.split)

lemma decode_encoded: "frameEncodable f \<Longrightarrow> decodeFrameView (encoded f) lease = Inr ((wireFrame f)\<lparr>fLease := lease\<rparr>)"
  by (cases f) (simp add: encoded_def decodeFrameView_headerBytes frameEncodable_def headerOk_stamp wireFrame_def unat_small_length)

lemma readEach_calm:
  assumes "calm t" "inBytes (stConn t) = framed (map encoded fs) @ rest"
    "\<forall>f \<in> set fs. frameEncodable f \<and> length (encoded f) \<le> unat (stMaxFrame t)"
  shows "\<exists>t'. readEach pool (length fs) t = Some (Inr (map2 (\<lambda>f i. (wireFrame f)\<lparr>fLease := Some i\<rparr>) fs (rev [0..<length fs])), t')"
  using assms
proof (induction fs arbitrary: t)
  case Nil
  then show ?case by simp
next
  case (Cons f fs)
  have "inBytes (stConn t) = be32 (of_nat (length (encoded f))) @ encoded f @ framed (map encoded fs) @ rest"
    using Cons.prems(2) by (simp add: framed_def)
  moreover have "40 \<le> length (encoded f)" by (simp add: encoded_def)
  ultimately obtain c b where c: "readFrameBuffer (pool (length fs)) t = (Some (Inr b, t\<lparr>stConn := c\<rparr>), None)"
    "bufData b = encoded f" "calm (t\<lparr>stConn := c\<rparr>)" "inBytes c = framed (map encoded fs) @ rest"
    using frame_read(2) [OF Cons.prems(1), of "encoded f" _ "pool (length fs)"] Cons.prems(3) by auto
  then have "Read (pool (length fs)) (length fs) t
      = Some (Inr ((wireFrame f)\<lparr>fLease := Some (length fs)\<rparr>, newPooledFrameLease b), t\<lparr>stConn := c\<rparr>)"
    using Cons.prems(3) by (simp add: Read_def ReadFrameLease_def newPooledFrameLease_def decode_encoded)
  with Cons.IH [of "t\<lparr>stConn := c\<rparr>"] c Cons.prems(3) show ?case by auto
qed

text \<open>C7: Frames survive the whole path through encoder, length prefix, network and decoder: frames the
  encoder accepts and the receiver's limit admits, sent with \<open>Send\<close>, are read by \<open>Read\<close> as the same frames in
  the same order, with restamped headers, each with a lease of its own, and by \<open>ReadFrame\<close> as their
  encodings, however the writes are shortened and the bytes cut into segments; neither side reports an error.\<close>

theorem frames_over_stream:
  assumes "steady out" "cnOut out = []" "\<forall>f \<in> set fs. frameEncodable f \<and> length (encoded f) \<le> unat (stMaxFrame r)"
    and "calm r" "inBytes (stConn r) = cnOut (stConn (snd (sendEach pool fs (NewStreamTransportForStream out guard))))"
  shows "fst (sendEach pool fs (NewStreamTransportForStream out guard)) = None
    \<and> map_option fst (readEach pool' (length fs) r)
        = Some (Inr (map2 (\<lambda>f i. (wireFrame f)\<lparr>fLease := Some i\<rparr>) fs (rev [0..<length fs])))
    \<and> map_option fst (readAll (length fs) r) = Some (Inr (map encoded fs))"
proof -
  let ?t = "NewStreamTransportForStream out guard"
  have t: "stConn ?t = out" by (simp add: NewStreamTransportForStream_def Let_def)
  have s: "sendEach pool fs ?t = sendAll (map encoded fs) ?t" using assms(3) by (simp add: sendEach_encoded)
  have "\<forall>f \<in> set (map encoded fs). length f \<le> MaxFrameBytes"
    using assms(3) by (auto simp: encoded_def frameEncodable_def)
  with sendAll_steady [of ?t "map encoded fs"] assms(1,2) obtain t' where
    a: "sendAll (map encoded fs) ?t = (None, t')" "cnOut (stConn t') = framed (map encoded fs)" by (auto simp: t)
  then have "inBytes (stConn r) = framed (map encoded fs) @ []" using assms(5) s by simp
  moreover have "\<forall>f \<in> set (map encoded fs). 40 \<le> length f \<and> length f \<le> unat (stMaxFrame r)"
    using assms(3) by (auto simp: encoded_def)
  ultimately show ?thesis
    using readEach_calm [OF assms(4) _ assms(3), of "[]" pool'] readAll_calm [OF assms(4), of "map encoded fs" "[]"] a s by auto
qed

theorem frames_over_stream_witness:
  defines "fs \<equiv> [NewFrame FramePing 0 [], NewFrame FrameNack SchemaNack [1, 2, 3]]"
  defines "out \<equiv> \<lparr>cnNow = 0, cnReadDeadline = None, cnWriteDeadline = None, cnIn = [], cnEnd = None, cnDeadlineErr = None,
    cnWrites = [(1, None), (2, None)], cnOut = [], cnCloses = 0\<rparr>"
  defines "wire \<equiv> cnOut (stConn (snd (sendEach (\<lambda>_. None) fs (NewStreamTransportForStream out DefaultSlowlorisConfig))))"
  defines "r \<equiv> NewStreamTransportForStream (out\<lparr>cnIn := [(0, take 43 wire), (0, drop 43 wire)]\<rparr>) DefaultSlowlorisConfig"
  shows "map_option fst (readEach (\<lambda>_. None) 2 r)
    = Some (Inr [(wireFrame (NewFrame FramePing 0 []))\<lparr>fLease := Some 1\<rparr>, (wireFrame (NewFrame FrameNack SchemaNack [1, 2, 3]))\<lparr>fLease := Some 0\<rparr>])"
proof -
  have "inBytes (stConn r) = wire" by (simp add: r_def NewStreamTransportForStream_def Let_def inBytes_def)
  moreover have "calm r"
    by (simp add: r_def NewStreamTransportForStream_def Let_def calm_def DefaultSlowlorisConfig_def guardOk_def out_def)
  moreover have "stMaxFrame r = 8388608"
    by (simp add: r_def NewStreamTransportForStream_def Let_def DefaultSlowlorisConfig_def clampMaxFrame_def)
  then have "\<forall>f \<in> set fs. frameEncodable f \<and> length (encoded f) \<le> unat (stMaxFrame r)" "length fs = 2" "rev [0..<2] = [1, 0::nat]"
    by (simp_all add: fs_def encoded_def frameEncodable_def NewFrame_def stampHeader_def emptyHeader_def validateHeaderValues_def upt_rec)
  moreover have "steady out" "cnOut out = []" by (simp_all add: steady_def out_def)
  ultimately have "map_option fst (readEach (\<lambda>_. None) 2 r) = Some (Inr (map2 (\<lambda>f i. (wireFrame f)\<lparr>fLease := Some i\<rparr>) fs [1, 0]))"
    using frames_over_stream [of out fs r "\<lambda>_. None" DefaultSlowlorisConfig "\<lambda>_. None"]
    unfolding wire_def by simp
  then show ?thesis by (simp add: fs_def)
qed

end
