(* ===== verification/Etp_MultiStream.thy ===== *)
theory Etp_MultiStream
  imports Etp_Stream
begin

text \<open>
  The multi-stream transport of \<open>multistream_transport.go\<close>: one stream per channel and direction, a goroutine per stream that
  reads frames into one queue, a bounded number of streams that wait for their preface. Its goroutines
  interleave at the critical sections of the mutex and at the channel operations; \<open>ms_step\<close> is one such step
  of anybody.
\<close>

section \<open>State\<close>

text \<open>A stream is known by a number; \<open>mtStreams\<close> holds the stream objects. A stream that is not wrapped
  yet (\<open>raw\<close> in the code) is the connection of its entry. \<open>mtCloses\<close> lists the streams in the order
  \<open>Close\<close> was called on them. A lease read from a stream has a number, the stream and the channel it was read for, and
  its data; \<open>mtReleased\<close> and \<open>mtHanded\<close> list the leases the transport released and those it gave to the caller.\<close>

record mtLease =
  mlID :: nat
  mlStream :: nat
  mlChannel :: u16
  mlData :: bytes

text \<open>Where a call of \<open>streamForChannel\<close> that holds \<open>openMu\<close> of its channel is: in \<open>open\<close>; with a stream that has
  its preface; with a wrapped stream; with a registered stream whose read loop it is about to start.\<close>

datatype opener = Opening | Prefaced nat | Wrapped nat | Registered nat

text \<open>Where the goroutine of an accepted stream is: started; waiting for the preface, with the guard it read;
  about to start the read loop of the channel.\<close>

datatype acceptStage = Accepted | AwaitPreface SlowlorisConfig | StartLoop u16

datatype acceptLoopState = NoAccept | TakeToken | InAccept | AcceptEnded

record readLoopState =
  rlChannel :: u16
  rlStream :: nat
  rlLease :: "mtLease option"

record MultiStream =
  mtCanOpen :: bool
  mtGuard :: SlowlorisConfig
  mtStreams :: "nat \<Rightarrow> StreamTransport"
  mtOutgoing :: "u16 \<rightharpoonup> nat"
  mtIncoming :: "u16 \<rightharpoonup> nat"
  mtPending :: "(nat \<times> acceptStage) list"
  mtOpeners :: "u16 \<rightharpoonup> opener"
  mtAccept :: acceptLoopState
  mtTokens :: nat
  mtPrefaceLimit :: nat
  mtReads :: "mtLease list"
  mtReadQueue :: nat
  mtErrs :: "streamError list"
  mtLoops :: "readLoopState list"
  mtCtxDone :: bool
  mtClosed :: bool
  mtDrained :: bool
  mtWriteDeadline :: "int option"
  mtNextLease :: nat
  mtReleased :: "mtLease list"
  mtHanded :: "mtLease list"
  mtKnown :: "nat list"
  mtCloses :: "nat list"

definition ErrMultiStreamClosed :: streamError where
  "ErrMultiStreamClosed = OtherError (Err ''multistream transport closed'')"

definition multiStreamPrefaceSize :: nat where [simp]: "multiStreamPrefaceSize = 2"

definition validChannel :: "u16 \<Rightarrow> bool" where
  "validChannel channelID \<longleftrightarrow> channelID \<le> ChannelBackground"

definition allChannels :: "u16 list" where
  "allChannels = [ChannelControl, ChannelRealtime, ChannelBulk, ChannelSync, ChannelBackground]"

definition NewMultiStreamTransport ::
  "bool \<Rightarrow> bool \<Rightarrow> SlowlorisConfig \<Rightarrow> int \<Rightarrow> int \<Rightarrow> (nat \<Rightarrow> StreamTransport) \<Rightarrow> MultiStream" where
  "NewMultiStreamTransport canOpen canAccept guard readQueue prefaceLimit streams =
     \<lparr>mtCanOpen = canOpen, mtGuard = guard, mtStreams = streams, mtOutgoing = (\<lambda>_. None), mtIncoming = (\<lambda>_. None), mtPending = [],
      mtOpeners = (\<lambda>_. None), mtAccept = (if canAccept then TakeToken else NoAccept), mtTokens = 0,
      mtPrefaceLimit = nat (if prefaceLimit \<le> 0 then 8 else prefaceLimit), mtReads = [],
      mtReadQueue = nat (if readQueue \<le> 0 then 64 else readQueue), mtErrs = [], mtLoops = [], mtCtxDone = False,
      mtClosed = False, mtDrained = False, mtWriteDeadline = None, mtNextLease = 0, mtReleased = [], mtHanded = [], mtKnown = [], mtCloses = []\<rparr>"

section \<open>Operations\<close>

definition reportErr :: "streamError \<Rightarrow> MultiStream \<Rightarrow> MultiStream" where
  "reportErr err y = (if mtErrs y = [] then y\<lparr>mtErrs := [err]\<rparr> else y)"

definition closeStreamOf :: "nat \<Rightarrow> MultiStream \<Rightarrow> MultiStream" where
  "closeStreamOf i y = y\<lparr>mtStreams := (mtStreams y)(i := CloseStream (mtStreams y i)), mtCloses := mtCloses y @ [i]\<rparr>"

definition writeStreamPreface :: "u16 \<Rightarrow> Conn \<Rightarrow> streamError option \<times> Conn" where
  "writeStreamPreface channelID c = writeFull (be16 channelID) c"

definition readStreamPreface :: "Conn \<Rightarrow> ((streamError + u16) \<times> Conn) option" where
  "readStreamPreface c = map_option (\<lambda>(r, c). (map_sum id rd16 r, c)) (readFull multiStreamPrefaceSize [] c)"

subsection \<open>Streams for sending\<close>

text \<open>The look-up under the lock that \<open>streamForChannel\<close> does before and after it takes \<open>openMu\<close>: an error, a stream to
  use, or \<open>None\<close> when one has to be opened.\<close>

definition lookupStream :: "u16 \<Rightarrow> MultiStream \<Rightarrow> streamError + nat option" where
  "lookupStream channelID y =
     (if mtClosed y then Inl ErrMultiStreamClosed
      else case mtIncoming y channelID of
             Some i \<Rightarrow> Inr (Some i)
           | None \<Rightarrow> (case mtOutgoing y channelID of
                        Some i \<Rightarrow> Inr (Some i)
                      | None \<Rightarrow> if \<not> mtCanOpen y then Inl ErrMultiStreamClosed else Inr None))"

text \<open>\<open>open\<close> returned the stream \<open>i\<close>: it gets the write deadline and its preface, or is closed.\<close>

definition prefaceStream :: "u16 \<Rightarrow> nat \<Rightarrow> MultiStream \<Rightarrow> streamError option \<times> MultiStream" where
  "prefaceStream channelID i y =
     (let y = y\<lparr>mtKnown := mtKnown y @ [i]\<rparr>;
          t = mtStreams y i;
          put = (\<lambda>c y. y\<lparr>mtStreams := (mtStreams y)(i := t\<lparr>stConn := c\<rparr>)\<rparr>);
          (e, c) = (case mtWriteDeadline y of None \<Rightarrow> (None, stConn t) | Some d \<Rightarrow> connSetWriteDeadline (Some d) (stConn t))
      in case e of
           Some err \<Rightarrow> (Some err, closeStreamOf i (put c y))
         | None \<Rightarrow> (case writeStreamPreface channelID c of
                      (Some err, c) \<Rightarrow> (Some err, closeStreamOf i (put c y))
                    | (None, c) \<Rightarrow> (None, put c y)))"

text \<open>\<open>NewStreamTransportForStream(raw, guard)\<close>.\<close>

definition wrapStream :: "SlowlorisConfig \<Rightarrow> nat \<Rightarrow> MultiStream \<Rightarrow> MultiStream" where
  "wrapStream guard i y =
     y\<lparr>mtStreams := (mtStreams y)(i := NewStreamTransportForStream (stConn (mtStreams y i)) guard)\<rparr>"

text \<open>The last section under the lock: the stream is registered, or closed when the transport was closed or another
  stream of the channel came first, which is then used.\<close>

definition registerStream :: "u16 \<Rightarrow> nat \<Rightarrow> MultiStream \<Rightarrow> (streamError + nat) \<times> MultiStream" where
  "registerStream channelID i y =
     (if mtClosed y then (Inl ErrMultiStreamClosed, closeStreamOf i y)
      else case mtIncoming y channelID of
             Some j \<Rightarrow> (Inr j, closeStreamOf i y)
           | None \<Rightarrow> (case mtOutgoing y channelID of
                        Some j \<Rightarrow> (Inr j, closeStreamOf i y)
                      | None \<Rightarrow> (Inr i, y\<lparr>mtOutgoing := (mtOutgoing y)(channelID \<mapsto> i)\<rparr>)))"

definition startReadLoop :: "u16 \<Rightarrow> nat \<Rightarrow> MultiStream \<Rightarrow> MultiStream" where
  "startReadLoop channelID i y =
     (if mtClosed y then closeStreamOf i y
      else y\<lparr>mtLoops := mtLoops y @ [\<lparr>rlChannel = channelID, rlStream = i, rlLease = None\<rparr>]\<rparr>)"

text \<open>A call that nobody disturbs; \<open>opened\<close> is what \<open>open\<close> returns.\<close>

definition streamForChannel :: "u16 \<Rightarrow> (streamError + nat) \<Rightarrow> MultiStream \<Rightarrow> (streamError + nat) \<times> MultiStream" where
  "streamForChannel channelID opened y =
     (if \<not> validChannel channelID then (Inl (OtherError (Errf ''invalid multistream channel'' [uint channelID])), y)
      else case lookupStream channelID y of
             Inl e \<Rightarrow> (Inl e, y)
           | Inr (Some i) \<Rightarrow> (Inr i, y)
           | Inr None \<Rightarrow>
               (case opened of
                  Inl e \<Rightarrow> (Inl e, y)
                | Inr i \<Rightarrow>
                    (case prefaceStream channelID i y of
                       (Some e, y) \<Rightarrow> (Inl e, y)
                     | (None, y) \<Rightarrow>
                         (case registerStream channelID i (wrapStream (mtGuard y) i y) of
                            (Inl e, y) \<Rightarrow> (Inl e, y)
                          | (Inr j, y) \<Rightarrow> (Inr j, if j = i then startReadLoop channelID i y else y)))))"

definition SendFrameOnChannel :: "u16 \<Rightarrow> bytes \<Rightarrow> (streamError + nat) \<Rightarrow> MultiStream \<Rightarrow> streamError option \<times> MultiStream" where
  "SendFrameOnChannel channelID frame opened y =
     (if \<not> validChannel channelID then (Some (OtherError (Errf ''invalid multistream channel'' [uint channelID])), y)
      else case DecodeHeader frame of
             Inl e \<Rightarrow> (Some (OtherError e), y)
           | Inr header \<Rightarrow>
               if hChannelID header \<noteq> channelID
               then (Some (OtherError (Errf ''frame channel does not match stream channel'' [uint (hChannelID header), uint channelID])), y)
               else case streamForChannel channelID opened y of
                      (Inl e, y) \<Rightarrow> (Some e, y)
                    | (Inr i, y) \<Rightarrow>
                        (case SendFrame frame (mtStreams y i) of (e, t) \<Rightarrow> (e, y\<lparr>mtStreams := (mtStreams y)(i := t)\<rparr>)))"

definition SendFrameMulti :: "bytes \<Rightarrow> (streamError + nat) \<Rightarrow> MultiStream \<Rightarrow> streamError option \<times> MultiStream" where
  "SendFrameMulti frame opened y =
     (case DecodeHeader frame of
        Inl e \<Rightarrow> (Some (OtherError e), y)
      | Inr header \<Rightarrow> SendFrameOnChannel (hChannelID header) frame opened y)"

subsection \<open>Accepted streams\<close>

text \<open>\<open>acceptLoop\<close>: it takes a token, accepts, and starts a goroutine for the stream.\<close>

definition acceptTake :: "MultiStream \<Rightarrow> MultiStream" where
  "acceptTake y = y\<lparr>mtTokens := mtTokens y + 1, mtAccept := InAccept\<rparr>"

definition acceptReturned :: "(streamError + nat) \<Rightarrow> MultiStream \<Rightarrow> MultiStream" where
  "acceptReturned result y =
     (case result of
        Inl err \<Rightarrow>
          let y = y\<lparr>mtTokens := mtTokens y - 1, mtAccept := AcceptEnded\<rparr> in
          if mtCtxDone y then y else reportErr err y
      | Inr i \<Rightarrow>
          let y = y\<lparr>mtKnown := mtKnown y @ [i]\<rparr> in
          if mtClosed y then (closeStreamOf i y)\<lparr>mtTokens := mtTokens y - 1, mtAccept := AcceptEnded\<rparr>
          else y\<lparr>mtPending := mtPending y @ [(i, Accepted)], mtAccept := TakeToken\<rparr>)"

text \<open>The deferred end of \<open>acceptStream\<close>.\<close>

definition acceptFinish :: "nat \<Rightarrow> MultiStream \<Rightarrow> MultiStream" where
  "acceptFinish i y = y\<lparr>mtPending := filter (\<lambda>p. fst p \<noteq> i) (mtPending y), mtTokens := mtTokens y - 1\<rparr>"

definition setStage :: "nat \<Rightarrow> acceptStage \<Rightarrow> MultiStream \<Rightarrow> MultiStream" where
  "setStage i stage y = y\<lparr>mtPending := map (\<lambda>p. if fst p = i then (i, stage) else p) (mtPending y)\<rparr>"

definition acceptGuard :: "nat \<Rightarrow> MultiStream \<Rightarrow> MultiStream" where
  "acceptGuard i y =
     (let guard = mtGuard y; t = mtStreams y i;
          timeout = (if slLengthTimeout guard \<le> 0 then slLengthTimeout DefaultSlowlorisConfig else slLengthTimeout guard)
      in if slDisableDeadlines guard then setStage i (AwaitPreface guard) y
         else case connSetReadDeadline (Some (cnNow (stConn t) + timeout)) (stConn t) of
                (Some err, c) \<Rightarrow> acceptFinish i (reportErr err (closeStreamOf i y))
              | (None, c) \<Rightarrow> setStage i (AwaitPreface guard) (y\<lparr>mtStreams := (mtStreams y)(i := t\<lparr>stConn := c\<rparr>)\<rparr>))"

text \<open>The preface has been read, with result \<open>r\<close>: an error, a channel no stream may have, or a stream to register.\<close>

definition acceptPreface :: "nat \<Rightarrow> SlowlorisConfig \<Rightarrow> (streamError + u16) \<Rightarrow> MultiStream \<Rightarrow> MultiStream" where
  "acceptPreface i guard r y =
     (case r of
        Inl err \<Rightarrow> acceptFinish i (reportErr (if err = Timeout then ErrSlowloris ''stream preface timeout'' else err) (closeStreamOf i y))
      | Inr channelID \<Rightarrow>
          if \<not> validChannel channelID
          then acceptFinish i (reportErr (ErrInvalidFrame ''invalid multistream channel preface'' [uint channelID]) (closeStreamOf i y))
          else
          let y = wrapStream guard i y in
          if mtClosed y then acceptFinish i (closeStreamOf i y)
          else case mtIncoming y channelID of
                 Some j \<Rightarrow> acceptFinish i (reportErr (ErrInvalidFrame ''duplicate incoming stream for channel'' [uint channelID]) (closeStreamOf i y))
               | None \<Rightarrow> setStage i (StartLoop channelID) (y\<lparr>mtIncoming := (mtIncoming y)(channelID \<mapsto> i)\<rparr>))"

definition acceptStreamPreface :: "nat \<Rightarrow> SlowlorisConfig \<Rightarrow> MultiStream \<Rightarrow> MultiStream option" where
  "acceptStreamPreface i guard y =
     map_option (\<lambda>(r, c).
       let c = (if slDisableDeadlines guard then c else snd (connSetReadDeadline None c))
       in acceptPreface i guard r (y\<lparr>mtStreams := (mtStreams y)(i := (mtStreams y i)\<lparr>stConn := c\<rparr>)\<rparr>))
       (readStreamPreface (stConn (mtStreams y i)))"

definition acceptStart :: "nat \<Rightarrow> u16 \<Rightarrow> MultiStream \<Rightarrow> MultiStream" where
  "acceptStart i channelID y = acceptFinish i (startReadLoop channelID i y)"

subsection \<open>Read loops\<close>

definition releaseLease :: "mtLease \<Rightarrow> MultiStream \<Rightarrow> MultiStream" where
  "releaseLease l y = y\<lparr>mtReleased := mtReleased y @ [l]\<rparr>"

definition removeStream :: "u16 \<Rightarrow> nat \<Rightarrow> MultiStream \<Rightarrow> MultiStream" where
  "removeStream channelID i y =
     (let y = (if mtIncoming y channelID = Some i then y\<lparr>mtIncoming := (mtIncoming y)(channelID := None)\<rparr> else y);
          y = (if mtOutgoing y channelID = Some i then y\<lparr>mtOutgoing := (mtOutgoing y)(channelID := None)\<rparr> else y)
      in closeStreamOf i y)"

text \<open>The loop of stream \<open>i\<close> returns: its deferred calls run and the goroutine is gone.\<close>

definition loopExit :: "readLoopState \<Rightarrow> MultiStream \<Rightarrow> MultiStream" where
  "loopExit rl y = (removeStream (rlChannel rl) (rlStream rl) y)\<lparr>mtLoops := remove1 rl (mtLoops y)\<rparr>"

definition setLoop :: "readLoopState \<Rightarrow> readLoopState \<Rightarrow> MultiStream \<Rightarrow> MultiStream" where
  "setLoop rl rl' y = y\<lparr>mtLoops := rl' # remove1 rl (mtLoops y)\<rparr>"

text \<open>What the loop does with the result of \<open>ReadFrameLease\<close>.\<close>

definition loopRead :: "readLoopState \<Rightarrow> (streamError + bytes) \<Rightarrow> MultiStream \<Rightarrow> MultiStream" where
  "loopRead rl r y =
     (case r of
        Inl err \<Rightarrow> loopExit rl (if err = EOF then y else reportErr err y)
      | Inr data \<Rightarrow>
          let lease = \<lparr>mlID = mtNextLease y, mlStream = rlStream rl, mlChannel = rlChannel rl, mlData = data\<rparr>;
              y = y\<lparr>mtNextLease := mtNextLease y + 1\<rparr>
          in case DecodeHeader data of
               Inl e \<Rightarrow>
                 loopExit rl (reportErr (case e of Err m \<Rightarrow> ErrInvalidFrame m [] | Errf m ns \<Rightarrow> ErrInvalidFrame m ns | GoPanic \<Rightarrow> OtherError GoPanic)
                   (releaseLease lease y))
             | Inr header \<Rightarrow>
                 if hChannelID header \<noteq> rlChannel rl
                 then loopExit rl (reportErr (ErrInvalidFrame ''frame channel does not match stream preface''
                        [uint (hChannelID header), uint (rlChannel rl)]) (releaseLease lease y))
                 else setLoop rl (rl\<lparr>rlLease := Some lease\<rparr>) y)"

definition loopEnqueue :: "readLoopState \<Rightarrow> mtLease \<Rightarrow> MultiStream \<Rightarrow> MultiStream" where
  "loopEnqueue rl lease y = setLoop rl (rl\<lparr>rlLease := None\<rparr>) (y\<lparr>mtReads := mtReads y @ [lease]\<rparr>)"

definition loopCancelled :: "readLoopState \<Rightarrow> mtLease \<Rightarrow> MultiStream \<Rightarrow> MultiStream" where
  "loopCancelled rl lease y = loopExit rl (releaseLease lease y)"

subsection \<open>Reading, closing and limits\<close>

text \<open>Which branch of \<open>select\<close> runs is the scheduler's choice among those that are ready.\<close>

datatype readChoice = FromReads | FromErrs | FromCtx

definition ReadFrameLeaseMulti :: "readChoice \<Rightarrow> MultiStream \<Rightarrow> ((streamError + mtLease) \<times> MultiStream) option" where
  "ReadFrameLeaseMulti choice y =
     (case choice of
        FromReads \<Rightarrow> (case mtReads y of [] \<Rightarrow> None | l # ls \<Rightarrow> Some (Inr l, y\<lparr>mtReads := ls, mtHanded := mtHanded y @ [l]\<rparr>))
      | FromErrs \<Rightarrow> (case mtErrs y of [] \<Rightarrow> None | e # es \<Rightarrow> Some (Inl e, y\<lparr>mtErrs := es\<rparr>))
      | FromCtx \<Rightarrow> if mtCtxDone y then Some (Inl (OtherError (Err ''context canceled'')), y) else None)"

text \<open>\<open>ReadFrame\<close> copies the data and releases the lease itself, which is then not the caller's.\<close>

definition ReadFrameMulti :: "readChoice \<Rightarrow> MultiStream \<Rightarrow> ((streamError + bytes) \<times> MultiStream) option" where
  "ReadFrameMulti choice y =
     (case ReadFrameLeaseMulti choice y of
        None \<Rightarrow> None
      | Some (Inl e, y) \<Rightarrow> Some (Inl e, y)
      | Some (Inr l, y) \<Rightarrow> Some (Inr (mlData l), releaseLease l (y\<lparr>mtHanded := butlast (mtHanded y)\<rparr>)))"

definition registered :: "MultiStream \<Rightarrow> nat list" where
  "registered y = List.map_filter (mtOutgoing y) allChannels @ List.map_filter (mtIncoming y) allChannels"

definition closeBegin :: "MultiStream \<Rightarrow> MultiStream" where
  "closeBegin y =
     (if mtClosed y then y
      else let y = y\<lparr>mtClosed := True, mtCtxDone := True\<rparr>
           in fold closeStreamOf (registered y) (fold closeStreamOf (map fst (mtPending y)) y))"

text \<open>The end of \<open>Close\<close>, once both wait groups are empty: what is left in the queue is released.\<close>

definition closeDrain :: "MultiStream \<Rightarrow> MultiStream" where
  "closeDrain y = y\<lparr>mtReads := [], mtReleased := mtReleased y @ mtReads y, mtDrained := True\<rparr>"

definition setDeadlines :: "int option \<Rightarrow> nat list \<Rightarrow> MultiStream \<Rightarrow> streamError option \<times> MultiStream" where
  "setDeadlines d order y =
     fold (\<lambda>i (e, y). case e of
         Some err \<Rightarrow> (e, y)
       | None \<Rightarrow> (case SetWriteDeadline d (mtStreams y i) of (e, t) \<Rightarrow> (e, y\<lparr>mtStreams := (mtStreams y)(i := t)\<rparr>)))
       order (None, y)"

text \<open>\<open>order\<close> is the order in which Go visits the two maps.\<close>

definition SetWriteDeadlineMulti :: "int option \<Rightarrow> nat list \<Rightarrow> MultiStream \<Rightarrow> streamError option \<times> MultiStream" where
  "SetWriteDeadlineMulti d order y = setDeadlines d order (y\<lparr>mtWriteDeadline := d\<rparr>)"

definition SetMaxFrameBytesMulti :: "u32 \<Rightarrow> MultiStream \<Rightarrow> MultiStream" where
  "SetMaxFrameBytesMulti m y =
     (let m = clampMaxFrame m;
          y = y\<lparr>mtGuard := (mtGuard y)\<lparr>slMaxFrameBytes := m\<rparr>\<rparr>
      in fold (\<lambda>i y. y\<lparr>mtStreams := (mtStreams y)(i := SetMaxFrameBytes m (mtStreams y i))\<rparr>) (registered y) y)"

section \<open>The goroutines together\<close>

text \<open>
  One step of anybody: the network changes what a stream will deliver; a caller opens a stream for a channel in its
  stages, sends on it, reads, sets limits, closes; the accept loop and the goroutines of
  accepted streams advance; a read loop advances. A stream that \<open>open\<close> or \<open>accept\<close> returns is new.
\<close>

inductive ms_step :: "MultiStream \<Rightarrow> MultiStream \<Rightarrow> bool" where
  network: "cnCloses c = cnCloses (stConn (mtStreams y i)) \<Longrightarrow>
     ms_step y (y\<lparr>mtStreams := (mtStreams y)(i := (mtStreams y i)\<lparr>stConn := c\<rparr>)\<rparr>)"
| open_begin: "validChannel ch \<Longrightarrow> mtOpeners y ch = None \<Longrightarrow> lookupStream ch y = Inr None \<Longrightarrow>
     ms_step y (y\<lparr>mtOpeners := (mtOpeners y)(ch \<mapsto> Opening)\<rparr>)"
| open_fails: "mtOpeners y ch = Some Opening \<Longrightarrow> ms_step y (y\<lparr>mtOpeners := (mtOpeners y)(ch := None)\<rparr>)"
| open_prefaced: "mtOpeners y ch = Some Opening \<Longrightarrow> i \<notin> set (mtKnown y) \<Longrightarrow> prefaceStream ch i y = (e, y') \<Longrightarrow>
     ms_step y (y'\<lparr>mtOpeners := (mtOpeners y)(ch := if e = None then Some (Prefaced i) else None)\<rparr>)"
| open_wrapped: "mtOpeners y ch = Some (Prefaced i) \<Longrightarrow>
     ms_step y ((wrapStream (mtGuard y) i y)\<lparr>mtOpeners := (mtOpeners y)(ch \<mapsto> Wrapped i)\<rparr>)"
| open_registered: "mtOpeners y ch = Some (Wrapped i) \<Longrightarrow> registerStream ch i y = (r, y') \<Longrightarrow>
     ms_step y (y'\<lparr>mtOpeners := (mtOpeners y)(ch := if r = Inr i then Some (Registered i) else None)\<rparr>)"
| open_started: "mtOpeners y ch = Some (Registered i) \<Longrightarrow>
     ms_step y ((startReadLoop ch i y)\<lparr>mtOpeners := (mtOpeners y)(ch := None)\<rparr>)"
| send: "SendFrame frame (mtStreams y i) = (e, t) \<Longrightarrow> ms_step y (y\<lparr>mtStreams := (mtStreams y)(i := t)\<rparr>)"
| deadline: "SetWriteDeadlineMulti d order y = (e, y') \<Longrightarrow> ms_step y y'"
| limit: "ms_step y (SetMaxFrameBytesMulti m y)"
| take_token: "mtAccept y = TakeToken \<Longrightarrow> mtTokens y < mtPrefaceLimit y \<Longrightarrow> ms_step y (acceptTake y)"
| accept_ends: "mtAccept y = TakeToken \<Longrightarrow> mtCtxDone y \<Longrightarrow> ms_step y (y\<lparr>mtAccept := AcceptEnded\<rparr>)"
| accepts: "mtAccept y = InAccept \<Longrightarrow> (\<forall>i. result = Inr i \<longrightarrow> i \<notin> set (mtKnown y)) \<Longrightarrow> ms_step y (acceptReturned result y)"
| accept_guard: "(i, Accepted) \<in> set (mtPending y) \<Longrightarrow> ms_step y (acceptGuard i y)"
| accept_preface: "(i, AwaitPreface guard) \<in> set (mtPending y) \<Longrightarrow> acceptStreamPreface i guard y = Some y' \<Longrightarrow> ms_step y y'"
| accept_start: "(i, StartLoop ch) \<in> set (mtPending y) \<Longrightarrow> ms_step y (acceptStart i ch y)"
| loop_read: "rl \<in> set (mtLoops y) \<Longrightarrow> rlLease rl = None \<Longrightarrow> ReadFrameLease pooled (mtStreams y (rlStream rl)) = Some (r, t) \<Longrightarrow>
     ms_step y (loopRead rl (map_sum id flData r) (y\<lparr>mtStreams := (mtStreams y)(rlStream rl := t)\<rparr>))"
| loop_enqueue: "rl \<in> set (mtLoops y) \<Longrightarrow> rlLease rl = Some l \<Longrightarrow> length (mtReads y) < mtReadQueue y \<Longrightarrow> ms_step y (loopEnqueue rl l y)"
| loop_cancelled: "rl \<in> set (mtLoops y) \<Longrightarrow> rlLease rl = Some l \<Longrightarrow> mtCtxDone y \<Longrightarrow> ms_step y (loopCancelled rl l y)"
| read: "ReadFrameLeaseMulti choice y = Some (r, y') \<Longrightarrow> ms_step y y'"
| read_copy: "ReadFrameMulti choice y = Some (b, y') \<Longrightarrow> ms_step y y'"
| cancel: "ms_step y (y\<lparr>mtCtxDone := True\<rparr>)"
| close_begin: "ms_step y (closeBegin y)"
| close_end: "mtClosed y \<Longrightarrow> mtPending y = [] \<Longrightarrow> mtLoops y = [] \<Longrightarrow> ms_step y (closeDrain y)"

inductive ms_reachable :: "MultiStream \<Rightarrow> bool" where
  ms_new: "ms_reachable (NewMultiStreamTransport canOpen canAccept guard readQueue prefaceLimit streams)"
| ms_next: "ms_reachable y \<Longrightarrow> ms_step y y' \<Longrightarrow> ms_reachable y'"

section \<open>Invariants\<close>

lemma reportErr_fields [simp]:
  "mtStreams (reportErr e y) = mtStreams y" "mtOutgoing (reportErr e y) = mtOutgoing y" "mtIncoming (reportErr e y) = mtIncoming y"
  "mtPending (reportErr e y) = mtPending y" "mtOpeners (reportErr e y) = mtOpeners y" "mtAccept (reportErr e y) = mtAccept y"
  "mtTokens (reportErr e y) = mtTokens y" "mtPrefaceLimit (reportErr e y) = mtPrefaceLimit y" "mtReads (reportErr e y) = mtReads y"
  "mtReadQueue (reportErr e y) = mtReadQueue y" "mtLoops (reportErr e y) = mtLoops y" "mtCtxDone (reportErr e y) = mtCtxDone y"
  "mtClosed (reportErr e y) = mtClosed y" "mtDrained (reportErr e y) = mtDrained y" "mtNextLease (reportErr e y) = mtNextLease y"
  "mtReleased (reportErr e y) = mtReleased y" "mtHanded (reportErr e y) = mtHanded y" "mtKnown (reportErr e y) = mtKnown y"
  "mtCloses (reportErr e y) = mtCloses y" "mtGuard (reportErr e y) = mtGuard y" "mtCanOpen (reportErr e y) = mtCanOpen y"
  by (simp_all add: reportErr_def)

lemma closeStreamOf_fields [simp]:
  "mtOutgoing (closeStreamOf i y) = mtOutgoing y" "mtIncoming (closeStreamOf i y) = mtIncoming y"
  "mtPending (closeStreamOf i y) = mtPending y" "mtOpeners (closeStreamOf i y) = mtOpeners y" "mtAccept (closeStreamOf i y) = mtAccept y"
  "mtTokens (closeStreamOf i y) = mtTokens y" "mtPrefaceLimit (closeStreamOf i y) = mtPrefaceLimit y" "mtReads (closeStreamOf i y) = mtReads y"
  "mtReadQueue (closeStreamOf i y) = mtReadQueue y" "mtLoops (closeStreamOf i y) = mtLoops y" "mtCtxDone (closeStreamOf i y) = mtCtxDone y"
  "mtClosed (closeStreamOf i y) = mtClosed y" "mtDrained (closeStreamOf i y) = mtDrained y" "mtNextLease (closeStreamOf i y) = mtNextLease y"
  "mtReleased (closeStreamOf i y) = mtReleased y" "mtHanded (closeStreamOf i y) = mtHanded y" "mtKnown (closeStreamOf i y) = mtKnown y"
  "mtCloses (closeStreamOf i y) = mtCloses y @ [i]" "mtErrs (closeStreamOf i y) = mtErrs y" "mtGuard (closeStreamOf i y) = mtGuard y"
  by (simp_all add: closeStreamOf_def)

text \<open>Nothing but the stream objects and the log of closed streams changes.\<close>

definition onStreams :: "MultiStream \<Rightarrow> MultiStream \<Rightarrow> bool" where
  "onStreams y y' \<longleftrightarrow> y' = y\<lparr>mtStreams := mtStreams y', mtCloses := mtCloses y'\<rparr> \<and> (\<exists>cs. mtCloses y' = mtCloses y @ cs)"

lemma onStreams_refl: "onStreams y y"
  by (simp add: onStreams_def)

lemma onStreams_trans: "onStreams x y \<Longrightarrow> onStreams y z \<Longrightarrow> onStreams x z"
  by (cases x; cases y; cases z) (auto simp: onStreams_def)

lemma onStreams_ops [simp]:
  "onStreams y (y\<lparr>mtStreams := f\<rparr>)" "onStreams y (closeStreamOf i y)" "onStreams y (wrapStream g i y)"
  by (simp_all add: onStreams_def closeStreamOf_def wrapStream_def)

lemma fold_onStreams: "(\<And>i y. onStreams y (f i y)) \<Longrightarrow> onStreams y (fold f is y)"
  by (induction "is" arbitrary: y) (auto intro: onStreams_refl onStreams_trans)

lemma fold_close: "\<exists>f. fold closeStreamOf is y = y\<lparr>mtStreams := f, mtCloses := mtCloses y @ is\<rparr>"
proof (induction "is" arbitrary: y)
  case Nil
  show ?case by (intro exI [of _ "mtStreams y"]) simp
next
  case (Cons i "is")
  then show ?case using Cons [of "closeStreamOf i y"] by (auto simp: closeStreamOf_def)
qed

lemma setDeadlines_onStreams: "onStreams y (snd (setDeadlines d order y))"
proof -
  have "onStreams y (snd (fold (\<lambda>i (e, y). case e of Some err \<Rightarrow> (e, y)
       | None \<Rightarrow> (case SetWriteDeadline d (mtStreams y i) of (e, t) \<Rightarrow> (e, y\<lparr>mtStreams := (mtStreams y)(i := t)\<rparr>))) order (e, y)))" for e
  proof (induction order arbitrary: y e)
    case Nil
    show ?case by (simp add: onStreams_refl)
  next
    case (Cons i order)
    show ?case
      by (cases e; cases "SetWriteDeadline d (mtStreams y i)")
        (auto intro!: Cons onStreams_trans [OF onStreams_ops(1) Cons])
  qed
  then show ?thesis by (simp add: setDeadlines_def)
qed

text \<open>The outcomes of the operations, by cases.\<close>

lemma prefaceStream_eq:
  assumes "prefaceStream ch i y = (e, y')"
  shows "y' = y\<lparr>mtStreams := mtStreams y', mtKnown := mtKnown y @ [i], mtCloses := mtCloses y @ (if e = None then [] else [i])\<rparr>"
  using assms by (auto simp: prefaceStream_def Let_def closeStreamOf_def split: option.splits prod.splits)

lemma closeBegin_cases:
  obtains "mtClosed y" "closeBegin y = y"
  | f where "\<not> mtClosed y" "closeBegin y = y\<lparr>mtStreams := f, mtClosed := True, mtCtxDone := True,
      mtCloses := mtCloses y @ map fst (mtPending y) @ registered y\<rparr>"
proof (cases "mtClosed y")
  case False
  let ?y = "y\<lparr>mtClosed := True, mtCtxDone := True\<rparr>"
  obtain f where f: "fold closeStreamOf (map fst (mtPending y)) ?y = ?y\<lparr>mtStreams := f, mtCloses := mtCloses y @ map fst (mtPending y)\<rparr>"
    using fold_close [of "map fst (mtPending y)" ?y] by auto
  obtain g where g: "fold closeStreamOf (registered y) (?y\<lparr>mtStreams := f, mtCloses := mtCloses y @ map fst (mtPending y)\<rparr>)
      = ?y\<lparr>mtStreams := g, mtCloses := mtCloses y @ map fst (mtPending y) @ registered y\<rparr>"
    using fold_close [of "registered y" "?y\<lparr>mtStreams := f, mtCloses := mtCloses y @ map fst (mtPending y)\<rparr>"] by auto
  have r: "registered ?y = registered y" by (simp add: registered_def)
  have "closeBegin y = y\<lparr>mtStreams := g, mtClosed := True, mtCtxDone := True, mtCloses := mtCloses y @ map fst (mtPending y) @ registered y\<rparr>"
    using False by (simp add: closeBegin_def Let_def r f g)
  with False show ?thesis by (rule that(2))
qed (simp add: closeBegin_def that)

lemma mset_map_filter_remove1:
  "x \<in> set xs \<Longrightarrow> mset (List.map_filter f xs) = mset (case f x of None \<Rightarrow> [] | Some z \<Rightarrow> [z]) + mset (List.map_filter f (remove1 x xs))"
  by (induction xs) (auto split: option.split)

definition inLoops :: "MultiStream \<Rightarrow> mtLease list" where
  "inLoops y = List.map_filter rlLease (mtLoops y)"

definition onChannel :: "mtLease \<Rightarrow> bool" where
  "onChannel l \<longleftrightarrow> (\<exists>h. DecodeHeader (mlData l) = Inr h \<and> hChannelID h = mlChannel l)"

text \<open>Every lease is in one place; what is on its way to the caller belongs to its channel; the channels of the
  transport stay within their capacities.\<close>

definition leasesInv :: "MultiStream \<Rightarrow> bool" where
  "leasesInv y \<longleftrightarrow> mset (map mlID (inLoops y @ mtReads y @ mtHanded y @ mtReleased y)) = mset [0..<mtNextLease y]
     \<and> (\<forall>l \<in># mset (inLoops y @ mtReads y @ mtHanded y). onChannel l)
     \<and> length (mtReads y) \<le> mtReadQueue y \<and> length (mtErrs y) \<le> 1"

lemma leasesInv_same:
  assumes "leasesInv y" "mtLoops y' = mtLoops y" "mtReads y' = mtReads y" "mtHanded y' = mtHanded y" "mtReleased y' = mtReleased y"
    "mtNextLease y' = mtNextLease y" "mtReadQueue y' = mtReadQueue y" "length (mtErrs y) \<le> Suc 0 \<Longrightarrow> length (mtErrs y') \<le> Suc 0"
  shows "leasesInv y'"
  using assms by (simp add: leasesInv_def inLoops_def)

lemma errs_report [simp]: "length (mtErrs y) \<le> Suc 0 \<Longrightarrow> length (mtErrs (reportErr e y)) \<le> Suc 0"
  by (simp add: reportErr_def)

lemma onStreams_fields:
  assumes "onStreams y y'"
  shows "mtLoops y' = mtLoops y" "mtReads y' = mtReads y" "mtHanded y' = mtHanded y" "mtReleased y' = mtReleased y"
    "mtNextLease y' = mtNextLease y" "mtReadQueue y' = mtReadQueue y" "mtErrs y' = mtErrs y" "mtOutgoing y' = mtOutgoing y"
    "mtIncoming y' = mtIncoming y" "mtPending y' = mtPending y" "mtOpeners y' = mtOpeners y" "mtAccept y' = mtAccept y"
    "mtTokens y' = mtTokens y" "mtPrefaceLimit y' = mtPrefaceLimit y" "mtClosed y' = mtClosed y" "mtDrained y' = mtDrained y"
    "mtKnown y' = mtKnown y" "mtGuard y' = mtGuard y" "\<exists>cs. mtCloses y' = mtCloses y @ cs"
proof -
  obtain f c where "y' = y\<lparr>mtStreams := f, mtCloses := c\<rparr>" using assms unfolding onStreams_def by blast
  then show "mtLoops y' = mtLoops y" "mtReads y' = mtReads y" "mtHanded y' = mtHanded y" "mtReleased y' = mtReleased y"
    "mtNextLease y' = mtNextLease y" "mtReadQueue y' = mtReadQueue y" "mtErrs y' = mtErrs y" "mtOutgoing y' = mtOutgoing y"
    "mtIncoming y' = mtIncoming y" "mtPending y' = mtPending y" "mtOpeners y' = mtOpeners y" "mtAccept y' = mtAccept y"
    "mtTokens y' = mtTokens y" "mtPrefaceLimit y' = mtPrefaceLimit y" "mtClosed y' = mtClosed y" "mtDrained y' = mtDrained y"
    "mtKnown y' = mtKnown y" "mtGuard y' = mtGuard y" by simp_all
qed (use assms in \<open>simp add: onStreams_def\<close>)

lemma wrapStream_fields [simp]:
  "mtOutgoing (wrapStream g i y) = mtOutgoing y" "mtIncoming (wrapStream g i y) = mtIncoming y" "mtPending (wrapStream g i y) = mtPending y"
  "mtOpeners (wrapStream g i y) = mtOpeners y" "mtAccept (wrapStream g i y) = mtAccept y" "mtTokens (wrapStream g i y) = mtTokens y"
  "mtPrefaceLimit (wrapStream g i y) = mtPrefaceLimit y" "mtReads (wrapStream g i y) = mtReads y" "mtReadQueue (wrapStream g i y) = mtReadQueue y"
  "mtLoops (wrapStream g i y) = mtLoops y" "mtClosed (wrapStream g i y) = mtClosed y" "mtDrained (wrapStream g i y) = mtDrained y"
  "mtNextLease (wrapStream g i y) = mtNextLease y" "mtReleased (wrapStream g i y) = mtReleased y" "mtHanded (wrapStream g i y) = mtHanded y"
  "mtKnown (wrapStream g i y) = mtKnown y" "mtCloses (wrapStream g i y) = mtCloses y" "mtErrs (wrapStream g i y) = mtErrs y"
  by (simp_all add: wrapStream_def)

lemmas accept_defs = acceptTake_def acceptReturned_def acceptFinish_def setStage_def acceptGuard_def acceptPreface_def
  acceptStreamPreface_def acceptStart_def startReadLoop_def

lemma leases_accept:
  assumes "leasesInv y"
  shows "leasesInv (acceptTake y)" "leasesInv (acceptReturned r y)" "leasesInv (acceptGuard i y)" "leasesInv (acceptPreface i g p y)"
    "leasesInv (startReadLoop ch i y)"
proof -
  have e: "length (mtErrs y) \<le> Suc 0" using assms by (simp add: leasesInv_def)
  show "leasesInv (acceptTake y)" "leasesInv (acceptReturned r y)" "leasesInv (acceptGuard i y)" "leasesInv (acceptPreface i g p y)"
    by (rule leasesInv_same [OF assms], use e in \<open>auto simp: accept_defs Let_def split: sum.split option.split prod.split\<close>)+
  have "inLoops (startReadLoop ch i y) = inLoops y" by (simp add: startReadLoop_def inLoops_def List.map_filter_def)
  with assms show "leasesInv (startReadLoop ch i y)"
    by (simp add: leasesInv_def startReadLoop_def)
qed


lemma leases_exit:
  assumes "leasesInv y" "rl \<in> set (mtLoops y)" "rlLease rl = None"
  shows "leasesInv (loopExit rl y)"
proof -
  have "mset (inLoops (loopExit rl y)) = mset (inLoops y)"
    using mset_map_filter_remove1 [OF assms(2), of rlLease] assms(3) by (simp add: inLoops_def loopExit_def)
  with assms(1) show ?thesis
    by (simp add: leasesInv_def loopExit_def removeStream_def Let_def del: set_mset_mset flip: set_mset_mset)
qed

lemma leases_report: "leasesInv y \<Longrightarrow> leasesInv (reportErr e y)"
  by (erule leasesInv_same) simp_all

lemma leases_streams: "leasesInv y \<Longrightarrow> onStreams y y' \<Longrightarrow> leasesInv y'"
  by (erule leasesInv_same) (simp_all add: onStreams_fields)

lemma loops_setLoop:
  assumes "rl \<in> set (mtLoops y)"
  shows "mset (inLoops (setLoop rl rl' y)) + mset (case rlLease rl of None \<Rightarrow> [] | Some z \<Rightarrow> [z])
    = mset (inLoops y) + mset (case rlLease rl' of None \<Rightarrow> [] | Some z \<Rightarrow> [z])"
  using mset_map_filter_remove1 [OF assms, of rlLease] by (simp add: inLoops_def setLoop_def split: option.split)

lemma leases_loopRead:
  assumes "leasesInv y" "rl \<in> set (mtLoops y)" "rlLease rl = None"
  shows "leasesInv (loopRead rl r y)"
proof (cases r)
  case (Inl err)
  then show ?thesis using assms by (auto simp: loopRead_def intro!: leases_exit leases_report)
next
  case (Inr data)
  define l where "l = \<lparr>mlID = mtNextLease y, mlStream = rlStream rl, mlChannel = rlChannel rl, mlData = data\<rparr>"
  define y1 where "y1 = y\<lparr>mtNextLease := mtNextLease y + 1\<rparr>"
  have rel: "leasesInv (releaseLease l y1)"
    using assms(1) by (simp add: leasesInv_def releaseLease_def y1_def l_def inLoops_def)
  have bad: "leasesInv (loopExit rl (reportErr e (releaseLease l y1)))" for e
    using assms by (intro leases_exit leases_report rel) (simp_all add: releaseLease_def y1_def)
  have "leasesInv (setLoop rl (rl\<lparr>rlLease := Some l\<rparr>) y1)" if "onChannel l"
  proof -
    have "mset (inLoops (setLoop rl (rl\<lparr>rlLease := Some l\<rparr>) y1)) = add_mset l (mset (inLoops y1))"
      using loops_setLoop [of rl y1 "rl\<lparr>rlLease := Some l\<rparr>"] assms(2,3) by (simp add: y1_def)
    moreover have "inLoops y1 = inLoops y" by (simp add: y1_def inLoops_def)
    ultimately show ?thesis
      using assms(1) that by (simp add: leasesInv_def setLoop_def y1_def l_def del: set_mset_mset flip: set_mset_mset)
  qed
  then have "onChannel l \<Longrightarrow> leasesInv (setLoop rl (rl\<lparr>rlLease := Some l\<rparr>) y1)" .
  moreover have "onChannel l \<longleftrightarrow> (\<exists>h. DecodeHeader data = Inr h \<and> hChannelID h = rlChannel rl)" by (simp add: onChannel_def l_def)
  moreover have "loopRead rl r y = (case DecodeHeader data of
      Inl e \<Rightarrow> loopExit rl (reportErr (case e of Err m \<Rightarrow> ErrInvalidFrame m [] | Errf m ns \<Rightarrow> ErrInvalidFrame m ns | GoPanic \<Rightarrow> OtherError GoPanic) (releaseLease l y1))
    | Inr header \<Rightarrow> if hChannelID header \<noteq> rlChannel rl
        then loopExit rl (reportErr (ErrInvalidFrame ''frame channel does not match stream preface'' [uint (hChannelID header), uint (rlChannel rl)]) (releaseLease l y1))
        else setLoop rl (rl\<lparr>rlLease := Some l\<rparr>) y1)"
    unfolding loopRead_def Inr sum.case Let_def l_def y1_def ..
  ultimately show ?thesis using bad by (simp split: sum.split)
qed

lemma leases_loopMoves:
  assumes "leasesInv y" "rl \<in> set (mtLoops y)" "rlLease rl = Some l"
  shows "length (mtReads y) < mtReadQueue y \<Longrightarrow> leasesInv (loopEnqueue rl l y)" "leasesInv (loopCancelled rl l y)"
proof -
  have m: "mset (inLoops y) = add_mset l (mset (List.map_filter rlLease (remove1 rl (mtLoops y))))"
    using mset_map_filter_remove1 [OF assms(2), of rlLease] assms(3) by (simp add: inLoops_def)
  have "mset (inLoops (loopEnqueue rl l y)) = mset (List.map_filter rlLease (remove1 rl (mtLoops y)))"
    by (simp add: inLoops_def loopEnqueue_def setLoop_def)
  then show "length (mtReads y) < mtReadQueue y \<Longrightarrow> leasesInv (loopEnqueue rl l y)"
    using assms(1) m by (simp add: leasesInv_def loopEnqueue_def setLoop_def del: set_mset_mset flip: set_mset_mset)
  have "mset (inLoops (loopCancelled rl l y)) = mset (List.map_filter rlLease (remove1 rl (mtLoops y)))"
    by (simp add: inLoops_def loopCancelled_def loopExit_def releaseLease_def)
  then show "leasesInv (loopCancelled rl l y)"
    using assms(1) m by (simp add: leasesInv_def loopCancelled_def loopExit_def releaseLease_def removeStream_def Let_def del: set_mset_mset flip: set_mset_mset)
qed

lemma leases_read:
  assumes "leasesInv y"
  shows "ReadFrameLeaseMulti choice y = Some (r, y') \<Longrightarrow> leasesInv y'" "ReadFrameMulti choice y = Some (b, y') \<Longrightarrow> leasesInv y'"
proof -
  show "ReadFrameLeaseMulti choice y = Some (r, y') \<Longrightarrow> leasesInv y'"
    using assms by (cases choice) (auto simp: ReadFrameLeaseMulti_def leasesInv_def inLoops_def split: list.splits if_splits)
  show "ReadFrameMulti choice y = Some (b, y') \<Longrightarrow> leasesInv y'"
    using assms by (cases choice) (auto simp: ReadFrameMulti_def ReadFrameLeaseMulti_def releaseLease_def leasesInv_def inLoops_def split: list.splits if_splits)
qed

lemma leases_step: "ms_step y y' \<Longrightarrow> leasesInv y \<Longrightarrow> leasesInv y'"
proof (induction rule: ms_step.induct)
  case (open_prefaced y ch i e y')
  obtain f cs where "y' = y\<lparr>mtStreams := f, mtKnown := mtKnown y @ [i], mtCloses := cs\<rparr>"
    by (rule that [OF prefaceStream_eq [OF open_prefaced(3)]])
  then show ?case by (intro leasesInv_same [OF open_prefaced(4)]) simp_all
next
  case (open_registered y ch i r y')
  then show ?case
    by (intro leasesInv_same [OF open_registered(3)]) (auto simp: registerStream_def split: if_splits option.splits)
next
  case (open_started y ch i)
  show ?case by (rule leasesInv_same [OF leases_accept(5) [OF open_started(2), of ch i]]) simp_all
next
  case (deadline d order y e y')
  then have "onStreams (y\<lparr>mtWriteDeadline := d\<rparr>) y'"
    using setDeadlines_onStreams by (metis SetWriteDeadlineMulti_def snd_conv)
  moreover have "leasesInv (y\<lparr>mtWriteDeadline := d\<rparr>)" by (rule leasesInv_same [OF deadline(2)]) simp_all
  ultimately show ?case using leases_streams by blast
next
  case (limit y m)
  have "leasesInv (y\<lparr>mtGuard := (mtGuard y)\<lparr>slMaxFrameBytes := clampMaxFrame m\<rparr>\<rparr>)" by (rule leasesInv_same [OF limit]) simp_all
  then show ?case unfolding SetMaxFrameBytesMulti_def Let_def by (rule leases_streams) (rule fold_onStreams, simp)
next
  case (accept_preface i guard y y')
  have "leasesInv (y\<lparr>mtStreams := f\<rparr>)" for f by (rule leasesInv_same [OF accept_preface(3)]) simp_all
  with accept_preface(2) show ?case by (auto simp: acceptStreamPreface_def Let_def intro!: leases_accept)
next
  case (accept_start i ch y)
  show ?case
    by (rule leasesInv_same [OF leases_accept(5) [OF accept_start(2), of ch i]]) (simp_all add: acceptStart_def acceptFinish_def)
next
  case (loop_read rl y pooled r t)
  then show ?case by (intro leases_loopRead leases_streams [OF loop_read(4)]) simp_all
next
  case (close_begin y)
  show ?case by (cases rule: closeBegin_cases [of y]) (use close_begin in \<open>simp_all add: leasesInv_def inLoops_def\<close>)
next
  case (close_end y)
  then show ?case by (simp add: leasesInv_def closeDrain_def inLoops_def ac_simps)
qed ((erule leasesInv_same; simp; fail) | blast intro: leases_read leases_accept leases_loopMoves)+

text \<open>Whose a stream is that was not closed: in the hands of a caller that opens it, of the goroutine that accepted it, or
  registered for a channel. After \<open>Close\<close> only the first kind is left.\<close>

definition openerStream :: "opener option \<Rightarrow> nat option" where
  "openerStream p = (case p of Some (Prefaced i) \<Rightarrow> Some i | Some (Wrapped i) \<Rightarrow> Some i | _ \<Rightarrow> None)"

definition opened :: "MultiStream \<Rightarrow> nat set" where
  "opened y = {i. \<exists>ch. openerStream (mtOpeners y ch) = Some i}"

definition inMaps :: "MultiStream \<Rightarrow> nat set" where
  "inMaps y = ran (mtIncoming y) \<union> ran (mtOutgoing y)"

definition owned :: "MultiStream \<Rightarrow> nat set" where
  "owned y = set (mtCloses y) \<union> opened y \<union> (if mtClosed y then {} else fst ` set (mtPending y) \<union> inMaps y)"

definition channelsOk :: "MultiStream \<Rightarrow> bool" where
  "channelsOk y \<longleftrightarrow> dom (mtIncoming y) \<union> dom (mtOutgoing y) \<union> dom (mtOpeners y) \<subseteq> {ch. validChannel ch}"

definition startsOk :: "MultiStream \<Rightarrow> bool" where
  "startsOk y \<longleftrightarrow> (\<forall>i ch. (i, StartLoop ch) \<in> set (mtPending y) \<longrightarrow> i \<in> set (mtCloses y) \<or> mtIncoming y ch = Some i)"

definition tokensOk :: "MultiStream \<Rightarrow> bool" where
  "tokensOk y \<longleftrightarrow> distinct (map fst (mtPending y)) \<and> fst ` set (mtPending y) \<subseteq> set (mtKnown y)
     \<and> mtTokens y = length (mtPending y) + (if mtAccept y = InAccept then 1 else 0) \<and> mtTokens y \<le> mtPrefaceLimit y"

definition drainedOk :: "MultiStream \<Rightarrow> bool" where
  "drainedOk y \<longleftrightarrow> (mtDrained y \<longrightarrow> mtClosed y \<and> mtReads y = [] \<and> mtLoops y = [] \<and> mtPending y = [])"

lemma valid_all: "validChannel ch \<longleftrightarrow> ch \<in> set allChannels"
proof -
  have "ch \<le> 4 \<longleftrightarrow> unat ch \<le> 4" by (simp add: word_le_nat_alt)
  also have "\<dots> \<longleftrightarrow> unat ch = 0 \<or> unat ch = 1 \<or> unat ch = 2 \<or> unat ch = 3 \<or> unat ch = 4" by linarith
  also have "\<dots> \<longleftrightarrow> ch = 0 \<or> ch = 1 \<or> ch = 2 \<or> ch = 3 \<or> ch = 4" by (simp add: word_unat_eq_iff)
  finally show ?thesis by (simp add: validChannel_def allChannels_def)
qed

lemma set_map_filter: "set (List.map_filter f xs) = {z. \<exists>x \<in> set xs. f x = Some z}"
  by (induction xs) (auto split: option.split)

lemma registered_maps: "channelsOk y \<Longrightarrow> set (registered y) = inMaps y"
  by (auto simp: registered_def inMaps_def channelsOk_def valid_all set_map_filter ran_def dom_def subset_iff)

subsection \<open>Channels and drained queues\<close>

lemma channels_same:
  "channelsOk y \<Longrightarrow> mtIncoming y' = mtIncoming y \<Longrightarrow> mtOutgoing y' = mtOutgoing y \<Longrightarrow> mtOpeners y' = mtOpeners y \<Longrightarrow> channelsOk y'"
  by (simp add: channelsOk_def)

lemmas loop_defs = loopRead_def loopEnqueue_def loopCancelled_def loopExit_def setLoop_def removeStream_def releaseLease_def

lemma loopExit_maps: "mtIncoming (loopExit rl y) \<subseteq>\<^sub>m mtIncoming y" "mtOutgoing (loopExit rl y) \<subseteq>\<^sub>m mtOutgoing y" "mtOpeners (loopExit rl y) = mtOpeners y"
  by (auto simp: loopExit_def removeStream_def Let_def map_le_def)

lemma loopRead_fields:
  "mtPending (loopRead rl r y) = mtPending y" "mtOpeners (loopRead rl r y) = mtOpeners y" "mtTokens (loopRead rl r y) = mtTokens y"
  "mtAccept (loopRead rl r y) = mtAccept y" "mtPrefaceLimit (loopRead rl r y) = mtPrefaceLimit y" "mtClosed (loopRead rl r y) = mtClosed y"
  "mtDrained (loopRead rl r y) = mtDrained y" "mtKnown (loopRead rl r y) = mtKnown y" "mtReads (loopRead rl r y) = mtReads y"
  by (simp_all add: loop_defs Let_def split: sum.split)

lemma loopExit_fields:
  "mtPending (loopExit rl y) = mtPending y" "mtOpeners (loopExit rl y) = mtOpeners y" "mtTokens (loopExit rl y) = mtTokens y"
  "mtAccept (loopExit rl y) = mtAccept y" "mtPrefaceLimit (loopExit rl y) = mtPrefaceLimit y" "mtClosed (loopExit rl y) = mtClosed y"
  "mtDrained (loopExit rl y) = mtDrained y" "mtKnown (loopExit rl y) = mtKnown y" "mtReads (loopExit rl y) = mtReads y"
  "mtCloses (loopExit rl y) = mtCloses y @ [rlStream rl]" "mtLoops (loopExit rl y) = remove1 rl (mtLoops y)"
  "mtIncoming (loopExit rl y) = (if mtIncoming y (rlChannel rl) = Some (rlStream rl) then (mtIncoming y)(rlChannel rl := None) else mtIncoming y)"
  "mtOutgoing (loopExit rl y) = (if mtOutgoing y (rlChannel rl) = Some (rlStream rl) then (mtOutgoing y)(rlChannel rl := None) else mtOutgoing y)"
  by (simp_all add: loopExit_def removeStream_def Let_def)

definition ownInv :: "MultiStream \<Rightarrow> bool" where
  "ownInv y \<longleftrightarrow> set (mtKnown y) \<subseteq> owned y \<and> channelsOk y \<and> startsOk y \<and> tokensOk y \<and> drainedOk y"

lemmas own_defs = channelsOk_def startsOk_def tokensOk_def drainedOk_def

text \<open>A step that touches no stream of anybody.\<close>

lemma ownInv_same:
  assumes "ownInv y" "mtKnown y' = mtKnown y" "mtOpeners y' = mtOpeners y" "mtClosed y' = mtClosed y" "mtPending y' = mtPending y"
    "mtIncoming y' = mtIncoming y" "mtOutgoing y' = mtOutgoing y" "set (mtCloses y) \<subseteq> set (mtCloses y')" "mtTokens y' = mtTokens y"
    "mtAccept y = InAccept \<longleftrightarrow> mtAccept y' = InAccept" "mtPrefaceLimit y' = mtPrefaceLimit y"
    "mtDrained y' = mtDrained y" "mtDrained y \<Longrightarrow> mtReads y = [] \<Longrightarrow> mtReads y' = []" "mtDrained y \<Longrightarrow> mtLoops y = [] \<Longrightarrow> mtLoops y' = []"
  shows "ownInv y'"
proof -
  have "owned y \<subseteq> owned y'" using assms by (auto simp: owned_def opened_def inMaps_def)
  moreover have "startsOk y'" using assms(1,5,6,8) unfolding ownInv_def startsOk_def by auto
  moreover have "channelsOk y'" "tokensOk y'" "drainedOk y'" using assms by (auto simp: ownInv_def channelsOk_def tokensOk_def drainedOk_def)
  ultimately show ?thesis using assms(1,2) by (auto simp: ownInv_def)
qed

lemma own_streams: "ownInv y \<Longrightarrow> onStreams y y' \<Longrightarrow> ownInv y'"
  by (rule ownInv_same [of y]) (auto simp: onStreams_fields dest: onStreams_fields(19))

lemma ran_clear: "x \<in> ran m \<Longrightarrow> x \<noteq> i \<Longrightarrow> x \<in> ran (if m c = Some i then m(c := None) else m)"
  unfolding ran_def by (cases "m c = Some i") (auto, metis option.sel)

lemma own_exit:
  assumes "ownInv y" "rl \<in> set (mtLoops y)"
  shows "ownInv (loopExit rl y)"
proof -
  have "inMaps y \<subseteq> insert (rlStream rl) (inMaps (loopExit rl y))"
    unfolding inMaps_def loopExit_fields(12,13)
    using ran_clear [of _ "mtIncoming y" "rlStream rl" "rlChannel rl"] ran_clear [of _ "mtOutgoing y" "rlStream rl" "rlChannel rl"] by blast
  moreover have "opened (loopExit rl y) = opened y" by (simp add: opened_def loopExit_fields(2))
  ultimately have "owned y \<subseteq> owned (loopExit rl y)"
    by (cases "mtClosed y") (auto simp: owned_def loopExit_fields(1,6,10))
  moreover have "startsOk (loopExit rl y)"
    unfolding startsOk_def
  proof (intro allI impI)
    fix i ch
    assume "(i, StartLoop ch) \<in> set (mtPending (loopExit rl y))"
    then have "i \<in> set (mtCloses y) \<or> mtIncoming y ch = Some i" using assms(1) by (simp add: ownInv_def startsOk_def loopExit_fields)
    then show "i \<in> set (mtCloses (loopExit rl y)) \<or> mtIncoming (loopExit rl y) ch = Some i" by (auto simp: loopExit_fields)
  qed
  moreover have "channelsOk (loopExit rl y)" "tokensOk (loopExit rl y)" "drainedOk (loopExit rl y)"
    using assms by (auto simp: ownInv_def channelsOk_def tokensOk_def drainedOk_def loopExit_fields subset_iff dom_def)
  ultimately show ?thesis using assms(1) by (auto simp: ownInv_def loopExit_fields)
qed

lemma own_loopRead:
  assumes "ownInv y" "rl \<in> set (mtLoops y)"
  shows "ownInv (loopRead rl r y)"
proof -
  have same: "ownInv (y\<lparr>mtNextLease := n, mtReleased := ls\<rparr>)" "ownInv (y\<lparr>mtNextLease := n, mtLoops := rls\<rparr>)" for n ls rls
    by (rule ownInv_same [OF assms(1)], use assms(2) in simp_all)+
  have report: "ownInv (reportErr e z)" if "ownInv z" for e z by (rule ownInv_same [OF that]) simp_all
  show ?thesis
    using assms by (cases r) (auto simp: loopRead_def Let_def releaseLease_def setLoop_def intro!: own_exit report same split: sum.split)
qed

lemma opened_upd:
  "opened y \<subseteq> opened (y'\<lparr>mtOpeners := (mtOpeners y)(ch := p)\<rparr>) \<union> {i. openerStream (mtOpeners y ch) = Some i}"
  "openerStream p = Some i \<Longrightarrow> i \<in> opened (y'\<lparr>mtOpeners := (mtOpeners y)(ch := p)\<rparr>)"
  by (auto simp: opened_def)

text \<open>A step of an opener: its stream is closed, kept or registered.\<close>

lemma own_opener:
  assumes "ownInv y" "validChannel ch" "mtKnown y' = mtKnown y" "mtClosed y' = mtClosed y" "mtPending y' = mtPending y"
    "mtIncoming y' = mtIncoming y" "mtOutgoing y \<subseteq>\<^sub>m mtOutgoing y'" "dom (mtOutgoing y') \<subseteq> insert ch (dom (mtOutgoing y))"
    "set (mtCloses y) \<subseteq> set (mtCloses y')" "mtTokens y' = mtTokens y"
    "mtAccept y' = mtAccept y" "mtPrefaceLimit y' = mtPrefaceLimit y" "mtDrained y' = mtDrained y" "mtReads y' = mtReads y"
    "mtDrained y \<Longrightarrow> mtLoops y' = mtLoops y"
    "\<And>i. openerStream (mtOpeners y ch) = Some i \<Longrightarrow> openerStream p = Some i \<or> i \<in> set (mtCloses y') \<or> \<not> mtClosed y' \<and> i \<in> ran (mtOutgoing y')"
  shows "ownInv (y'\<lparr>mtOpeners := (mtOpeners y)(ch := p)\<rparr>)"
proof -
  let ?y = "y'\<lparr>mtOpeners := (mtOpeners y)(ch := p)\<rparr>"
  have "ran (mtOutgoing y) \<subseteq> ran (mtOutgoing y')" using assms(7) by (auto simp: ran_def map_le_def dom_def) (metis option.distinct(1))
  moreover have "opened y \<subseteq> opened ?y \<union> set (mtCloses y') \<union> (if mtClosed y' then {} else ran (mtOutgoing y'))"
  proof
    fix x
    assume "x \<in> opened y"
    then consider "x \<in> opened ?y" | "openerStream (mtOpeners y ch) = Some x" using opened_upd(1) [where y' = y' and p = p] by blast
    then show "x \<in> opened ?y \<union> set (mtCloses y') \<union> (if mtClosed y' then {} else ran (mtOutgoing y'))"
      using opened_upd(2) [of p x] assms(16) [of x] by cases auto
  qed
  ultimately have "owned y \<subseteq> owned ?y"
    using assms(4-6,9) unfolding owned_def inMaps_def by (cases "mtClosed y") auto
  moreover have "startsOk ?y" using assms(1,5,6,9) unfolding ownInv_def startsOk_def by auto
  moreover have "channelsOk ?y" using assms(1,2,6,8) unfolding ownInv_def channelsOk_def by (simp add: dom_fun_upd subset_iff) blast
  moreover have "tokensOk ?y" "drainedOk ?y" using assms by (simp_all add: ownInv_def tokensOk_def drainedOk_def)
  ultimately show ?thesis using assms(1,3) by (auto simp: ownInv_def)
qed

lemma own_report: "ownInv y \<Longrightarrow> ownInv (reportErr e y)"
  by (rule ownInv_same [of y]) simp_all

text \<open>A step of the goroutine of an accepted stream: it ends with its stream closed or registered, or goes on.\<close>

lemma own_finish:
  assumes "ownInv y" "i \<in> fst ` set (mtPending y)" "i \<in> set (mtCloses y) \<or> \<not> mtClosed y \<and> i \<in> inMaps y"
  shows "ownInv (acceptFinish i y)"
proof -
  let ?y = "acceptFinish i y"
  have f: "mtKnown ?y = mtKnown y" "mtCloses ?y = mtCloses y" "mtClosed ?y = mtClosed y" "mtOpeners ?y = mtOpeners y" "mtIncoming ?y = mtIncoming y"
    "mtOutgoing ?y = mtOutgoing y" "mtPending ?y = filter (\<lambda>p. fst p \<noteq> i) (mtPending y)" "mtAccept ?y = mtAccept y"
    "mtTokens ?y = mtTokens y - 1" "mtPrefaceLimit ?y = mtPrefaceLimit y" "mtDrained ?y = mtDrained y" "mtReads ?y = mtReads y" "mtLoops ?y = mtLoops y"
    by (simp_all add: acceptFinish_def)
  have own: "owned y \<subseteq> owned ?y"
    using assms(3) by (cases "mtClosed y") (auto simp: owned_def opened_def inMaps_def f)
  have ok: "startsOk ?y" "channelsOk ?y" "drainedOk ?y"
    using assms(1) by (auto simp: ownInv_def startsOk_def channelsOk_def drainedOk_def f)
  have "length (filter (\<lambda>p. fst p \<noteq> i) xs) = length xs - 1" if "distinct (map fst xs)" "i \<in> fst ` set xs" for xs :: "(nat \<times> acceptStage) list"
    using that
  proof (induction xs)
    case (Cons x xs)
    then show ?case
    proof (cases "fst x = i")
      case True
      then have "\<forall>p \<in> set xs. fst p \<noteq> i" using Cons.prems(1) by (auto simp: image_iff)
      then show ?thesis using True by (simp add: filter_id_conv)
    next
      case False
      then have "i \<in> fst ` set xs" using Cons.prems(2) by auto
      with False Cons show ?thesis by (cases xs) auto
    qed
  qed simp
  moreover have "0 < length (mtPending y)" using assms(2) by (cases "mtPending y") auto
  ultimately have "tokensOk ?y"
    using assms(1,2) by (auto simp: ownInv_def tokensOk_def f distinct_map_filter)
  then show ?thesis using assms(1) own ok by (auto simp: ownInv_def f)
qed

lemma own_stage:
  assumes "ownInv y" "\<And>ch. stage = StartLoop ch \<Longrightarrow> mtIncoming y ch = Some i"
  shows "ownInv (setStage i stage y)"
proof -
  let ?y = "setStage i stage y"
  have m: "map fst (mtPending ?y) = map fst (mtPending y)" by (simp add: setStage_def)
  then have f: "fst ` set (mtPending ?y) = fst ` set (mtPending y)" "length (mtPending ?y) = length (mtPending y)"
    by (metis image_set, metis length_map)
  have "owned ?y = owned y" using f by (simp add: owned_def opened_def inMaps_def setStage_def)
  moreover have "tokensOk ?y"
    using assms(1) f unfolding ownInv_def tokensOk_def m by (simp add: setStage_def)
  moreover have "channelsOk ?y" "drainedOk ?y"
    using assms(1) by (auto simp: ownInv_def channelsOk_def drainedOk_def setStage_def)
  moreover have "startsOk ?y"
    using assms by (auto simp: ownInv_def startsOk_def setStage_def split: if_splits)
  ultimately show ?thesis using assms(1) by (simp add: ownInv_def setStage_def)
qed

lemma own_close: "ownInv y \<Longrightarrow> ownInv (closeStreamOf i y)"
  by (rule own_streams [of y]) simp_all

lemma own_acceptPreface:
  assumes "ownInv y" "i \<in> fst ` set (mtPending y)"
  shows "ownInv (acceptPreface i guard r y)"
proof -
  have fin: "ownInv (acceptFinish i (reportErr e (closeStreamOf i y')))" "ownInv (acceptFinish i (closeStreamOf i y'))"
    if "ownInv y'" "mtPending y' = mtPending y" for e y'
    using that assms(2) by (auto intro!: own_finish own_report own_close)
  have w: "ownInv (wrapStream guard i y)" using assms(1) by (rule own_streams) simp
  have reg: "ownInv ((wrapStream guard i y)\<lparr>mtIncoming := (mtIncoming y)(ch \<mapsto> i)\<rparr>)"
    if "mtIncoming y ch = None" "validChannel ch" "\<not> mtClosed y" for ch
  proof -
    let ?y = "(wrapStream guard i y)\<lparr>mtIncoming := (mtIncoming y)(ch \<mapsto> i)\<rparr>"
    have "owned y \<subseteq> owned ?y" using that(1,3) by (auto simp: owned_def opened_def inMaps_def ran_map_upd)
    moreover have "startsOk ?y" using assms(1) that(1) unfolding ownInv_def startsOk_def by (simp; metis option.distinct(1))
    moreover have "channelsOk ?y" "tokensOk ?y" "drainedOk ?y"
      using assms(1) that by (auto simp: ownInv_def channelsOk_def tokensOk_def drainedOk_def split: if_splits)
    ultimately show ?thesis using assms(1) by (auto simp: ownInv_def)
  qed
  show ?thesis
    using assms fin [of y] fin [of "wrapStream guard i y"] w
    by (auto simp: acceptPreface_def Let_def intro!: own_stage reg split: sum.split option.split)
qed

lemma own_start:
  assumes "ownInv y"
  shows "ownInv (startReadLoop ch i y)"
  using assms
proof (cases "mtClosed y")
  case True
  then show ?thesis using assms by (simp add: startReadLoop_def own_close)
next
  case False
  then have "\<not> mtDrained y" using assms by (auto simp: ownInv_def drainedOk_def)
  then show ?thesis using False by (intro ownInv_same [OF assms]) (simp_all add: startReadLoop_def)
qed

lemma own_acceptReturned:
  assumes "ownInv y" "mtAccept y = InAccept" "\<forall>i. r = Inr i \<longrightarrow> i \<notin> set (mtKnown y)"
  shows "ownInv (acceptReturned r y)"
proof (cases r)
  case (Inl e)
  have "ownInv (y\<lparr>mtTokens := mtTokens y - 1, mtAccept := AcceptEnded\<rparr>)"
    using assms(1,2) by (auto simp: ownInv_def startsOk_def channelsOk_def tokensOk_def drainedOk_def owned_def opened_def inMaps_def)
  then show ?thesis using Inl by (auto simp: acceptReturned_def Let_def intro: own_report)
next
  case (Inr i)
  then have i: "i \<notin> set (mtKnown y)" using assms(3) by simp
  let ?a = "(closeStreamOf i (y\<lparr>mtKnown := mtKnown y @ [i]\<rparr>))\<lparr>mtTokens := mtTokens y - 1, mtAccept := AcceptEnded\<rparr>"
  let ?b = "y\<lparr>mtKnown := mtKnown y @ [i], mtPending := mtPending y @ [(i, Accepted)], mtAccept := TakeToken\<rparr>"
  have "ownInv ?a"
  proof -
    have "insert i (owned y) \<subseteq> owned ?a" by (auto simp: owned_def opened_def inMaps_def)
    moreover have "startsOk ?a" "channelsOk ?a" "tokensOk ?a" "drainedOk ?a"
      using assms(1,2) by (auto simp: ownInv_def startsOk_def channelsOk_def tokensOk_def drainedOk_def)
    ultimately show ?thesis using assms(1) by (auto simp: ownInv_def)
  qed
  moreover have "ownInv ?b" if "\<not> mtClosed y"
  proof -
    have "insert i (owned y) \<subseteq> owned ?b" using that by (auto simp: owned_def opened_def inMaps_def)
    moreover have "startsOk ?b" "channelsOk ?b" "tokensOk ?b" "drainedOk ?b"
      using assms(1,2) i that by (auto simp: ownInv_def startsOk_def channelsOk_def tokensOk_def drainedOk_def)
    ultimately show ?thesis using assms(1) by (auto simp: ownInv_def)
  qed
  ultimately show ?thesis using Inr by (simp add: acceptReturned_def Let_def)
qed

lemma pending_ids: "(i, stage) \<in> set (mtPending y) \<Longrightarrow> i \<in> fst ` set (mtPending y)"
  by force

lemma own_acceptGuard:
  assumes "ownInv y" "i \<in> fst ` set (mtPending y)"
  shows "ownInv (acceptGuard i y)"
proof -
  have "ownInv (acceptFinish i (reportErr e (closeStreamOf i y)))" for e
    using assms by (intro own_finish own_report own_close) simp_all
  moreover have "ownInv (y\<lparr>mtStreams := f\<rparr>)" for f by (rule own_streams [OF assms(1)]) simp
  ultimately show ?thesis
    using assms(1) by (auto simp: acceptGuard_def Let_def intro!: own_stage split: option.split prod.split)
qed

lemma own_closeBegin:
  assumes "ownInv y"
  shows "ownInv (closeBegin y)"
proof (cases rule: closeBegin_cases [of y])
  case (2 f)
  let ?y = "y\<lparr>mtStreams := f, mtClosed := True, mtCtxDone := True, mtCloses := mtCloses y @ map fst (mtPending y) @ registered y\<rparr>"
  have "owned y \<subseteq> owned ?y"
    using 2(1) registered_maps [of y] assms by (auto simp: owned_def opened_def ownInv_def)
  moreover have "startsOk ?y" "channelsOk ?y" "tokensOk ?y" "drainedOk ?y"
    using assms by (auto simp: ownInv_def startsOk_def channelsOk_def tokensOk_def drainedOk_def)
  ultimately show ?thesis using assms 2(2) by (auto simp: ownInv_def)
qed (use assms in simp)

lemma own_known:
  assumes "ownInv z" "i \<in> owned z"
  shows "ownInv (z\<lparr>mtKnown := mtKnown z @ [i]\<rparr>)"
proof -
  let ?z = "z\<lparr>mtKnown := mtKnown z @ [i]\<rparr>"
  have "owned ?z = owned z" by (simp add: owned_def opened_def inMaps_def)
  moreover have "startsOk ?z" "channelsOk ?z" "tokensOk ?z" "drainedOk ?z"
    using assms(1) by (auto simp: ownInv_def startsOk_def channelsOk_def tokensOk_def drainedOk_def)
  ultimately show ?thesis using assms by (simp add: ownInv_def)
qed

lemma own_step: "ms_step y y' \<Longrightarrow> ownInv y \<Longrightarrow> ownInv y'"
proof (induction rule: ms_step.induct)
  case (open_begin ch y)
  then show ?case by (intro own_opener) (auto simp: openerStream_def)
next
  case (open_fails y ch)
  then have "validChannel ch" by (auto simp: ownInv_def channelsOk_def subset_iff)
  with open_fails show ?case by (intro own_opener) (auto simp: openerStream_def)
next
  case (open_prefaced y ch i e y')
  then have v: "validChannel ch" by (auto simp: ownInv_def channelsOk_def subset_iff)
  obtain f where y': "y' = y\<lparr>mtStreams := f, mtKnown := mtKnown y @ [i], mtCloses := mtCloses y @ (if e = None then [] else [i])\<rparr>"
    by (rule that [OF prefaceStream_eq [OF open_prefaced(3)]])
  define p where "p = (if e = None then Some (Prefaced i) else None)"
  let ?z = "y\<lparr>mtStreams := f, mtCloses := mtCloses y @ (if e = None then [] else [i]), mtOpeners := (mtOpeners y)(ch := p)\<rparr>"
  have z: "ownInv ?z"
    using open_prefaced own_opener [OF open_prefaced(4) v, of "y\<lparr>mtStreams := f, mtCloses := mtCloses y @ (if e = None then [] else [i])\<rparr>" p]
    by (simp add: openerStream_def subset_insertI)
  moreover have "i \<in> owned ?z"
    using opened_upd(2) [where p = p and i = i and y = y and ch = ch and y' = "y\<lparr>mtStreams := f, mtCloses := mtCloses y @ (if e = None then [] else [i])\<rparr>"]
    by (cases e) (simp_all add: owned_def p_def openerStream_def)
  ultimately have "ownInv (?z\<lparr>mtKnown := mtKnown ?z @ [i]\<rparr>)" by (rule own_known)
  moreover have "y'\<lparr>mtOpeners := (mtOpeners y)(ch := p)\<rparr> = ?z\<lparr>mtKnown := mtKnown ?z @ [i]\<rparr>" unfolding y' by simp
  ultimately show ?case unfolding p_def by metis
next
  case (open_wrapped y ch i)
  then have "validChannel ch" by (auto simp: ownInv_def channelsOk_def subset_iff)
  with open_wrapped show ?case by (intro own_opener) (auto simp: openerStream_def)
next
  case (open_registered y ch i r y')
  then have v: "validChannel ch" by (auto simp: ownInv_def channelsOk_def subset_iff)
  have "mtOutgoing y \<subseteq>\<^sub>m (mtOutgoing y)(ch \<mapsto> i)" if "mtOutgoing y ch = None" using that by (simp add: map_le_def dom_def)
  with open_registered v show ?case
    by (intro own_opener) (auto simp: registerStream_def openerStream_def ran_def split: if_splits option.splits)
next
  case (open_started y ch i)
  then have v: "validChannel ch" by (auto simp: ownInv_def channelsOk_def subset_iff)
  have "ownInv (startReadLoop ch i y)" using open_started by (simp add: own_start)
  moreover have "mtOpeners (startReadLoop ch i y) = mtOpeners y" by (simp add: startReadLoop_def)
  ultimately show ?case
    using own_opener [of "startReadLoop ch i y" ch "startReadLoop ch i y" None] v open_started(1) by (simp add: openerStream_def subset_insertI)
next
  case (deadline d order y e y')
  then have "onStreams (y\<lparr>mtWriteDeadline := d\<rparr>) y'"
    using setDeadlines_onStreams by (metis SetWriteDeadlineMulti_def snd_conv)
  moreover have "ownInv (y\<lparr>mtWriteDeadline := d\<rparr>)" by (rule ownInv_same [OF deadline(2)]) simp_all
  ultimately show ?case using own_streams by blast
next
  case (limit y m)
  have "ownInv (y\<lparr>mtGuard := (mtGuard y)\<lparr>slMaxFrameBytes := clampMaxFrame m\<rparr>\<rparr>)" by (rule ownInv_same [OF limit]) simp_all
  then show ?case unfolding SetMaxFrameBytesMulti_def Let_def by (rule own_streams) (rule fold_onStreams, simp)
next
  case (take_token y)
  then show ?case
    by (auto simp: acceptTake_def ownInv_def startsOk_def channelsOk_def tokensOk_def drainedOk_def owned_def opened_def inMaps_def)
next
  case (accepts y result)
  then show ?case by (simp add: own_acceptReturned)
next
  case (accept_guard i y)
  then show ?case by (simp add: own_acceptGuard pending_ids)
next
  case (accept_preface i guard y y')
  have "ownInv (y\<lparr>mtStreams := f\<rparr>)" for f by (rule own_streams [OF accept_preface(3)]) simp
  with accept_preface show ?case by (auto simp: acceptStreamPreface_def Let_def intro!: own_acceptPreface pending_ids)
next
  case (accept_start i ch y)
  then have "i \<in> set (mtCloses y) \<or> mtIncoming y ch = Some i" by (simp add: ownInv_def startsOk_def)
  then have "i \<in> set (mtCloses (startReadLoop ch i y)) \<or> \<not> mtClosed (startReadLoop ch i y) \<and> i \<in> inMaps (startReadLoop ch i y)"
    by (auto simp: startReadLoop_def inMaps_def ran_def)
  moreover have "mtPending (startReadLoop ch i y) = mtPending y" by (simp add: startReadLoop_def)
  ultimately show ?case
    unfolding acceptStart_def using accept_start by (intro own_finish own_start) (auto intro: pending_ids)
next
  case (loop_read rl y pooled r t)
  then show ?case by (intro own_loopRead own_streams [OF loop_read(4)]) simp_all
next
  case (loop_enqueue rl y l)
  then have "\<not> mtDrained y" by (auto simp: ownInv_def drainedOk_def)
  then show ?case by (intro ownInv_same [OF loop_enqueue(4)]) (simp_all add: loopEnqueue_def setLoop_def)
next
  case (loop_cancelled rl y l)
  have "ownInv (releaseLease l y)" by (rule ownInv_same [OF loop_cancelled(4)]) (simp_all add: releaseLease_def)
  with loop_cancelled show ?case unfolding loopCancelled_def by (intro own_exit) (simp_all add: releaseLease_def)
next
  case (read choice y r y')
  then show ?case
    by (intro ownInv_same [OF read(2)]) (auto simp: ReadFrameLeaseMulti_def split: readChoice.splits list.splits if_splits)
next
  case (read_copy choice y b y')
  then show ?case
    by (intro ownInv_same [OF read_copy(2)])
      (auto simp: ReadFrameMulti_def ReadFrameLeaseMulti_def releaseLease_def split: readChoice.splits list.splits if_splits)
next
  case (close_begin y)
  then show ?case by (simp add: own_closeBegin)
next
  case (close_end y)
  then show ?case
    by (auto simp: closeDrain_def ownInv_def startsOk_def channelsOk_def tokensOk_def drainedOk_def owned_def opened_def inMaps_def)
qed ((erule ownInv_same; simp; fail) | simp)+

lemma ms_reachable_inv:
  assumes "ms_reachable y"
  shows "leasesInv y \<and> ownInv y"
  using assms
proof (induction rule: ms_reachable.induct)
  case (ms_new canOpen canAccept guard readQueue prefaceLimit streams)
  show ?case
    by (simp add: NewMultiStreamTransport_def leasesInv_def inLoops_def ownInv_def owned_def opened_def inMaps_def channelsOk_def startsOk_def
        tokensOk_def drainedOk_def)
next
  case (ms_next y y')
  then show ?case using leases_step own_step by blast
qed

section \<open>Properties\<close>

text \<open>C8: Under every interleaving of callers, accept loop, read loops and network, the
  multi-stream transport loses nothing: each lease it reads is in exactly one place (a read loop, the queue, the
  caller, released), the caller only gets frames of the channel their stream announced, the queue and the number of streams
  that wait for their preface stay bounded; once \<open>Close\<close> has returned, every lease the caller did not get is released,
  and once the callers that were opening a stream are through, every stream ever obtained is closed.\<close>

theorem multistream_no_leak:
  assumes "ms_reachable y"
  shows "distinct (map mlID (inLoops y @ mtReads y @ mtHanded y @ mtReleased y))
    \<and> (\<forall>l \<in> set (mtReads y @ mtHanded y). onChannel l)
    \<and> length (mtReads y) \<le> mtReadQueue y \<and> length (mtPending y) \<le> mtPrefaceLimit y
    \<and> (mtDrained y \<longrightarrow> mtReads y = [] \<and> set (map mlID (mtHanded y @ mtReleased y)) = {0..<mtNextLease y})
    \<and> (mtClosed y \<and> (\<forall>ch. mtOpeners y ch = None) \<longrightarrow> set (mtKnown y) \<subseteq> set (mtCloses y))"
proof -
  have inv: "leasesInv y" "ownInv y" using ms_reachable_inv [OF assms] by auto
  let ?all = "map mlID (inLoops y @ mtReads y @ mtHanded y @ mtReleased y)"
  have m: "mset ?all = mset [0..<mtNextLease y]" using inv(1) by (simp add: leasesInv_def)
  have "distinct ?all" using mset_eq_imp_distinct_iff [OF m] by (simp only: distinct_upt)
  moreover have "set ?all = {0..<mtNextLease y}" using mset_eq_setD [OF m] by simp
  moreover have "inLoops y = [] \<and> mtReads y = []" if "mtDrained y"
    using inv(2) that by (auto simp: ownInv_def drainedOk_def inLoops_def List.map_filter_def)
  moreover have "set (mtKnown y) \<subseteq> set (mtCloses y)" if "mtClosed y" "\<forall>ch. mtOpeners y ch = None"
    using inv(2) that by (auto simp: ownInv_def owned_def opened_def openerStream_def)
  moreover have "\<forall>l \<in> set (mtReads y @ mtHanded y). onChannel l" "length (mtReads y) \<le> mtReadQueue y" using inv(1) by (auto simp: leasesInv_def)
  moreover have "length (mtPending y) \<le> mtPrefaceLimit y" using inv(2) by (auto simp: ownInv_def tokensOk_def split: if_splits)
  ultimately show ?thesis by auto
qed

theorem multistream_no_leak_witness:
  defines "y \<equiv> NewMultiStreamTransport True True DefaultSlowlorisConfig 0 0
    (\<lambda>_. NewStreamTransport \<lparr>cnNow = 0, cnReadDeadline = None, cnWriteDeadline = None, cnIn = [], cnEnd = None, cnDeadlineErr = None,
      cnWrites = [], cnOut = [], cnCloses = 0\<rparr>)"
  shows "mtKnown (closeBegin (acceptReturned (Inr 7) (acceptTake y))) = [7]
    \<and> 7 \<in> set (mtCloses (closeBegin (acceptReturned (Inr 7) (acceptTake y))))"
proof -
  let ?y = "closeBegin (acceptReturned (Inr 7) (acceptTake y))"
  have r: "ms_reachable ?y"
    by (intro ms_next [OF _ ms_step.close_begin] ms_next [OF _ ms_step.accepts] ms_next [OF _ ms_step.take_token])
      (simp_all add: y_def ms_new acceptTake_def, simp_all add: NewMultiStreamTransport_def)
  have "mtClosed ?y \<and> (\<forall>ch. mtOpeners ?y ch = None) \<and> mtKnown ?y = [7]"
    by (simp add: y_def NewMultiStreamTransport_def acceptTake_def acceptReturned_def closeBegin_def registered_def allChannels_def List.map_filter_def)
  with multistream_no_leak [OF r] show ?thesis by auto
qed

text \<open>C37: The frames of one channel can be reordered. When the stream the peer opened for a channel is accepted
  after frames were sent on an own stream of that channel, later frames go out on the peer's stream; and at the other side, which
  has a read loop for each of the two, the frame sent second may be handed to the session first. The protocol
  description asks a transport for ordered frames.\<close>

theorem channel_order_lost:
  assumes "validChannel ch" "\<not> mtClosed y" "mtIncoming y ch = None" "mtOutgoing y ch = Some a"
    and "\<not> mtClosed z" "Suc (length (mtReads z)) < mtReadQueue z" "i \<noteq> j"
    and "mtLoops z = [\<lparr>rlChannel = ch, rlStream = i, rlLease = None\<rparr>, \<lparr>rlChannel = ch, rlStream = j, rlLease = None\<rparr>]"
    and "ReadFrameLease None (mtStreams z i) = Some (Inr l1, t1)" "ReadFrameLease None (mtStreams z j) = Some (Inr l2, t2)"
    and "DecodeHeader (flData l1) = Inr h1" "hChannelID h1 = ch" "DecodeHeader (flData l2) = Inr h2" "hChannelID h2 = ch"
  shows "fst (streamForChannel ch opened' y) = Inr a
    \<and> fst (streamForChannel ch opened' (acceptPreface b guard (Inr ch) y)) = Inr b
    \<and> (\<exists>z'. ms_step\<^sup>*\<^sup>* z z' \<and> map mlData (mtReads z') = map mlData (mtReads z) @ [flData l2, flData l1])"
proof (intro conjI)
  show "fst (streamForChannel ch opened' y) = Inr a" "fst (streamForChannel ch opened' (acceptPreface b guard (Inr ch) y)) = Inr b"
    using assms(1-4) by (simp_all add: streamForChannel_def lookupStream_def acceptPreface_def setStage_def Let_def)
  let ?i = "\<lparr>rlChannel = ch, rlStream = i, rlLease = None\<rparr>" and ?j = "\<lparr>rlChannel = ch, rlStream = j, rlLease = None\<rparr>"
  define z1 where "z1 = loopRead ?j (Inr (flData l2)) (z\<lparr>mtStreams := (mtStreams z)(j := t2)\<rparr>)"
  define m2 where "m2 = \<lparr>mlID = mtNextLease z, mlStream = j, mlChannel = ch, mlData = flData l2\<rparr>"
  define z2 where "z2 = loopEnqueue (?j\<lparr>rlLease := Some m2\<rparr>) m2 z1"
  define z3 where "z3 = loopRead ?i (Inr (flData l1)) (z2\<lparr>mtStreams := (mtStreams z2)(i := t1)\<rparr>)"
  define m1 where "m1 = \<lparr>mlID = mtNextLease z2, mlStream = i, mlChannel = ch, mlData = flData l1\<rparr>"
  define z4 where "z4 = loopEnqueue (?i\<lparr>rlLease := Some m1\<rparr>) m1 z3"
  have e1: "z1 = z\<lparr>mtStreams := (mtStreams z)(j := t2), mtNextLease := mtNextLease z + 1, mtLoops := [?j\<lparr>rlLease := Some m2\<rparr>, ?i]\<rparr>"
    using assms(7,8,13,14) by (simp add: z1_def loopRead_def setLoop_def m2_def Let_def)
  have s1: "ms_step z z1"
    using ms_step.loop_read [of ?j z None "Inr l2" t2] assms(8,10) by (simp add: z1_def)
  have s2: "ms_step z1 z2"
    unfolding z2_def using assms(6) by (intro ms_step.loop_enqueue) (simp_all add: e1)
  have e2: "z2 = z1\<lparr>mtReads := mtReads z @ [m2], mtLoops := [?j, ?i]\<rparr>"
    by (simp add: z2_def loopEnqueue_def setLoop_def e1)
  have e3: "z3 = z2\<lparr>mtStreams := (mtStreams z2)(i := t1), mtNextLease := mtNextLease z2 + 1, mtLoops := [?i\<lparr>rlLease := Some m1\<rparr>, ?j]\<rparr>"
    using assms(7,11,12) by (simp add: z3_def loopRead_def setLoop_def m1_def Let_def e2)
  have s3: "ms_step z2 z3"
    using ms_step.loop_read [of ?i z2 None "Inr l1" t1] assms(7,9) by (simp add: z3_def e2 e1)
  have s4: "ms_step z3 z4"
    unfolding z4_def using assms(6) by (intro ms_step.loop_enqueue) (simp_all add: e3 e2 e1)
  have "map mlData (mtReads z4) = map mlData (mtReads z) @ [flData l2, flData l1]"
    by (simp add: z4_def loopEnqueue_def setLoop_def e3 e2 m1_def m2_def)
  moreover have "ms_step\<^sup>*\<^sup>* z z4"
    using r_into_rtranclp [of ms_step, OF s1] s2 s3 s4 by (auto intro: rtranclp.rtrancl_into_rtrancl [of ms_step])
  ultimately show "\<exists>z'. ms_step\<^sup>*\<^sup>* z z' \<and> map mlData (mtReads z') = map mlData (mtReads z) @ [flData l2, flData l1]" by blast
qed

definition sampleWire :: "Frame \<Rightarrow> StreamTransport" where
  "sampleWire f = NewStreamTransportForStream \<lparr>cnNow = 0, cnReadDeadline = None, cnWriteDeadline = None,
     cnIn = [(0, be32 (of_nat (length (encoded f))) @ encoded f)], cnEnd = None, cnDeadlineErr = None,
     cnWrites = [], cnOut = [], cnCloses = 0\<rparr> DefaultSlowlorisConfig"

lemma sampleWire_read:
  assumes "frameEncodable f"
  shows "\<exists>l t. ReadFrameLease None (sampleWire f) = Some (Inr l, t) \<and> flData l = encoded f"
proof -
  have "length (encoded f) \<le> 8388608" "40 \<le> length (encoded f)" using assms by (auto simp: encoded_def frameEncodable_def)
  moreover have "stMaxFrame (sampleWire f) = 8388608"
    by (simp add: sampleWire_def NewStreamTransportForStream_def Let_def DefaultSlowlorisConfig_def clampMaxFrame_def)
  moreover have "calm (sampleWire f)" "inBytes (stConn (sampleWire f)) = be32 (of_nat (length (encoded f))) @ encoded f @ []"
    by (simp_all add: sampleWire_def NewStreamTransportForStream_def Let_def calm_def DefaultSlowlorisConfig_def guardOk_def inBytes_def)
  ultimately obtain c b where "readFrameBuffer None (sampleWire f) = (Some (Inr b, (sampleWire f)\<lparr>stConn := c\<rparr>), None)" "bufData b = encoded f"
    using frame_read(2) [of "sampleWire f" "encoded f" "[]" None] by auto
  then show ?thesis by (simp add: ReadFrameLease_def newPooledFrameLease_def)
qed

lemma header_encoded:
  assumes "frameEncodable f"
  shows "\<exists>h. DecodeHeader (encoded f) = Inr h \<and> hChannelID h = hChannelID (fHeader f)"
  using decode_encoded [OF assms, of None]
  by (cases f) (auto simp: decodeFrameView_def go_try_def wireFrame_def stampHeader_def Let_def split: if_splits sum.splits)

theorem channel_order_lost_witness:
  defines "f \<equiv> NewFrame FramePing 0 []" and "g \<equiv> NewFrame FramePong 0 []"
  defines "y \<equiv> (NewMultiStreamTransport True True DefaultSlowlorisConfig 0 0 (\<lambda>_. sampleWire f))\<lparr>mtOutgoing := [0 \<mapsto> 1]\<rparr>"
  defines "z \<equiv> (NewMultiStreamTransport True True DefaultSlowlorisConfig 0 0 ((\<lambda>_. sampleWire f)(2 := sampleWire g)))
    \<lparr>mtLoops := [\<lparr>rlChannel = 0, rlStream = 1, rlLease = None\<rparr>, \<lparr>rlChannel = 0, rlStream = 2, rlLease = None\<rparr>]\<rparr>"
  shows "fst (streamForChannel 0 (Inr 9) y) = Inr 1 \<and> fst (streamForChannel 0 (Inr 9) (acceptPreface 5 DefaultSlowlorisConfig (Inr 0) y)) = Inr 5
    \<and> (\<exists>z'. ms_step\<^sup>*\<^sup>* z z' \<and> map mlData (mtReads z') = [encoded g, encoded f])"
proof -
  have e: "frameEncodable f" "frameEncodable g" "hChannelID (fHeader f) = 0" "hChannelID (fHeader g) = 0"
    by (simp_all add: f_def g_def frameEncodable_def NewFrame_def stampHeader_def emptyHeader_def validateHeaderValues_def)
  obtain l1 t1 l2 t2 where r: "ReadFrameLease None (sampleWire f) = Some (Inr l1, t1)" "flData l1 = encoded f"
    "ReadFrameLease None (sampleWire g) = Some (Inr l2, t2)" "flData l2 = encoded g"
    using sampleWire_read [OF e(1)] sampleWire_read [OF e(2)] by blast
  obtain h1 h2 where h: "DecodeHeader (encoded f) = Inr h1" "hChannelID h1 = 0" "DecodeHeader (encoded g) = Inr h2" "hChannelID h2 = 0"
    using header_encoded [OF e(1)] header_encoded [OF e(2)] e(3,4) by auto
  show ?thesis
    using channel_order_lost [of 0 y 1 z 1 2 l1 t1 l2 t2 h1 h2 "Inr 9" 5 DefaultSlowlorisConfig] r h
    by (simp add: y_def z_def NewMultiStreamTransport_def validChannel_def)
qed



end
