(* ===== verification/Etp_Body.thy ===== *)
theory Etp_Body
  imports Etp_State
begin

text \<open>
  Bodies of incoming transfers at the application (\<open>body.go\<close>, with \<open>Context\<close> of \<open>types.go\<close> and \<open>handleTransfer\<close> of \<open>app.go\<close>): a body
  is kept in memory up to a limit and moved to a temporary file beyond it. The file system is explicit state, and what each
  system call does is an argument; \<open>os.Remove\<close> of a file that exists removes it.
\<close>

section \<open>Bodies\<close>

definition ErrBodyTooLargeForBytes :: go_error where
  "ErrBodyTooLargeForBytes = Err ''transport: body is not fully in memory''"

definition ErrBodyWriterClosed :: go_error where
  "ErrBodyWriterClosed = Err ''transport: body writer is closed''"

text \<open>The files of the system, by a number for their path, and the paths with an open handle.\<close>

record fileSystem =
  fsFiles :: "nat \<rightharpoonup> bytes"
  fsOpen :: "nat list"

text \<open>A body held in memory, or in a file of a recorded size.\<close>

datatype Body = inlineBody bytes | fileBody nat int

fun bodySize :: "Body \<Rightarrow> int" where
  "bodySize (inlineBody data) = int (length data)"
| "bodySize (fileBody path n) = n"

text \<open>\<open>Open\<close>: everything the reader gives.\<close>

fun bodyOpen :: "fileSystem \<Rightarrow> Body \<Rightarrow> bytes go" where
  "bodyOpen fs (inlineBody data) = Inr data"
| "bodyOpen fs (fileBody path n) = (case fsFiles fs path of None \<Rightarrow> Inl (Err ''no such file'') | Some data \<Rightarrow> Inr data)"

fun bodyBytes :: "Body \<Rightarrow> bytes go" where
  "bodyBytes (inlineBody data) = Inr data"
| "bodyBytes (fileBody path n) = Inl ErrBodyTooLargeForBytes"

fun bodyView :: "Body \<Rightarrow> bytes \<times> bool" where
  "bodyView (inlineBody data) = (data, True)"
| "bodyView (fileBody path n) = ([], False)"

fun bodyIsInline :: "Body \<Rightarrow> bool" where
  "bodyIsInline (inlineBody data) = True"
| "bodyIsInline (fileBody path n) = False"

definition NewBytesBody :: "bytes \<Rightarrow> Body" where
  "NewBytesBody data = inlineBody data"

record Context =
  cxEvent :: string
  cxRequestID :: u64
  cxTransferID :: u64
  cxFields :: "TransferField list"
  cxBody :: "Body option"

definition emptyContext :: Context where
  "emptyContext = \<lparr>cxEvent = '''', cxRequestID = 0, cxTransferID = 0, cxFields = [], cxBody = None\<rparr>"

fun contextField :: "TransferField list \<Rightarrow> string \<Rightarrow> string" where
  "contextField [] name = ''''"
| "contextField (f # fs) name = (if tfKey f = name then tfValue f else contextField fs name)"

definition contextBytes :: "Context \<Rightarrow> bytes go" where
  "contextBytes c = (case cxBody c of None \<Rightarrow> Inr [] | Some b \<Rightarrow> bodyBytes b)"

definition contextBodyView :: "Context \<Rightarrow> bytes \<times> bool" where
  "contextBodyView c = (case cxBody c of None \<Rightarrow> ([], True) | Some b \<Rightarrow> bodyView b)"

section \<open>The spooled body writer\<close>

record spooledBodyWriter =
  bwCtx :: Context
  bwMaxMemory :: int
  bwSize :: int
  bwMemory :: bytes
  bwFile :: "nat option"
  bwPath :: "nat option"
  bwReleased :: bool

text \<open>\<open>new(spooledBodyWriter)\<close>, what the pool makes when it is empty.\<close>

definition newBodyWriter :: spooledBodyWriter where
  "newBodyWriter = \<lparr>bwCtx = emptyContext, bwMaxMemory = 0, bwSize = 0, bwMemory = [], bwFile = None, bwPath = None, bwReleased = False\<rparr>"

definition acquireBodyWriter :: "int \<Rightarrow> spooledBodyWriter \<Rightarrow> string \<Rightarrow> IncomingTransferInfo \<Rightarrow> spooledBodyWriter" where
  "acquireBodyWriter maxMemoryBody pooled event info =
     pooled\<lparr>bwMaxMemory := maxMemoryBody, bwReleased := False,
       bwCtx := (bwCtx pooled)\<lparr>cxEvent := event, cxRequestID := iiRequestID info, cxTransferID := iiTransferID info,
         cxFields := tbFields (iiMeta info)\<rparr>\<rparr>"

text \<open>\<open>Peer.handleTransfer\<close>: the event of the transfer, or its name.\<close>

definition handleTransfer :: "int \<Rightarrow> spooledBodyWriter \<Rightarrow> IncomingTransferInfo \<Rightarrow> spooledBodyWriter" where
  "handleTransfer maxMemoryBody pooled info =
     (let event = (if tbEvent (iiMeta info) = '''' then tbName (iiMeta info) else tbEvent (iiMeta info))
      in acquireBodyWriter maxMemoryBody pooled event info)"

text \<open>What the operating system does during one call of \<open>Write\<close>: the result of \<open>os.CreateTemp\<close> if it is called, and for
  the two writes to the file \<open>None\<close> when all is written, or how much was written before the error.\<close>

record writeOutcome =
  woCreate :: "go_error + nat"
  woSpill :: "(nat \<times> go_error) option"
  woWrite :: "(nat \<times> go_error) option"

definition fileWrite :: "nat \<Rightarrow> bytes \<Rightarrow> (nat \<times> go_error) option \<Rightarrow> fileSystem \<Rightarrow> (nat \<times> go_error option) \<times> fileSystem" where
  "fileWrite path data outcome fs =
     (let old = (case fsFiles fs path of None \<Rightarrow> [] | Some b \<Rightarrow> b);
          (n, e) = (case outcome of None \<Rightarrow> (length data, None) | Some (k, err) \<Rightarrow> (min k (length data), Some err))
      in ((n, e), fs\<lparr>fsFiles := (fsFiles fs)(path \<mapsto> old @ take n data)\<rparr>))"

text \<open>\<open>Write\<close> from the point where the file is open.\<close>

definition writeToFile :: "nat \<Rightarrow> bytes \<Rightarrow> writeOutcome \<Rightarrow> spooledBodyWriter \<Rightarrow> fileSystem
    \<Rightarrow> (nat \<times> go_error option) \<times> spooledBodyWriter \<times> fileSystem" where
  "writeToFile path p outcome w fs =
     (case fileWrite path p (woWrite outcome) fs of ((n, e), fs) \<Rightarrow> ((n, e), w\<lparr>bwSize := bwSize w + int n\<rparr>, fs))"

definition Write :: "writeOutcome \<Rightarrow> bytes \<Rightarrow> spooledBodyWriter \<Rightarrow> fileSystem
    \<Rightarrow> (nat \<times> go_error option) \<times> spooledBodyWriter \<times> fileSystem" where
  "Write outcome p w fs =
     (if bwReleased w then ((0, Some ErrBodyWriterClosed), w, fs)
      else if bwFile w = None \<and> int (length (bwMemory w) + length p) \<le> bwMaxMemory w
      then ((length p, None), w\<lparr>bwMemory := bwMemory w @ p, bwSize := bwSize w + int (length p)\<rparr>, fs)
      else case bwFile w of
             Some path \<Rightarrow> writeToFile path p outcome w fs
           | None \<Rightarrow>
               (case woCreate outcome of
                  Inl err \<Rightarrow> ((0, Some err), w, fs)
                | Inr path \<Rightarrow>
                    let fs = fs\<lparr>fsFiles := (fsFiles fs)(path \<mapsto> []), fsOpen := path # fsOpen fs\<rparr>;
                        w = w\<lparr>bwFile := Some path, bwPath := Some path\<rparr>
                    in if bwMemory w = [] then writeToFile path p outcome w fs
                       else case fileWrite path (bwMemory w) (woSpill outcome) fs of
                              ((n, Some err), fs) \<Rightarrow> ((0, Some err), w, fs)
                            | ((n, None), fs) \<Rightarrow> writeToFile path p outcome (w\<lparr>bwMemory := []\<rparr>) fs))"

text \<open>\<open>os.Remove\<close> and the closing of a handle.\<close>

definition removeFile :: "nat option \<Rightarrow> fileSystem \<Rightarrow> fileSystem" where
  "removeFile path fs = (case path of None \<Rightarrow> fs | Some p \<Rightarrow> fs\<lparr>fsFiles := (fsFiles fs)(p := None)\<rparr>)"

definition closeFile :: "nat option \<Rightarrow> fileSystem \<Rightarrow> fileSystem" where
  "closeFile file fs = (case file of None \<Rightarrow> fs | Some p \<Rightarrow> fs\<lparr>fsOpen := remove1 p (fsOpen fs)\<rparr>)"

definition release :: "spooledBodyWriter \<Rightarrow> fileSystem \<Rightarrow> spooledBodyWriter \<times> fileSystem" where
  "release w fs =
     (w\<lparr>bwReleased := True, bwFile := None, bwPath := None, bwSize := 0, bwMaxMemory := 0, bwCtx := emptyContext, bwMemory := []\<rparr>,
      removeFile (bwPath w) (closeFile (bwFile w) fs))"

text \<open>\<open>Close\<close>. \<open>closeErr\<close> is the result of closing the file, which releases the handle even when it reports an error; \<open>handler\<close> is
  \<open>App.emit\<close>. The third result is what the handler was called with, and the body it could read then.\<close>

definition CloseBody :: "go_error option \<Rightarrow> (Context \<Rightarrow> go_error option) \<Rightarrow> spooledBodyWriter \<Rightarrow> fileSystem
    \<Rightarrow> go_error option \<times> (Context \<times> bytes go) option \<times> spooledBodyWriter \<times> fileSystem" where
  "CloseBody closeErr handler w fs =
     (if bwReleased w then (Some ErrBodyWriterClosed, None, w, fs)
      else
      let emit = (\<lambda>body w fs. let ctx = (bwCtx w)\<lparr>cxBody := Some body\<rparr>
                              in (handler ctx, Some (ctx, bodyOpen fs body), release w fs))
      in case (bwFile w, bwPath w) of
           (Some f, path) \<Rightarrow>
             let fs = closeFile (Some f) fs in
             (case closeErr of
                Some err \<Rightarrow> (Some err, None, release w fs)
              | None \<Rightarrow> emit (fileBody (case path of Some p \<Rightarrow> p | None \<Rightarrow> f) (bwSize w)) (w\<lparr>bwFile := None\<rparr>) fs)
         | (None, path) \<Rightarrow> emit (inlineBody (bwMemory w)) w fs)"

text \<open>\<open>Abort\<close> removes the file itself and reports the error of that; the deferred release removes it again.\<close>

definition AbortBody :: "go_error option \<Rightarrow> spooledBodyWriter \<Rightarrow> fileSystem \<Rightarrow> go_error option \<times> spooledBodyWriter \<times> fileSystem" where
  "AbortBody removeErr w fs =
     (if bwReleased w then (Some ErrBodyWriterClosed, w, fs)
      else let fs = closeFile (bwFile w) fs; w = w\<lparr>bwFile := None\<rparr>
           in (if bwPath w = None then None else removeErr, release w (removeFile (bwPath w) fs)))"

fun writeAll :: "(writeOutcome \<times> bytes) list \<Rightarrow> spooledBodyWriter \<Rightarrow> fileSystem \<Rightarrow> (nat \<times> go_error option) list \<times> spooledBodyWriter \<times> fileSystem" where
  "writeAll [] w fs = ([], w, fs)"
| "writeAll ((outcome, p) # rest) w fs =
     (case Write outcome p w fs of (r, w, fs) \<Rightarrow> (case writeAll rest w fs of (rs, w, fs) \<Rightarrow> (r # rs, w, fs)))"

section \<open>Properties\<close>

text \<open>A writer in the pool: new, or released.\<close>

definition pooledOk :: "spooledBodyWriter \<Rightarrow> bool" where
  "pooledOk w \<longleftrightarrow> bwMemory w = [] \<and> bwSize w = 0 \<and> bwFile w = None \<and> bwPath w = None \<and> cxBody (bwCtx w) = None"

text \<open>\<open>os.CreateTemp\<close> gives a name no file has.\<close>

definition unusedPath :: "fileSystem \<Rightarrow> nat \<Rightarrow> bool" where
  "unusedPath fs path \<longleftrightarrow> fsFiles fs path = None \<and> path \<notin> set (fsOpen fs)"

definition freshNames :: "fileSystem \<Rightarrow> (writeOutcome \<times> bytes) list \<Rightarrow> bool" where
  "freshNames fs outs \<longleftrightarrow> (\<forall>(outcome, p) \<in> set outs. \<forall>path. woCreate outcome = Inr path \<longrightarrow> unusedPath fs path)"

text \<open>Whatever the operating system did, the writer has no file and the files are as before, or it has one file that
  is its own.\<close>

definition ownFile :: "fileSystem \<Rightarrow> nat \<Rightarrow> bytes \<Rightarrow> fileSystem" where
  "ownFile fs0 path b = fs0\<lparr>fsFiles := (fsFiles fs0)(path \<mapsto> b), fsOpen := path # fsOpen fs0\<rparr>"

definition spooling :: "fileSystem \<Rightarrow> spooledBodyWriter \<Rightarrow> fileSystem \<Rightarrow> bool" where
  "spooling fs0 w fs \<longleftrightarrow> \<not> bwReleased w \<and>
     (bwFile w = None \<and> bwPath w = None \<and> fs = fs0 \<or>
      (\<exists>path b. bwFile w = Some path \<and> bwPath w = Some path \<and> unusedPath fs0 path \<and> fs = ownFile fs0 path b))"

lemma fileWrite_own:
  "fileWrite path data outcome (ownFile fs0 path b) =
     (case outcome of None \<Rightarrow> ((length data, None), ownFile fs0 path (b @ data))
      | Some (k, e) \<Rightarrow> ((min k (length data), Some e), ownFile fs0 path (b @ take (min k (length data)) data)))"
  by (cases fs0; cases outcome) (auto simp: fileWrite_def ownFile_def Let_def)

lemma writeToFile_own:
  assumes "bwFile w = Some path" "bwPath w = Some path" "\<not> bwReleased w" "unusedPath fs0 path"
    "writeToFile path p outcome w (ownFile fs0 path b) = (r, w', fs')"
  shows "spooling fs0 w' fs'"
  using assms by (auto simp: writeToFile_def fileWrite_own spooling_def split: option.splits)

lemma Write_spooling:
  assumes "spooling fs0 w fs" "\<And>path. woCreate outcome = Inr path \<Longrightarrow> unusedPath fs0 path" "Write outcome p w fs = (r, w', fs')"
  shows "spooling fs0 w' fs'"
proof -
  have nr: "\<not> bwReleased w" using assms(1) by (simp add: spooling_def)
  consider (inmem) "bwFile w = None" "int (length (bwMemory w) + length p) \<le> bwMaxMemory w"
    | (infile) path b where "bwFile w = Some path" "bwPath w = Some path" "unusedPath fs0 path" "fs = ownFile fs0 path b"
    | (creates) "bwFile w = None" "fs = fs0" "bwPath w = None" "\<not> int (length (bwMemory w) + length p) \<le> bwMaxMemory w"
    using assms(1) by (auto simp: spooling_def)
  then show ?thesis
  proof cases
    case inmem
    then show ?thesis using assms(1,3) nr by (auto simp: Write_def spooling_def)
  next
    case infile
    then show ?thesis using assms(3) nr writeToFile_own [of w path fs0 p outcome b r w' fs'] by (simp add: Write_def)
  next
    case creates
    show ?thesis
    proof (cases "woCreate outcome")
      case (Inl e)
      then show ?thesis using creates assms(1,3) nr by (auto simp: Write_def)
    next
      case (Inr path)
      let ?w = "w\<lparr>bwFile := Some path, bwPath := Some path\<rparr>"
      have fresh: "unusedPath fs0 path" using assms(2) Inr by simp
      have o: "fs0\<lparr>fsFiles := (fsFiles fs0)(path \<mapsto> []), fsOpen := path # fsOpen fs0\<rparr> = ownFile fs0 path []" by (simp add: ownFile_def)
      obtain n e b' where s: "fileWrite path (bwMemory w) (woSpill outcome) (ownFile fs0 path []) = ((n, e), ownFile fs0 path b')"
        unfolding fileWrite_own by (cases "woSpill outcome") auto
      show ?thesis
        using assms(3) creates nr Inr fresh s writeToFile_own [of ?w path fs0 p outcome "[]" r w' fs']
          writeToFile_own [of "?w\<lparr>bwMemory := []\<rparr>" path fs0 p outcome b' r w' fs']
        by (auto simp: Write_def Let_def o spooling_def split: if_splits option.splits)
    qed
  qed
qed

lemma writeAll_spooling:
  assumes "spooling fs0 w fs" "freshNames fs0 outs" "writeAll outs w fs = (rs, w', fs')"
  shows "spooling fs0 w' fs'"
  using assms
proof (induction outs arbitrary: w fs rs)
  case (Cons out outs)
  obtain outcome p where out: "out = (outcome, p)" by (cases out)
  obtain r w1 fs1 where 1: "Write outcome p w fs = (r, w1, fs1)" by (metis prod_cases3)
  have "spooling fs0 w1 fs1"
    by (rule Write_spooling [OF Cons.prems(1) _ 1]) (use Cons.prems(2) out in \<open>auto simp: freshNames_def\<close>)
  with Cons.IH [of w1 fs1] Cons.prems out 1 show ?case by (auto simp: freshNames_def split: prod.splits)
qed simp

lemma release_own:
  assumes "unusedPath fs0 path"
  shows "removeFile (Some path) (closeFile (Some path) (ownFile fs0 path b)) = fs0"
    "removeFile (Some path) (closeFile (Some path) (closeFile (Some path) (ownFile fs0 path b))) = fs0"
    "removeFile (Some path) fs0 = fs0"
  using assms by (cases fs0; auto simp: removeFile_def closeFile_def ownFile_def unusedPath_def fun_upd_idem_iff remove1_idem)+

lemma noFile [simp]: "removeFile None fs = fs" "closeFile None fs = fs"
  by (simp_all add: removeFile_def closeFile_def)

lemma close_cleans:
  assumes "spooling fs0 w fs"
  shows "CloseBody closeErr handler w fs = (e, call, w', fs') \<Longrightarrow> bwReleased w' \<and> pooledOk w' \<and> fs' = fs0"
    and "AbortBody removeErr w fs = (e, w', fs') \<Longrightarrow> bwReleased w' \<and> pooledOk w' \<and> fs' = fs0"
  using assms
  by (auto simp: CloseBody_def AbortBody_def spooling_def release_def pooledOk_def emptyContext_def Let_def release_own split: option.splits)

text \<open>While nothing fails, the bytes written are in memory as long as they fit, and in the file afterwards.\<close>

definition spooled :: "fileSystem \<Rightarrow> bytes \<Rightarrow> spooledBodyWriter \<Rightarrow> fileSystem \<Rightarrow> bool" where
  "spooled fs0 b w fs \<longleftrightarrow> \<not> bwReleased w \<and> bwSize w = int (length b) \<and>
     (if bwFile w = None then bwPath w = None \<and> fs = fs0 \<and> bwMemory w = b \<and> (b \<noteq> [] \<longrightarrow> int (length b) \<le> bwMaxMemory w)
      else \<exists>path. bwFile w = Some path \<and> bwPath w = Some path \<and> unusedPath fs0 path \<and> fs = ownFile fs0 path b \<and> bwMemory w = []
             \<and> bwMaxMemory w < int (length b))"

definition noFailure :: "writeOutcome \<Rightarrow> bool" where
  "noFailure outcome \<longleftrightarrow> (\<exists>path. woCreate outcome = Inr path) \<and> woSpill outcome = None \<and> woWrite outcome = None"

lemma Write_spooled:
  assumes "spooled fs0 b w fs" "noFailure outcome" "\<And>path. woCreate outcome = Inr path \<Longrightarrow> unusedPath fs0 path"
  shows "\<exists>w' fs'. Write outcome p w fs = ((length p, None), w', fs') \<and> spooled fs0 (b @ p) w' fs'
    \<and> bwCtx w' = bwCtx w \<and> bwMaxMemory w' = bwMaxMemory w"
proof -
  obtain path where c: "woCreate outcome = Inr path" "woSpill outcome = None" "woWrite outcome = None" "unusedPath fs0 path"
    using assms(2,3) by (auto simp: noFailure_def)
  have o: "fs0\<lparr>fsFiles := (fsFiles fs0)(path \<mapsto> []), fsOpen := path # fsOpen fs0\<rparr> = ownFile fs0 path []" by (simp add: ownFile_def)
  show ?thesis
  proof (cases "bwFile w")
    case None
    then show ?thesis
      using assms(1) c by (auto simp: spooled_def Write_def writeToFile_def fileWrite_own o Let_def)
  next
    case (Some q)
    then show ?thesis
      using assms(1) c by (auto simp: spooled_def Write_def writeToFile_def fileWrite_own Let_def)
  qed
qed

lemma writeAll_spooled:
  assumes "spooled fs0 b w fs" "freshNames fs0 outs" "\<forall>(outcome, p) \<in> set outs. noFailure outcome"
  shows "\<exists>w' fs'. writeAll outs w fs = (map (\<lambda>(outcome, p). (length p, None)) outs, w', fs') \<and> spooled fs0 (b @ concat (map snd outs)) w' fs'
    \<and> bwCtx w' = bwCtx w \<and> bwMaxMemory w' = bwMaxMemory w"
  using assms
proof (induction outs arbitrary: b w fs)
  case Nil
  then show ?case by simp
next
  case (Cons out outs)
  obtain outcome p where out: "out = (outcome, p)" by (cases out)
  have "\<And>path. woCreate outcome = Inr path \<Longrightarrow> unusedPath fs0 path" "noFailure outcome"
    using Cons.prems(2,3) out by (auto simp: freshNames_def)
  with Write_spooled [OF Cons.prems(1), of outcome p] obtain w1 fs1 where
    1: "Write outcome p w fs = ((length p, None), w1, fs1)" "spooled fs0 (b @ p) w1 fs1" "bwCtx w1 = bwCtx w" "bwMaxMemory w1 = bwMaxMemory w" by blast
  with Cons.IH [OF 1(2)] Cons.prems(2,3) out show ?case by (auto simp: freshNames_def)
qed

lemma close_spooled:
  assumes "spooled fs0 b w fs" "0 \<le> bwMaxMemory w" "CloseBody None handler w fs = (e, call, w', fs')"
  shows "\<exists>body. call = Some ((bwCtx w)\<lparr>cxBody := Some body\<rparr>, Inr b) \<and> e = handler ((bwCtx w)\<lparr>cxBody := Some body\<rparr>)
    \<and> bodySize body = int (length b) \<and> (bodyIsInline body \<longleftrightarrow> int (length b) \<le> bwMaxMemory w)"
proof -
  have r: "bodyOpen (closeFile (Some p) (ownFile fs0 p b)) (fileBody p k) = Inr b" for p k
    by (simp add: closeFile_def ownFile_def)
  show ?thesis
  proof (cases "bwFile w")
    case None
    then show ?thesis using assms by (intro exI [of _ "inlineBody b"]) (auto simp: spooled_def CloseBody_def Let_def)
  next
    case (Some p)
    then show ?thesis using assms r by (intro exI [of _ "fileBody p (int (length b))"]) (auto simp: spooled_def CloseBody_def Let_def)
  qed
qed

text \<open>C18: Spooling is invisible to the handler. A transfer whose body is written in any pieces, while the
  system calls succeed, hands the handler one context with the transfer's event (or its name), identifiers and fields and a body
  that reads as the bytes written and reports their number, in memory exactly when they fit the limit; afterwards
  the temporary file is gone, no handle is left open, and the writer is clean for its next use.\<close>

theorem body_spool_exact:
  assumes "pooledOk pooled" "freshNames fs0 outs" "\<forall>(outcome, p) \<in> set outs. noFailure outcome" "0 \<le> maxMemory"
    and "writeAll outs (handleTransfer maxMemory pooled info) fs0 = (rs, w, fs)"
    and "CloseBody None handler w fs = (e, call, w', fs')"
  shows "rs = map (\<lambda>(outcome, p). (length p, None)) outs \<and>
    (\<exists>ctx body. call = Some (ctx, Inr (concat (map snd outs))) \<and> e = handler ctx \<and> cxBody ctx = Some body
      \<and> cxEvent ctx = (if tbEvent (iiMeta info) = '''' then tbName (iiMeta info) else tbEvent (iiMeta info))
      \<and> cxRequestID ctx = iiRequestID info \<and> cxTransferID ctx = iiTransferID info \<and> cxFields ctx = tbFields (iiMeta info)
      \<and> bodySize body = int (length (concat (map snd outs)))
      \<and> (bodyIsInline body \<longleftrightarrow> int (length (concat (map snd outs))) \<le> maxMemory))
    \<and> fs' = fs0 \<and> bwReleased w' \<and> pooledOk w'"
proof -
  let ?w = "handleTransfer maxMemory pooled info" and ?b = "concat (map snd outs)"
  have "spooled fs0 [] ?w fs0"
    using assms(1) by (simp add: spooled_def handleTransfer_def acquireBodyWriter_def pooledOk_def Let_def)
  from writeAll_spooled [OF this assms(2,3)] assms(5)
  have s: "rs = map (\<lambda>(outcome, p). (length p, None)) outs" "spooled fs0 ?b w fs" "bwCtx w = bwCtx ?w" "bwMaxMemory w = maxMemory"
    by (auto simp: handleTransfer_def acquireBodyWriter_def Let_def)
  have "spooling fs0 w fs" using s(2) unfolding spooled_def spooling_def by (auto split: if_splits)
  from close_cleans(1) [OF this assms(6)] have fin: "bwReleased w' \<and> pooledOk w' \<and> fs' = fs0" .
  obtain body where body: "call = Some ((bwCtx w)\<lparr>cxBody := Some body\<rparr>, Inr ?b)" "e = handler ((bwCtx w)\<lparr>cxBody := Some body\<rparr>)"
    "bodySize body = int (length ?b)" "bodyIsInline body \<longleftrightarrow> int (length ?b) \<le> maxMemory"
    using close_spooled [OF s(2) _ assms(6)] s(4) assms(4) by auto
  have ctx: "cxEvent (bwCtx w) = (if tbEvent (iiMeta info) = '''' then tbName (iiMeta info) else tbEvent (iiMeta info))"
    "cxRequestID (bwCtx w) = iiRequestID info" "cxTransferID (bwCtx w) = iiTransferID info" "cxFields (bwCtx w) = tbFields (iiMeta info)"
    by (simp_all add: s(3) handleTransfer_def acquireBodyWriter_def Let_def)
  show ?thesis
    using s(1) fin body ctx by (intro conjI exI [of _ "(bwCtx w)\<lparr>cxBody := Some body\<rparr>"] exI [of _ body]) simp_all
qed

theorem body_spool_exact_witness:
  defines "info \<equiv> \<lparr>iiTransferID = 9, iiRequestID = 4, iiMeta = \<lparr>tbTotalSize = 5, tbChunkSize = 4, tbChunkCount = 2, tbContentType = 0, tbFlags = 0,
    tbChecksum = [], tbName = ''report'', tbEvent = '''', tbField = '''', tbIndex = 0, tbParts = [], tbFields = []\<rparr>\<rparr>"
  defines "fs0 \<equiv> \<lparr>fsFiles = [3 \<mapsto> [9]], fsOpen = []\<rparr>"
  defines "out \<equiv> \<lparr>woCreate = Inr 8, woSpill = None, woWrite = None\<rparr>"
  shows "\<exists>rs w fs e ctx w'. writeAll [(out, [1, 2, 3]), (out, [4, 5])] (handleTransfer 4 newBodyWriter info) fs0 = (rs, w, fs)
    \<and> fsFiles fs 8 = Some [1, 2, 3, 4, 5]
    \<and> CloseBody None (\<lambda>_. None) w fs = (e, Some (ctx, Inr [1, 2, 3, 4, 5]), w', fs0) \<and> cxEvent ctx = ''report''"
proof -
  obtain rs w fs where 1: "writeAll [(out, [1, 2, 3]), (out, [4, 5])] (handleTransfer 4 newBodyWriter info) fs0 = (rs, w, fs)" by (metis prod_cases3)
  obtain e call w' fs' where 2: "CloseBody None (\<lambda>_. None) w fs = (e, call, w', fs')" by (metis prod_cases4)
  have "pooledOk newBodyWriter" "freshNames fs0 [(out, [1, 2, 3]), (out, [4, 5])]" "\<forall>(outcome, p) \<in> set [(out, [1, 2, 3]), (out, [4, 5])]. noFailure outcome"
    by (simp_all add: pooledOk_def newBodyWriter_def emptyContext_def freshNames_def unusedPath_def fs0_def out_def noFailure_def)
  from body_spool_exact [OF this _ 1 2] obtain ctx where "call = Some (ctx, Inr [1, 2, 3, 4, 5])" "cxEvent ctx = ''report''" "fs' = fs0"
    by (auto simp: info_def)
  moreover have "fsFiles fs 8 = Some [1, 2, 3, 4, 5]"
    using 1 by (auto simp: handleTransfer_def acquireBodyWriter_def newBodyWriter_def Write_def writeToFile_def fileWrite_def out_def fs0_def Let_def)
  ultimately show ?thesis using 1 2 by blast
qed



end
