(* ===== verification/Etp_Monitor.thy ===== *)
theory Etp_Monitor
  imports Etp_Window "HOL-Library.Multiset"
begin

text \<open>
  The timer behind the outgoing transfers (\<open>src/internal/etp/session.go\<close>): \<open>scheduleOutgoingMonitor\<close>,
  \<open>stopOutgoingMonitor\<close> and the loop \<open>runOutgoingMonitor\<close>, whose passes \<open>processOutgoingTimeouts\<close> are modelled
  in \<open>Etp_Outgoing\<close>. Senders, the monitor and the clock run concurrently, so the atomic actions are the steps of
  a relation. Shown: no deadline that was asked for is slept through, and a pass asks for the deadlines it leaves behind.
\<close>

section \<open>The timer of the monitor\<close>

text \<open>
  \<open>scheduleOutgoingMonitor\<close> lowers the atomic \<open>outgoingNext\<close> (nanoseconds, \<open>0\<close> for none) with a compare-and-swap loop and then
  leaves a token in the channel \<open>outgoingWake\<close>, which holds one. Where such a call is: about to load; with the loaded value;
  about to leave the token.
\<close>

datatype schedPc = SchedLoad int | SchedLoaded int int | SchedWake int

text \<open>Where \<open>runOutgoingMonitor\<close> is: in its \<open>select\<close>; with a token received; with the timer fired, and the time it was armed for;
  in \<open>processOutgoingTimeouts\<close>; returned.\<close>

datatype monitorPc = MonSelect | MonWoken | MonFired int | MonProcess | MonStopped

text \<open>\<open>moArmed\<close> and \<open>moTimer\<close> are the local \<open>armed\<close> and the time the timer is set to; \<open>moArmedAt\<close> is when that happened.
  \<open>moWanted\<close> lists the times asked for since the last pass started; the program does not keep it.\<close>

record Monitor =
  moNow :: int
  moNext :: int
  moWake :: bool
  moStop :: bool
  moPc :: monitorPc
  moArmed :: int
  moTimer :: int
  moArmedAt :: int
  moCalls :: "schedPc multiset"
  moWanted :: "int set"

definition newMonitor :: "int \<Rightarrow> Monitor" where
  "newMonitor now = \<lparr>moNow = now, moNext = 0, moWake = False, moStop = False, moPc = MonSelect, moArmed = 0, moTimer = 0, moArmedAt = 0,
     moCalls = {#}, moWanted = {}\<rparr>"

subsection \<open>Scheduling\<close>

text \<open>The atomic steps of a call for the time \<open>d\<close>: \<open>None\<close> when the call returns.\<close>

definition schedLoad :: "int \<Rightarrow> Monitor \<Rightarrow> schedPc option" where
  "schedLoad d y = (if moNext y \<noteq> 0 \<and> moNext y \<le> d then None else Some (SchedLoaded d (moNext y)))"

definition schedSwap :: "int \<Rightarrow> int \<Rightarrow> Monitor \<Rightarrow> schedPc \<times> Monitor" where
  "schedSwap d current y = (if moNext y = current then (SchedWake d, y\<lparr>moNext := d\<rparr>) else (SchedLoad d, y))"

definition schedWake :: "Monitor \<Rightarrow> Monitor" where
  "schedWake y = y\<lparr>moWake := True\<rparr>"

definition stopOutgoingMonitor :: "Monitor \<Rightarrow> Monitor" where
  "stopOutgoingMonitor y = y\<lparr>moStop := True\<rparr>"

subsection \<open>The loop\<close>

text \<open>\<open>target := s.outgoingNext.Load()\<close> and the arming of the timer, not earlier than a millisecond from now.\<close>

definition monArm :: "Monitor \<Rightarrow> Monitor" where
  "monArm y =
     (let target = moNext y in
      if target = 0 \<or> target = moArmed y then y\<lparr>moPc := MonSelect\<rparr>
      else y\<lparr>moPc := MonSelect, moTimer := max target (moNow y + 10 ^ 6), moArmed := target, moArmedAt := moNow y\<rparr>)"

definition monFire :: "Monitor \<Rightarrow> Monitor" where
  "monFire y = y\<lparr>moPc := MonFired (moArmed y), moArmed := 0\<rparr>"

text \<open>\<open>outgoingNext.CompareAndSwap(fired, 0)\<close>; from here on the pass answers everything asked for so far.\<close>

definition monReset :: "int \<Rightarrow> Monitor \<Rightarrow> Monitor" where
  "monReset fired y = y\<lparr>moPc := MonProcess, moNext := if moNext y = fired then 0 else moNext y, moWanted := {}\<rparr>"

text \<open>The pass returned \<open>delay\<close>. The call of \<open>scheduleOutgoingMonitor\<close> that follows is one more call in
  progress.\<close>

definition request :: "int \<Rightarrow> Monitor \<Rightarrow> Monitor" where
  "request d y = y\<lparr>moCalls := add_mset (SchedLoad d) (moCalls y), moWanted := insert d (moWanted y)\<rparr>"

definition monProcessed :: "int \<Rightarrow> int \<Rightarrow> Monitor \<Rightarrow> Monitor" where
  "monProcessed now delay y =
     (let y = y\<lparr>moPc := MonSelect\<rparr> in if delay \<ge> 0 \<and> now + delay \<noteq> 0 then request (now + delay) y else y)"

inductive mon_step :: "Monitor \<Rightarrow> Monitor \<Rightarrow> bool" where
  tick: "moNow y \<le> t \<Longrightarrow> mon_step y (y\<lparr>moNow := t\<rparr>)"
| asked: "d \<noteq> 0 \<Longrightarrow> mon_step y (request d y)"
| sched_returns: "moCalls y = add_mset (SchedLoad d) cs \<Longrightarrow> schedLoad d y = None \<Longrightarrow> mon_step y (y\<lparr>moCalls := cs\<rparr>)"
| sched_loads: "moCalls y = add_mset (SchedLoad d) cs \<Longrightarrow> schedLoad d y = Some c \<Longrightarrow> mon_step y (y\<lparr>moCalls := add_mset c cs\<rparr>)"
| sched_swaps: "moCalls y = add_mset (SchedLoaded d current) cs \<Longrightarrow> schedSwap d current y = (c, y') \<Longrightarrow> mon_step y (y'\<lparr>moCalls := add_mset c cs\<rparr>)"
| sched_wakes: "moCalls y = add_mset (SchedWake d) cs \<Longrightarrow> mon_step y ((schedWake y)\<lparr>moCalls := cs\<rparr>)"
| stop: "mon_step y (stopOutgoingMonitor y)"
| stops: "moPc y = MonSelect \<Longrightarrow> moStop y \<Longrightarrow> mon_step y (y\<lparr>moPc := MonStopped\<rparr>)"
| woken: "moPc y = MonSelect \<Longrightarrow> moWake y \<Longrightarrow> mon_step y (y\<lparr>moPc := MonWoken, moWake := False\<rparr>)"
| arms: "moPc y = MonWoken \<Longrightarrow> mon_step y (monArm y)"
| fires: "moPc y = MonSelect \<Longrightarrow> moArmed y \<noteq> 0 \<Longrightarrow> moTimer y \<le> moNow y \<Longrightarrow> mon_step y (monFire y)"
| resets: "moPc y = MonFired fired \<Longrightarrow> mon_step y (monReset fired y)"
| processed: "moPc y = MonProcess \<Longrightarrow> mon_step y (monProcessed now delay y)"

inductive mon_reachable :: "Monitor \<Rightarrow> bool" where
  mon_new: "mon_reachable (newMonitor now)"
| mon_next: "mon_reachable y \<Longrightarrow> mon_step y y' \<Longrightarrow> mon_reachable y'"

subsection \<open>No time is slept through\<close>

text \<open>The value of \<open>outgoingNext\<close> is on its way to the timer: a token is there or about to be left, the monitor
  has just taken one, the timer is armed for it, or it has just fired for it.\<close>

definition planned :: "Monitor \<Rightarrow> bool" where
  "planned y \<longleftrightarrow> moWake y \<or> (\<exists>d. SchedWake d \<in># moCalls y) \<or> moPc y = MonWoken \<or> moArmed y = moNext y \<or> moPc y = MonFired (moNext y)"

definition asking :: "Monitor \<Rightarrow> int \<Rightarrow> bool" where
  "asking y d \<longleftrightarrow> (\<exists>d' c. d' \<le> d \<and> (SchedLoad d' \<in># moCalls y \<or> SchedLoaded d' c \<in># moCalls y))"

definition monitorInv :: "Monitor \<Rightarrow> bool" where
  "monitorInv y \<longleftrightarrow> (moPc y \<noteq> MonStopped \<and> moNext y \<noteq> 0 \<longrightarrow> planned y)
     \<and> (\<forall>d \<in> moWanted y. asking y d \<or> moNext y \<noteq> 0 \<and> moNext y \<le> d)
     \<and> (\<forall>d c. SchedLoaded d c \<in># moCalls y \<longrightarrow> c = 0 \<or> d < c)
     \<and> (\<forall>d c. SchedLoad d \<in># moCalls y \<or> SchedLoaded d c \<in># moCalls y \<longrightarrow> d \<noteq> 0)
     \<and> (moArmed y \<noteq> 0 \<longrightarrow> moTimer y = max (moArmed y) (moArmedAt y + 10 ^ 6))"

lemma asking_calls:
  "moCalls y = add_mset c cs \<Longrightarrow> moCalls y' = cs + cs' \<Longrightarrow> asking y d \<Longrightarrow>
   asking y' d \<or> (\<exists>d' cur. d' \<le> d \<and> (c = SchedLoad d' \<or> c = SchedLoaded d' cur))"
  unfolding asking_def by auto

lemma mon_step_inv: "mon_step y y' \<Longrightarrow> monitorInv y \<Longrightarrow> monitorInv y'"
proof (induction rule: mon_step.induct)
  case (tick y t)
  then show ?case by (auto simp: monitorInv_def planned_def asking_def)
next
  case (asked d y)
  then show ?case by (auto simp: monitorInv_def planned_def asking_def request_def)
next
  case (sched_returns y d cs)
  then have n: "moNext y \<noteq> 0" "moNext y \<le> d" by (auto simp: schedLoad_def split: if_splits)
  have "asking (y\<lparr>moCalls := cs\<rparr>) w \<or> moNext y \<le> w" if "asking y w" for w
    using asking_calls [OF sched_returns(1), of "y\<lparr>moCalls := cs\<rparr>" "{#}" w] that n(2) by auto
  with sched_returns n show ?case by (auto simp: monitorInv_def planned_def)
next
  case (sched_loads y d cs c)
  then have c: "c = SchedLoaded d (moNext y)" "moNext y = 0 \<or> d < moNext y" by (auto simp: schedLoad_def split: if_splits)
  have "asking (y\<lparr>moCalls := add_mset c cs\<rparr>) w" if "asking y w" for w
    using asking_calls [OF sched_loads(1), of "y\<lparr>moCalls := add_mset c cs\<rparr>" "{#c#}" w] that c(1) by (auto simp: asking_def)
  with sched_loads c show ?case by (auto simp: monitorInv_def planned_def)
next
  case (sched_swaps y d current cs c y')
  show ?case
  proof (cases "moNext y = current")
    case True
    then have c: "c = SchedWake d" "y' = y\<lparr>moNext := d\<rparr>" using sched_swaps(2) by (auto simp: schedSwap_def)
    have d: "current = 0 \<or> d < current" "d \<noteq> 0" using sched_swaps(1,3) unfolding monitorInv_def by force+
    have "asking (y'\<lparr>moCalls := add_mset c cs\<rparr>) w \<or> d \<le> w" if "asking y w \<or> moNext y \<noteq> 0 \<and> moNext y \<le> w" for w
      using asking_calls [OF sched_swaps(1), of "y'\<lparr>moCalls := add_mset c cs\<rparr>" "{#c#}" w] that c d(1) True by auto
    with sched_swaps(1,3) c d(2) show ?thesis by (auto simp: monitorInv_def planned_def)
  next
    case False
    then have c: "c = SchedLoad d" "y' = y" using sched_swaps(2) by (auto simp: schedSwap_def)
    have "asking (y'\<lparr>moCalls := add_mset c cs\<rparr>) w" if "asking y w" for w
      using asking_calls [OF sched_swaps(1), of "y'\<lparr>moCalls := add_mset c cs\<rparr>" "{#c#}" w] that c by (auto simp: asking_def)
    with sched_swaps(1,3) c show ?thesis by (auto simp: monitorInv_def planned_def)
  qed
next
  case (sched_wakes y d cs)
  have "asking ((schedWake y)\<lparr>moCalls := cs\<rparr>) w" if "asking y w" for w
    using asking_calls [OF sched_wakes(1), of "(schedWake y)\<lparr>moCalls := cs\<rparr>" "{#}" w] that by auto
  with sched_wakes show ?case by (auto simp: monitorInv_def planned_def schedWake_def)
next
  case (stop y)
  then show ?case by (auto simp: monitorInv_def planned_def asking_def stopOutgoingMonitor_def)
next
  case (arms y)
  then show ?case by (auto simp: monitorInv_def planned_def asking_def monArm_def Let_def)
next
  case (fires y)
  then show ?case by (auto simp: monitorInv_def planned_def asking_def monFire_def)
next
  case (resets y fired)
  then show ?case by (auto simp: monitorInv_def planned_def monReset_def)
next
  case (processed y now delay)
  then show ?case by (auto simp: monitorInv_def planned_def asking_def monProcessed_def request_def Let_def)
qed (auto simp: monitorInv_def planned_def asking_def)

lemma newMonitor_inv: "monitorInv (newMonitor now)"
  by (simp add: newMonitor_def monitorInv_def planned_def asking_def)

lemma mon_reachable_inv: "mon_reachable y \<Longrightarrow> monitorInv y"
  by (induction rule: mon_reachable.induct) (rule newMonitor_inv, rule mon_step_inv)

text \<open>C13: the monitor of the outgoing transfers never sleeps through a deadline. Whatever the interleaving of the calls of
  \<open>scheduleOutgoingMonitor\<close> (a compare-and-swap loop and a wake-up channel that drops tokens) with the loop of
  \<open>runOutgoingMonitor\<close> and with the clock, once no call is in progress and the monitor waits in its select with no token
  left, then for every time asked for since its last pass its timer is armed, and set no later than that time,
  except that it is never set earlier than a millisecond after it was armed.\<close>

theorem monitor_never_sleeps:
  assumes "mon_reachable y" "moPc y = MonSelect" "\<not> moWake y" "moCalls y = {#}" "d \<in> moWanted y"
  shows "moArmed y \<noteq> 0 \<and> moTimer y \<le> max d (moArmedAt y + 10 ^ 6)"
  using mon_reachable_inv [OF assms(1)] assms(2-) by (auto simp: monitorInv_def planned_def asking_def)

text \<open>Two calls race: both have loaded the empty \<open>outgoingNext\<close>, the later deadline is swapped in first, the earlier one has
  to load again.\<close>

lemma monitor_never_sleeps_witness:
  "\<exists>y :: Monitor. moWanted y = {2 * 10 ^ 6, 3 * 10 ^ 6} \<and> moArmed y \<noteq> 0 \<and> moTimer y \<le> 2 * 10 ^ 6"
proof -
  let ?n = "newMonitor 5" and ?early = "2000000 :: int" and ?late = "3000000 :: int"
  define y where "y = ?n\<lparr>moWanted := {?early, ?late}\<rparr>"
  have 1: "mon_reachable (request ?late (request ?early ?n))"
    by (rule mon_next [OF mon_next [OF mon_new] asked]) (auto intro: asked)
  have "mon_reachable (y\<lparr>moCalls := {#SchedLoad ?early, SchedLoad ?late#}\<rparr>)"
    using 1 by (simp add: y_def newMonitor_def request_def insert_commute add_mset_commute)
  then have "mon_reachable (y\<lparr>moCalls := {#SchedLoaded ?early 0, SchedLoad ?late#}\<rparr>)"
    by (rule mon_next) (use sched_loads [of "y\<lparr>moCalls := {#SchedLoad ?early, SchedLoad ?late#}\<rparr>" ?early "{#SchedLoad ?late#}"]
      in \<open>simp add: y_def newMonitor_def schedLoad_def\<close>)
  then have "mon_reachable (y\<lparr>moCalls := {#SchedLoaded ?late 0, SchedLoaded ?early 0#}\<rparr>)"
    by (rule mon_next) (use sched_loads [of "y\<lparr>moCalls := {#SchedLoaded ?early 0, SchedLoad ?late#}\<rparr>" ?late "{#SchedLoaded ?early 0#}"]
      in \<open>simp add: y_def newMonitor_def schedLoad_def add_mset_commute\<close>)
  then have "mon_reachable (y\<lparr>moNext := ?late, moCalls := {#SchedWake ?late, SchedLoaded ?early 0#}\<rparr>)"
    by (rule mon_next) (use sched_swaps [of "y\<lparr>moCalls := {#SchedLoaded ?late 0, SchedLoaded ?early 0#}\<rparr>" ?late 0 "{#SchedLoaded ?early 0#}"]
      in \<open>simp add: y_def newMonitor_def schedSwap_def\<close>)
  then have "mon_reachable (y\<lparr>moNext := ?late, moWake := True, moCalls := {#SchedLoaded ?early 0#}\<rparr>)"
    by (rule mon_next) (use sched_wakes [of "y\<lparr>moNext := ?late, moCalls := {#SchedWake ?late, SchedLoaded ?early 0#}\<rparr>" ?late "{#SchedLoaded ?early 0#}"]
      in \<open>simp add: y_def newMonitor_def schedWake_def\<close>)
  then have "mon_reachable (y\<lparr>moNext := ?late, moWake := True, moCalls := {#SchedLoad ?early#}\<rparr>)"
    by (rule mon_next) (use sched_swaps [of "y\<lparr>moNext := ?late, moWake := True, moCalls := {#SchedLoaded ?early 0#}\<rparr>" ?early 0 "{#}"]
      in \<open>simp add: y_def newMonitor_def schedSwap_def\<close>)
  then have "mon_reachable (y\<lparr>moNext := ?late, moWake := True, moCalls := {#SchedLoaded ?early ?late#}\<rparr>)"
    by (rule mon_next) (use sched_loads [of "y\<lparr>moNext := ?late, moWake := True, moCalls := {#SchedLoad ?early#}\<rparr>" ?early "{#}"]
      in \<open>simp add: y_def newMonitor_def schedLoad_def\<close>)
  then have "mon_reachable (y\<lparr>moNext := ?early, moWake := True, moCalls := {#SchedWake ?early#}\<rparr>)"
    by (rule mon_next) (use sched_swaps [of "y\<lparr>moNext := ?late, moWake := True, moCalls := {#SchedLoaded ?early ?late#}\<rparr>" ?early ?late "{#}"]
      in \<open>simp add: y_def newMonitor_def schedSwap_def\<close>)
  then have "mon_reachable (y\<lparr>moNext := ?early, moWake := True\<rparr>)"
    by (rule mon_next) (use sched_wakes [of "y\<lparr>moNext := ?early, moWake := True, moCalls := {#SchedWake ?early#}\<rparr>" ?early "{#}"]
      in \<open>simp add: y_def newMonitor_def schedWake_def\<close>)
  then have "mon_reachable (y\<lparr>moNext := ?early, moPc := MonWoken\<rparr>)"
    by (rule mon_next) (use woken [of "y\<lparr>moNext := ?early, moWake := True\<rparr>"] in \<open>simp add: y_def newMonitor_def\<close>)
  then have "mon_reachable (monArm (y\<lparr>moNext := ?early, moPc := MonWoken\<rparr>))"
    by (rule mon_next) (rule arms, simp)
  then have "moArmed (monArm (y\<lparr>moNext := ?early, moPc := MonWoken\<rparr>)) \<noteq> 0 \<and> moTimer (monArm (y\<lparr>moNext := ?early, moPc := MonWoken\<rparr>)) \<le> 2 * 10 ^ 6"
    using monitor_never_sleeps [of "monArm (y\<lparr>moNext := ?early, moPc := MonWoken\<rparr>)" ?early]
    by (simp add: y_def newMonitor_def monArm_def)
  then show ?thesis
    by - (rule exI [of _ "monArm (y\<lparr>moNext := ?early, moPc := MonWoken\<rparr>)"], simp add: y_def newMonitor_def monArm_def)
qed

subsection \<open>A pass asks for the next one in time\<close>

definition noted :: "int \<Rightarrow> timeoutPass \<Rightarrow> int \<Rightarrow> bool" where
  "noted now p d \<longleftrightarrow> 0 \<le> tpNext p \<and> now + tpNext p \<le> d"

lemma noted_noteDelay:
  "noted now p d \<Longrightarrow> 0 \<le> delay \<Longrightarrow> noted now (noteDelay delay p) d"
  "0 \<le> delay \<Longrightarrow> now + delay \<le> d \<Longrightarrow> noted now (noteDelay delay p) d"
  by (auto simp: noted_def noteDelay_def)

lemma noted_more [simp]:
  "noted now (p\<lparr>tpTasks := ts\<rparr>) d = noted now p d" "noted now (p\<lparr>tpEvents := es\<rparr>) d = noted now p d"
  by (simp_all add: noted_def)

lemma nextDeadline_le:
  "nextOutgoingDeadlineLocked ot = Some d \<Longrightarrow>
     otDoneSending ot \<and> \<not> otCompleted ot \<and> (\<exists>t. otCommitSentAt ot = Some t \<and> d = t + otAckTimeout ot)
     \<or> (\<exists>c \<in> set (otPending ot). \<not> skAcked c \<and> d = skSentAt c + otAckTimeout ot)"
proof -
  let ?f = "\<lambda>next chunk.
         if skAcked chunk then next
         else let deadline = skSentAt chunk + otAckTimeout ot
              in case next of None \<Rightarrow> Some deadline | Some n \<Rightarrow> Some (if deadline < n then deadline else n)"
  have "foldl ?f a cs = Some d \<Longrightarrow> a = Some d \<or> (\<exists>c \<in> set cs. \<not> skAcked c \<and> d = skSentAt c + otAckTimeout ot)" for a cs
    by (induction cs arbitrary: a) (force simp: Let_def split: if_splits option.splits)+
  then show "nextOutgoingDeadlineLocked ot = Some d \<Longrightarrow> ?thesis"
    unfolding nextOutgoingDeadlineLocked_def by (fastforce split: if_splits)
qed

lemma commitTimeout_noted:
  assumes "commitTimeout now (ot, p) = (ot', p')" "0 \<le> otAckTimeout ot" "otFailed ot = None"
  shows "noted now p d \<Longrightarrow> noted now p' d"
    "otFailed ot' = None \<Longrightarrow> otDoneSending ot' \<Longrightarrow> \<not> otCompleted ot' \<Longrightarrow> otCommitSentAt ot' = Some t \<Longrightarrow> noted now p' (t + otAckTimeout ot')"
    "otAckTimeout ot' = otAckTimeout ot" "otPending ot' = otPending ot"
  using assms by (auto simp: commitTimeout_def Let_def noted_noteDelay split: option.splits if_splits)

lemma chunkTimeouts_noted:
  "chunkTimeouts now ot cs p = (cs', f, p') \<Longrightarrow> 0 \<le> otAckTimeout ot \<Longrightarrow>
   (noted now p d \<longrightarrow> noted now p' d) \<and> (f = None \<longrightarrow> (\<forall>c \<in> set cs'. \<not> skAcked c \<longrightarrow> noted now p' (skSentAt c + otAckTimeout ot)))"
proof (induction cs arbitrary: p cs' f p' d)
  case (Cons c cs)
  define delay where "delay = skSentAt c + otAckTimeout ot - now"
  consider "skAcked c" | "\<not> skAcked c" "delay > 0" | "\<not> skAcked c" "delay \<le> 0" "skRetries c < otRetryLimit ot"
    | "\<not> skAcked c" "delay \<le> 0" "\<not> skRetries c < otRetryLimit ot" by linarith
  then show ?case
  proof cases
    case 1
    then obtain cs1 where "chunkTimeouts now ot cs p = (cs1, f, p')" "cs' = c # cs1"
      using Cons.prems(1) by (auto simp: apfst_def map_prod_def split: prod.splits)
    with Cons.IH [of p cs1 f p'] Cons.prems(2) 1 show ?thesis by auto
  next
    case 2
    then obtain cs1 where "chunkTimeouts now ot cs (noteDelay delay p) = (cs1, f, p')" "cs' = c # cs1"
      using Cons.prems(1) by (auto simp: apfst_def map_prod_def delay_def Let_def split: prod.splits)
    with Cons.IH [of "noteDelay delay p" cs1 f p'] Cons.prems(2) 2 show ?thesis
      by (auto simp: noted_noteDelay delay_def)
  next
    case 3
    define q where "q = noteDelay (otAckTimeout ot) (p\<lparr>tpTasks := tpTasks p @
             [\<lparr>rtTransfer = otId ot, rtFrame = skFrame c, rtChunkID = skChunkID c, rtCommit = False\<rparr>]\<rparr>)"
    obtain cs1 where "chunkTimeouts now ot cs q = (cs1, f, p')" "cs' = c\<lparr>skRetries := skRetries c + 1, skSentAt := now\<rparr> # cs1"
      using Cons.prems(1) 3 by (auto simp: apfst_def map_prod_def delay_def q_def Let_def split: prod.splits)
    moreover have "noted now p d \<Longrightarrow> noted now q d" for d using Cons.prems(2) by (simp add: q_def noted_noteDelay)
    moreover have "noted now q (now + otAckTimeout ot)" using Cons.prems(2) by (simp add: q_def noted_noteDelay)
    ultimately show ?thesis using Cons.IH [of q cs1 f p'] Cons.prems(2) 3 by auto
  next
    case 4
    with Cons.prems(1) show ?thesis by (auto simp: delay_def Let_def)
  qed
qed auto

lemma timeoutTransfer_noted:
  assumes "timeoutTransfer now ot p = (ot', p')" "0 \<le> otAckTimeout ot"
  shows "noted now p d \<Longrightarrow> noted now p' d"
    "otFailed ot' = None \<Longrightarrow> nextOutgoingDeadlineLocked ot' = Some d' \<Longrightarrow> noted now p' d'"
proof -
  obtain ot1 p1 where 1: "commitTimeout now (ot, p) = (ot1, p1)" by force
  obtain cs f p2 where 2: "chunkTimeouts now ot1 (otPending ot1) p1 = (cs, f, p2)" by (metis prod_cases3)
  let ?idle = "otFailed ot \<noteq> None \<or> otDoneSending ot \<and> otPending ot = [] \<and> otCompleted ot"
  have idle: "ot' = ot \<and> p' = p" if ?idle using that assms(1) by (auto simp: timeoutTransfer_def)
  have failed: "ot' = ot1 \<and> p' = p1" if "\<not> ?idle" "otFailed ot1 \<noteq> None"
    using that assms(1) by (auto simp: timeoutTransfer_def 1)
  have live: "ot' = ot1\<lparr>otPending := cs, otFailed := f\<rparr> \<and> p' = p2" if "\<not> ?idle" "otFailed ot1 = None"
    using that assms(1) by (auto simp: timeoutTransfer_def 1 2)
  note c = commitTimeout_noted [OF 1 assms(2)] and k = chunkTimeouts_noted [OF 2]
  show "noted now p' d"
    if "noted now p d" for d
  proof (cases ?idle)
    case True
    with idle that show ?thesis by simp
  next
    case False
    then have p1: "noted now p1 d" using c(1) that by simp
    then have "noted now p2 d" using k [of d] c(3) assms(2) False by simp
    with p1 failed live False show ?thesis by (cases "otFailed ot1") auto
  qed
  assume n: "otFailed ot' = None" "nextOutgoingDeadlineLocked ot' = Some d'"
  show "noted now p' d'"
  proof (cases ?idle)
    case True
    with idle n nextDeadline_le [OF n(2)] show ?thesis by auto
  next
    case False
    with failed n(1) have "otFailed ot1 = None" by (cases "otFailed ot1") auto
    with False live n(1) have l: "ot' = ot1\<lparr>otPending := cs, otFailed := None\<rparr>" "p' = p2" "f = None" by auto
    from False have "otFailed ot = None" by simp
    then have c': "\<And>t. otDoneSending ot1 \<Longrightarrow> \<not> otCompleted ot1 \<Longrightarrow> otCommitSentAt ot1 = Some t \<Longrightarrow> noted now p1 (t + otAckTimeout ot1)"
      and a: "0 \<le> otAckTimeout ot1"
      using c(2,3) \<open>otFailed ot1 = None\<close> assms(2) by simp_all
    from nextDeadline_le [OF n(2)] show ?thesis
    proof
      assume "\<exists>c \<in> set (otPending ot'). \<not> skAcked c \<and> d' = skSentAt c + otAckTimeout ot'"
      then show ?thesis using k [OF a] by (auto simp: l)
    qed (use c' k [OF a] in \<open>auto simp: l\<close>)
  qed
qed

lemma timeoutAll_noted:
  "timeoutAll now al p = (al', p') \<Longrightarrow> \<forall>x \<in> set al. 0 \<le> otAckTimeout (snd x) \<Longrightarrow>
   (noted now p d \<longrightarrow> noted now p' d)
   \<and> (\<forall>x \<in> set al'. \<forall>d. otFailed (snd x) = None \<longrightarrow> nextOutgoingDeadlineLocked (snd x) = Some d \<longrightarrow> noted now p' d)"
proof (induction al arbitrary: p al' p' d)
  case (Cons x al)
  obtain i ot where x: "x = (i, ot)" by force
  obtain ot1 p1 where 1: "timeoutTransfer now ot p = (ot1, p1)" by force
  obtain al1 p2 where 2: "timeoutAll now al p1 = (al1, p2)" by force
  have r: "al' = (i, ot1) # al1" "p' = p2" using Cons.prems(1) by (simp_all add: x 1 2)
  have a: "0 \<le> otAckTimeout ot" using Cons.prems(2) by (simp add: x)
  show ?case
    using Cons.IH [OF 2] Cons.prems(2) timeoutTransfer_noted [OF 1 a] by (auto simp: r)
qed simp

text \<open>C14: a pass of the monitor asks for its next pass in time. For every transfer that has not failed after
  \<open>processOutgoingTimeouts\<close> (with the resends it sends), the earliest deadline of its chunks and of its commit is not
  before the delay the pass returns, and that delay is not negative, so the monitor does schedule itself; and when the
  delay is negative there is no deadline to wait for.\<close>

theorem timeout_pass_covers:
  assumes pass: "processOutgoingTimeouts env now s = (delay, s')"
    and timeouts: "\<forall>x \<in> set (sOutgoing s). 0 \<le> otAckTimeout (snd x)"
    and before: "map_of (sOutgoing s) i = Some ot0" and after: "map_of (sOutgoing s') i = Some ot"
    and live: "otFailed ot = None" "nextOutgoingDeadlineLocked ot = Some d"
  shows "0 \<le> delay \<and> now + delay \<le> d"
proof -
  let ?p = "\<lparr>tpEvents = [], tpTasks = [], tpNext = - 1\<rparr>"
  obtain al p where t: "timeoutAll now (sOutgoing s) ?p = (al, p)" by force
  let ?s = "s\<lparr>sOutgoing := al, sEvents := sEvents s @ tpEvents p\<rparr>"
  have r: "delay = tpNext p" "s' = runTasks env (tpTasks p) ?s" using pass by (simp_all add: processOutgoingTimeouts_def t)
  let ?P = "\<lambda>ot. \<forall>d. nextOutgoingDeadlineLocked ot = Some d \<longrightarrow> noted now p d"
  obtain q where "map_of al i = Some (fst (timeoutTransfer now ot0 q))"
    using timeoutAll_Some [OF before, of now ?p] t by auto
  then have "failedOr ?P i ?s"
    using timeoutAll_noted [OF t timeouts] by (fastforce simp: failedOr_def dest: map_of_SomeD)
  from failedOr_runTasks [OF this, of env "tpTasks p"] show ?thesis
    using after live by (auto simp: failedOr_def r noted_def)
qed

theorem timeout_pass_covers_witness:
  defines "ot \<equiv> sampleOutgoing\<lparr>otPending := [\<lparr>skChunkID = 0, skFrame = sampleFrame, skSentAt = 0, skRetries = 0,
      skAcked = False, skPayloadN = 4\<rparr>], otPendingBytes := 4\<rparr>"
  shows "fst (processOutgoingTimeouts quietEnv 30 ((newDefault RoleClient)\<lparr>sOutgoing := [(7, ot)]\<rparr>)) = 70
    \<and> 0 \<le> (70 :: int) \<and> 30 + 70 \<le> the (nextOutgoingDeadlineLocked ot)"
proof -
  let ?s = "(newDefault RoleClient)\<lparr>sOutgoing := [(7, ot)]\<rparr>"
  have pass: "processOutgoingTimeouts quietEnv 30 ?s = (70, ?s\<lparr>sEvents := sEvents ?s @ []\<rparr>)"
    by (simp add: processOutgoingTimeouts_def ot_def sampleOutgoing_def timeoutTransfer_def commitTimeout_def noteDelay_def Let_def)
  have d: "nextOutgoingDeadlineLocked ot = Some 100"
    by (simp add: ot_def sampleOutgoing_def nextOutgoingDeadlineLocked_def)
  have "otFailed ot = None" "0 \<le> otAckTimeout ot" by (simp_all add: ot_def sampleOutgoing_def)
  with timeout_pass_covers [OF pass, of 7 ot ot 100] d pass show ?thesis by simp
qed

end
