(* ===== verification/Etp_Launch.thy ===== *)
theory Etp_Launch
  imports Etp_Reassembly "HOL-Library.Multiset"
begin

text \<open>
  Sending messages and transfers (\<open>src/internal/etp/session.go\<close>): the options of the callers, the goroutine each outgoing transfer
  runs in (\<open>launchTransfer\<close>, \<open>ResumeTransfer\<close>, \<open>SendTransfer\<close>), its cancellation, and the choice between a request frame and a
  transfer (\<open>Request\<close>, \<open>Respond\<close>). The pieces of a transfer (\<open>sendTransfer\<close>, \<open>bodyStep\<close>, \<open>sendEnd\<close>, \<open>waitOutgoingAcked\<close>) are those of
  \<open>Etp_Outgoing\<close>; here they are composed in the order of the code, as steps that interleave with other goroutines. Shown: every goroutine reports
  once and gives its place back, a failed transfer lets its goroutine go, a message travels whole, and two
  transfers started together may announce themselves in the wrong order.
\<close>

section \<open>The options of the callers\<close>

text \<open>The reader of a message or transfer is application code: what it has to give is a parameter of the goroutine. The
  \<open>OpenReader\<close> of a resumed transfer fails, returns no reader, or one that gives the bytes from the offset on.\<close>

record MessageOptions =
  mgEvent :: string
  mgData :: bytes
  mgFields :: "TransferField list"
  mgHasReader :: bool
  mgSize :: u64
  mgName :: string
  mgField :: string
  mgIndex :: u32
  mgContentType :: u32
  mgChunkSize :: int
  mgAckTimeout :: int
  mgRetryLimit :: int

record MessageHandle =
  mhRequestID :: u64
  mhTransferID :: u64

record ResumeTransferOptions =
  roOptions :: TransferOptions
  roTransferID :: u64
  roToken :: bytes
  roReceivedBytes :: u64
  roNextChunk :: u32
  roOpenReader :: "(u64 \<Rightarrow> bytes option go) option"

section \<open>The goroutine of a transfer\<close>

text \<open>
  Where the goroutine is: not yet run; about to send the announcement, or the request to resume; waiting for the
  decision of the peer; in the loop of \<open>sendTransferBody\<close>; past it; waiting for the last acknowledgements; with the result of the
  call; returned. The flag of a phase that waits on the condition variable says that it has waited, after which the
  context is asked first.
\<close>

datatype taskPhase =
    TaskReady
  | TaskSend
  | TaskResume bool
  | TaskBody bodyState bool
  | TaskEnd bodyState
  | TaskWait bodyState bool
  | TaskFinish "go_error option"
  | TaskReturned

text \<open>\<open>tkSource\<close> is what the reader gives. \<open>tkParentErr\<close> and \<open>tkCtxErr\<close> are \<open>Err()\<close> of the context of the caller and of
  the one derived from it, \<open>tkParentDone\<close> whether the caller's can be cancelled at all, \<open>tkWatch\<close> the registration of
  \<open>context.AfterFunc\<close>, \<open>tkWatching\<close> that its function was started; \<open>tkResult\<close> is the content of the channel \<open>done\<close>, \<open>tkClosed\<close> that it is closed.\<close>

record transferTask =
  tkId :: u64
  tkOpts :: TransferOptions
  tkResume :: "ResumeTransferOptions option"
  tkSource :: bytes
  tkCancelable :: bool
  tkRegisterErr :: "go_error option"
  tkParentDone :: bool
  tkParentErr :: "go_error option"
  tkCtxErr :: "go_error option"
  tkWatch :: bool
  tkWatching :: bool
  tkCancelOnce :: bool
  tkPhase :: taskPhase
  tkResult :: "go_error option list"
  tkClosed :: bool

definition newTask :: "u64 \<Rightarrow> TransferOptions \<Rightarrow> ResumeTransferOptions option \<Rightarrow> bytes \<Rightarrow> bool \<Rightarrow> bool \<Rightarrow> go_error option \<Rightarrow> transferTask" where
  "newTask transferID opts resume source cancelable parentDone registerErr =
     \<lparr>tkId = transferID, tkOpts = opts, tkResume = resume, tkSource = (if toUseData opts then toData opts else source),
      tkCancelable = cancelable, tkRegisterErr = registerErr, tkParentDone = parentDone, tkParentErr = None,
      tkCtxErr = None, tkWatch = False, tkWatching = False, tkCancelOnce = False, tkPhase = TaskReady, tkResult = [], tkClosed = False\<rparr>"

definition launchTransfer :: "TransferOptions \<Rightarrow> bytes \<Rightarrow> bool \<Rightarrow> bool \<Rightarrow> Session \<Rightarrow> transferTask \<times> Session" where
  "launchTransfer opts source cancelable parentDone s =
     (let opts = normalizeTransferOptions s opts;
          transferID = sNextTransfer s + 1;
          s = s\<lparr>sNextTransfer := transferID\<rparr>;
          (registerErr, s) = registerOutgoing transferID opts s
      in (newTask transferID opts None source cancelable parentDone registerErr, s))"

text \<open>\<open>SendTransfer\<close> runs the same steps in the goroutine of the caller, with a context that cannot be cancelled.\<close>

definition noOptions :: TransferOptions where
  "noOptions = \<lparr>toRequestID = 0, toEvent = [], toField = [], toIndex = 0, toParts = [], toName = [], toContentType = 0,
     toHasReader = False, toTotalSize = 0, toFields = [], toChunkSize = 0, toAckTimeout = 0, toRetryLimit = 0, toMaxInFlight = 0,
     toMaxInFlightBytes = 0, toChecksum = replicate 32 0, toChecksumMode = 0, toData = [], toUseData = False\<rparr>"

definition SendTransfer :: "string \<Rightarrow> u32 \<Rightarrow> bytes \<Rightarrow> u64 \<Rightarrow> Session \<Rightarrow> transferTask \<times> Session" where
  "SendTransfer name contentType source totalSize =
     launchTransfer (noOptions\<lparr>toName := name, toContentType := contentType, toHasReader := True, toTotalSize := totalSize\<rparr>)
       source False False"

definition StartTransfer :: "TransferOptions \<Rightarrow> bytes \<Rightarrow> bool \<Rightarrow> Session \<Rightarrow> transferTask \<times> Session" where
  "StartTransfer opts source parentDone = launchTransfer opts source True parentDone"

definition ResumeTransfer :: "ResumeTransferOptions \<Rightarrow> bool \<Rightarrow> Session \<Rightarrow> transferTask \<times> Session" where
  "ResumeTransfer ro parentDone s =
     (let opts = normalizeTransferOptions s (roOptions ro);
          ro = ro\<lparr>roOptions := opts\<rparr>;
          (registerErr, s) =
            (if roTransferID ro = 0 then (Some (Err ''resume transfer id is required''), s)
             else if roOpenReader ro = None then (Some (Err ''resume reader opener is required''), s)
             else registerOutgoing (roTransferID ro) opts s);
          s = (if registerErr = None then bumpTransferID (roTransferID ro) s else s)
      in (newTask (roTransferID ro) opts (Some ro) [] True parentDone registerErr, s))"

text \<open>\<open>sendResumedTransfer\<close> up to the wait; \<open>openResumed\<close> below is what follows it, where the error of the opener is wrapped.\<close>

definition sendResume :: "SessionEnv \<Rightarrow> ResumeTransferOptions \<Rightarrow> op" where
  "sendResume env ro s =
     (let opts = roOptions ro in
      case requireEstablished s ''resume transfer'' of Some e \<Rightarrow> (Some e, s)
      | None \<Rightarrow>
        if scCapabilities (sConfig s) AND CapabilityTransferResume = 0
        then (Some (Err ''local transfer resume support is disabled''), s)
        else case requireRemoteCapability s CapabilityTransferResume ''transfer resume'' of Some e \<Rightarrow> (Some e, s)
        | None \<Rightarrow> op_try (validateOutgoingTransfer opts False) (\<lambda>s.
            if transferOffsetForChunk (toTotalSize opts) (word_of_int (toChunkSize opts)) (roNextChunk ro) \<noteq> Some (roReceivedBytes ro)
            then (Some (Err ''invalid local transfer resume counters''), s)
            else requestTransferResume env (toRequestID opts)
              \<lparr>trTransferID = roTransferID ro, trReceivedBytes = roReceivedBytes ro, trNextChunk = roNextChunk ro, trToken = roToken ro\<rparr> s) s)"

text \<open>\<open>callSafely\<close>: a panic becomes an error of the call.\<close>

definition callSafely :: "string \<Rightarrow> go_error option \<Rightarrow> go_error option" where
  "callSafely scope err = (if err = Some GoPanic then Some (Err (scope @ '' panic'')) else err)"

text \<open>The last actions of the goroutine: the watch on the context of the caller is removed, the transfer unregistered, the
  derived context cancelled, the result sent, the channel closed. A context that is cancelled already keeps its error.\<close>

definition ErrCanceled :: go_error where "ErrCanceled = Err ''context canceled''"

definition finishTask :: "go_error option \<Rightarrow> transferTask \<Rightarrow> Session \<Rightarrow> transferTask \<times> Session" where
  "finishTask err t s =
     (t\<lparr>tkWatch := False, tkCtxErr := (if tkCancelable t \<and> tkCtxErr t = None then Some ErrCanceled else tkCtxErr t),
        tkPhase := TaskReturned, tkResult := tkResult t @ [err], tkClosed := True\<rparr>,
      if tkRegisterErr t = None then unregisterOutgoing (tkId t) s else s)"

text \<open>
  The pieces of the call, each up to the next point where the goroutine waits, with the phase that follows. \<open>fault\<close> is what the
  reader of the application reports when it is called: \<open>None\<close> when it gives the bytes, an error, or a panic.
\<close>

definition callEnds :: "transferTask \<Rightarrow> go_error option \<Rightarrow> taskPhase" where
  "callEnds t err = TaskFinish (callSafely (if tkResume t = None then ''outgoing transfer'' else ''outgoing resumed transfer'') err)"

definition sendPhase :: "SessionEnv \<Rightarrow> transferTask \<Rightarrow> Session \<Rightarrow> taskPhase \<times> Session" where
  "sendPhase env t s =
     (case tkResume t of
        None \<Rightarrow> (case sendTransfer env (tkId t) (tkOpts t) s of
            (Some e, s) \<Rightarrow> (callEnds t (Some e), s)
          | (None, s) \<Rightarrow> (TaskBody \<lparr>bsWritten = 0, bsChunkID = 0, bsRest = tkSource t\<rparr> False, s))
      | Some ro \<Rightarrow> (case sendResume env ro s of
            (Some e, s) \<Rightarrow> (callEnds t (Some e), s)
          | (None, s) \<Rightarrow> (TaskResume False, s)))"

definition openResumed :: "SessionEnv \<Rightarrow> transferTask \<Rightarrow> ResumeTransferOptions \<Rightarrow> u64 \<Rightarrow> u32 \<Rightarrow> Session \<Rightarrow> taskPhase \<times> Session" where
  "openResumed env t ro receivedBytes nextChunk s =
     (let cancel = (\<lambda>s. snd (CancelTransfer env (roTransferID ro) CancelProtocol CancelDeletePartial s)) in
      case (case roOpenReader ro of None \<Rightarrow> Inl GoPanic | Some open_reader \<Rightarrow> open_reader receivedBytes) of
        Inl err \<Rightarrow> if err = GoPanic then (callEnds t (Some GoPanic), s)
          else (callEnds t (Some (Errf ''open resumed transfer reader'' [uint receivedBytes])), cancel s)
      | Inr None \<Rightarrow> (callEnds t (Some (Err ''resume reader opener returned nil'')), cancel s)
      | Inr (Some source) \<Rightarrow> (TaskBody \<lparr>bsWritten = receivedBytes, bsChunkID = nextChunk, bsRest = source\<rparr> False, s))"

definition resumePhase :: "SessionEnv \<Rightarrow> bool \<Rightarrow> transferTask \<Rightarrow> Session \<Rightarrow> taskPhase \<times> Session" where
  "resumePhase env waited t s =
     (if waited \<and> tkCtxErr t \<noteq> None then (callEnds t (tkCtxErr t), s)
      else case waitResumeDecision (tkId t) s of
        None \<Rightarrow> (TaskResume True, s)
      | Some (Inl e) \<Rightarrow> (callEnds t (Some e), s)
      | Some (Inr (receivedBytes, nextChunk)) \<Rightarrow>
          openResumed env t (the (tkResume t)) receivedBytes nextChunk s)"

definition bodyPhase :: "SessionEnv \<Rightarrow> int \<Rightarrow> go_error option \<Rightarrow> bodyState \<Rightarrow> bool \<Rightarrow> transferTask \<Rightarrow> Session \<Rightarrow> taskPhase \<times> Session" where
  "bodyPhase env now fault b waited t s =
     (if waited \<and> tkCtxErr t \<noteq> None then (callEnds t (tkCtxErr t), s)
      else if fault \<noteq> None \<and> \<not> waited \<and> tkCtxErr t = None \<and> bsWritten b < toTotalSize (tkOpts t) then (callEnds t fault, s)
      else case bodyStep env now (tkCtxErr t) (tkId t) (tkOpts t) b s of
        (BodyBlocked, b, s) \<Rightarrow> (TaskBody b True, s)
      | (BodyMore, b, s) \<Rightarrow> (TaskBody b False, s)
      | (BodyEnd, b, s) \<Rightarrow> (TaskEnd b, s)
      | (BodyFailed e, b, s) \<Rightarrow> (callEnds t (Some e), s))"

definition endPhase :: "SessionEnv \<Rightarrow> int \<Rightarrow> bodyState \<Rightarrow> transferTask \<Rightarrow> Session \<Rightarrow> taskPhase \<times> Session" where
  "endPhase env now b t s =
     (case sendEnd env now (tkId t) (tkOpts t) s of
        (Some e, s) \<Rightarrow> (callEnds t (Some e), s)
      | (None, s) \<Rightarrow> (TaskWait b False, s))"

definition waitPhase :: "bodyState \<Rightarrow> bool \<Rightarrow> transferTask \<Rightarrow> Session \<Rightarrow> taskPhase \<times> Session" where
  "waitPhase b waited t s =
     (if waited \<and> tkCtxErr t \<noteq> None then (callEnds t (tkCtxErr t), s)
      else case waitOutgoingAcked (tkId t) s of
        (Blocked, s) \<Rightarrow> (TaskWait b True, s)
      | (Done (Some e), s) \<Rightarrow> (callEnds t (Some e), s)
      | (Done None, s) \<Rightarrow> (callEnds t None, snd (emitProgress (bodyProgress (tkId t) (tkOpts t) b TransferCompleted) s)))"

definition callPhase :: "SessionEnv \<Rightarrow> int \<Rightarrow> go_error option \<Rightarrow> transferTask \<Rightarrow> Session \<Rightarrow> taskPhase \<times> Session" where
  "callPhase env now fault t =
     (case tkPhase t of
        TaskSend \<Rightarrow> sendPhase env t
      | TaskResume waited \<Rightarrow> resumePhase env waited t
      | TaskBody b waited \<Rightarrow> bodyPhase env now fault b waited t
      | TaskEnd b \<Rightarrow> endPhase env now b t
      | TaskWait b waited \<Rightarrow> waitPhase b waited t
      | p \<Rightarrow> (\<lambda>s. (p, s)))"

text \<open>One step of the goroutine at the time \<open>now\<close>.\<close>

definition taskStep :: "SessionEnv \<Rightarrow> int \<Rightarrow> go_error option \<Rightarrow> transferTask \<Rightarrow> Session \<Rightarrow> transferTask \<times> Session" where
  "taskStep env now fault t s =
     (case tkPhase t of
        TaskReady \<Rightarrow>
          (case tkRegisterErr t of
             Some e \<Rightarrow> (t\<lparr>tkPhase := TaskFinish (Some e)\<rparr>, s)
           | None \<Rightarrow> (t\<lparr>tkPhase := TaskSend, tkWatch := tkParentDone t \<and> tkParentErr t = None,
                          tkWatching := tkParentErr t \<noteq> None\<rparr>, s))
      | TaskFinish e \<Rightarrow> finishTask e t s
      | TaskReturned \<Rightarrow> (t, s)
      | _ \<Rightarrow> apfst (\<lambda>p. t\<lparr>tkPhase := p\<rparr>) (callPhase env now fault t s))"

text \<open>
  The context of the caller is cancelled, which reaches the derived one; the function registered with
  \<open>AfterFunc\<close> is started as a goroutine of its own, which runs some time later, even after the transfer has ended.
  \<open>TransferHandle.Cancel\<close> cancels the derived context, wakes the goroutine (\<open>cancelOutgoing\<close>, which only
  broadcasts), and tells the peer, once.
\<close>

definition cancelParent :: "go_error \<Rightarrow> transferTask \<Rightarrow> transferTask" where
  "cancelParent e t = (if tkParentDone t \<and> tkParentErr t = None
     then t\<lparr>tkParentErr := Some e, tkCtxErr := (if tkCtxErr t = None then Some e else tkCtxErr t),
            tkWatch := False, tkWatching := tkWatch t\<rparr> else t)"

definition watchFires :: "transferTask \<Rightarrow> Session \<Rightarrow> transferTask \<times> Session" where
  "watchFires t s =
     (t\<lparr>tkWatching := False\<rparr>,
      case (tkParentErr t, map_of (sOutgoing s) (tkId t)) of
        (Some e, Some ot) \<Rightarrow> putOutgoing (tkId t) (fail e ot) s
      | _ \<Rightarrow> s)"

definition CancelHandle :: "SessionEnv \<Rightarrow> u16 \<Rightarrow> u16 \<Rightarrow> transferTask \<Rightarrow> Session \<Rightarrow> go_error option \<times> transferTask \<times> Session" where
  "CancelHandle env reason flags t s =
     (if tkCancelOnce t then (None, t, s)
      else
      let t = t\<lparr>tkCancelOnce := True, tkCtxErr := (if tkCtxErr t = None then Some ErrCanceled else tkCtxErr t)\<rparr>;
          (err, s) = CancelTransfer env (tkId t) reason flags s
      in (err, t, s))"

section \<open>Messages\<close>

definition ContentFile :: u32 where [simp]: "ContentFile = 1"

definition inlinePayloadSize :: "Session \<Rightarrow> MessageOptions \<Rightarrow> u32 \<Rightarrow> u64 \<times> bool" where
  "inlinePayloadSize s opts limit =
     (if mgHasReader opts then (0, False)
      else let payloadSize = eventMessagePayloadSize64 (length (mgEvent opts)) (length (mgData opts)) (mgFields opts)
           in (payloadSize, payloadSize \<le> ucast limit \<and> payloadSize \<le> ucast (plMaxInlineBodyBytes (scPayload (sConfig s)))))"

definition messageTransferOptions :: "u64 \<Rightarrow> MessageOptions \<Rightarrow> u64 \<Rightarrow> TransferOptions" where
  "messageTransferOptions requestID opts total_size =
     \<lparr>toRequestID = requestID, toEvent = mgEvent opts, toField = mgField opts, toIndex = mgIndex opts, toParts = [],
      toName = mgName opts, toContentType = (if mgContentType opts = 0 then ContentFile else mgContentType opts),
      toHasReader = mgHasReader opts, toTotalSize = total_size, toFields = mgFields opts, toChunkSize = mgChunkSize opts,
      toAckTimeout = mgAckTimeout opts, toRetryLimit = mgRetryLimit opts, toMaxInFlight = 0, toMaxInFlightBytes = 0,
      toChecksum = replicate 32 0, toChecksumMode = 0,
      toData = (if mgHasReader opts then [] else mgData opts), toUseData = (\<not> mgHasReader opts)\<rparr>"

text \<open>The goroutine that was started, if any, comes with the handle or the error.\<close>

definition startMessageTransfer :: "u64 \<Rightarrow> MessageOptions \<Rightarrow> bytes \<Rightarrow> bool \<Rightarrow> Session
    \<Rightarrow> (MessageHandle \<times> transferTask) go \<times> Session" where
  "startMessageTransfer requestID opts source parentDone s =
     (if mgHasReader opts \<and> mgSize opts = 0 then (Inl (Err ''message reader size is required''), s)
      else
      let n = (if mgHasReader opts then mgSize opts else of_nat (length (mgData opts)));
          (t, s) = launchTransfer (messageTransferOptions requestID opts n) source False parentDone s
      in (Inr (\<lparr>mhRequestID = requestID, mhTransferID = tkId t\<rparr>, t), s))"

record sendOutcome =
  soHandle :: MessageHandle
  soErr :: "go_error option"
  soTask :: "transferTask option"

definition messageOutcome :: "(MessageHandle \<times> transferTask) go \<Rightarrow> sendOutcome" where
  "messageOutcome r = (case r of
     Inl e \<Rightarrow> \<lparr>soHandle = \<lparr>mhRequestID = 0, mhTransferID = 0\<rparr>, soErr = Some e, soTask = None\<rparr>
   | Inr (h, t) \<Rightarrow> \<lparr>soHandle = h, soErr = None, soTask = Some t\<rparr>)"

definition Request :: "SessionEnv \<Rightarrow> MessageOptions \<Rightarrow> bytes \<Rightarrow> bool \<Rightarrow> Session \<Rightarrow> sendOutcome \<times> Session" where
  "Request env opts source parentDone s =
     (let requestID = sNextRequest s + 1; s = s\<lparr>sNextRequest := requestID\<rparr>;
          (payloadSize, inline) = inlinePayloadSize s opts (plMaxRequestBytes (scPayload (sConfig s)))
      in if inline
         then let (err, s) = sendRequestWithIDSize env requestID (mgEvent opts) (mgData opts) (mgFields opts) payloadSize s
              in (\<lparr>soHandle = \<lparr>mhRequestID = requestID, mhTransferID = 0\<rparr>, soErr = err, soTask = None\<rparr>, s)
         else apfst messageOutcome (startMessageTransfer requestID opts source parentDone s))"

definition SendMessage :: "SessionEnv \<Rightarrow> MessageOptions \<Rightarrow> bytes \<Rightarrow> bool \<Rightarrow> Session \<Rightarrow> sendOutcome \<times> Session" where
  "SendMessage = Request"

definition Respond :: "SessionEnv \<Rightarrow> u64 \<Rightarrow> MessageOptions \<Rightarrow> bytes \<Rightarrow> bool \<Rightarrow> Session \<Rightarrow> sendOutcome \<times> Session" where
  "Respond env requestID opts source parentDone s =
     (if requestID = 0 then (messageOutcome (Inl (Err ''response request id is required'')), s)
      else
      let (payloadSize, inline) = inlinePayloadSize s opts (plMaxResponseBytes (scPayload (sConfig s)))
      in if inline
         then let (err, s) = sendResponseWithIDSize env requestID (mgEvent opts) (mgData opts) (mgFields opts) payloadSize s
              in (\<lparr>soHandle = \<lparr>mhRequestID = requestID, mhTransferID = 0\<rparr>, soErr = err, soTask = None\<rparr>, s)
         else apfst messageOutcome (startMessageTransfer requestID opts source parentDone s))"

section \<open>Many goroutines\<close>

text \<open>
  The session with the goroutines of its outgoing transfers. Besides their steps, cancellations and new calls, everything
  else the session does (frames of the peer, the monitor, a failure) may happen at any time; it changes entries of the map
  of outgoing transfers but neither adds nor removes one.
\<close>

inductive launch_step :: "SessionEnv \<Rightarrow> Session \<times> transferTask list \<Rightarrow> Session \<times> transferTask list \<Rightarrow> bool" for env where
  launches: "launchTransfer opts source cancelable parentDone s = (t, s') \<Longrightarrow> launch_step env (s, ts) (s', ts @ [t])"
| resumes: "ResumeTransfer ro parentDone s = (t, s') \<Longrightarrow> launch_step env (s, ts) (s', ts @ [t])"
| runs: "i < length ts \<Longrightarrow> taskStep env now fault (ts ! i) s = (t, s') \<Longrightarrow> launch_step env (s, ts) (s', ts[i := t])"
| parent: "i < length ts \<Longrightarrow> launch_step env (s, ts) (s, ts[i := cancelParent e (ts ! i)])"
| watch: "i < length ts \<Longrightarrow> tkWatching (ts ! i) \<Longrightarrow> watchFires (ts ! i) s = (t, s') \<Longrightarrow> launch_step env (s, ts) (s', ts[i := t])"
| handle: "i < length ts \<Longrightarrow> tkCancelable (ts ! i) \<Longrightarrow> CancelHandle env reason flags (ts ! i) s = (r, t, s') \<Longrightarrow>
    launch_step env (s, ts) (s', ts[i := t])"
| other: "map fst (sOutgoing s') = map fst (sOutgoing s) \<Longrightarrow> launch_step env (s, ts) (s', ts)"

inductive launch_run :: "SessionEnv \<Rightarrow> Session \<times> transferTask list \<Rightarrow> bool" for env where
  created: "sOutgoing s = [] \<Longrightarrow> launch_run env (s, [])"
| continued: "launch_run env y \<Longrightarrow> launch_step env y y' \<Longrightarrow> launch_run env y'"

text \<open>A goroutine that holds a place in the map of outgoing transfers; what the caller can know of one.\<close>

definition holding :: "transferTask \<Rightarrow> bool" where
  "holding t \<longleftrightarrow> tkRegisterErr t = None \<and> tkPhase t \<noteq> TaskReturned"

definition reported :: "transferTask \<Rightarrow> bool" where
  "reported t \<longleftrightarrow> (if tkPhase t = TaskReturned then tkClosed t \<and> length (tkResult t) = 1 else \<not> tkClosed t \<and> tkResult t = [])"

definition launchInv :: "Session \<times> transferTask list \<Rightarrow> bool" where
  "launchInv = (\<lambda>(s, ts). distinct (map fst (sOutgoing s)) \<and> mset (map fst (sOutgoing s)) = mset (map tkId (filter holding ts))
     \<and> (\<forall>t \<in> set ts. reported t))"

subsection \<open>What leaves the map as it is\<close>

lemma keys_chat: "chat s s' \<Longrightarrow> map fst (sOutgoing s') = map fst (sOutgoing s)"
  by (simp add: chat_fields)

lemma keys_put: "map_of (sOutgoing s) i = Some ot \<Longrightarrow> map fst (sOutgoing (putOutgoing i ot' s)) = map fst (sOutgoing s)"
  by (force simp: putOutgoing_def AList.update_keys dest: map_of_SomeD)

lemma keys_chunk: "map fst (sOutgoing (snd (sendReliableChunk env now i frame n s))) = map fst (sOutgoing s)"
proof (cases "map_of (sOutgoing s) i")
  case None
  then show ?thesis using keys_chat [OF chat_send] by (simp add: sendReliableChunk_def)
next
  case (Some ot)
  obtain e s1 where s1: "sendContext env frame (putOutgoing i (admitChunk now frame n ot) s) = (e, s1)" by force
  have "map fst (sOutgoing s1) = map fst (sOutgoing s)"
    using keys_chat [OF chat_sendContext, of env frame "putOutgoing i (admitChunk now frame n ot) s"] keys_put [OF Some] by (simp add: s1)
  then show ?thesis
    using Some keys_put by (auto simp: sendReliableChunk_def s1 Let_def split: option.split)
qed

lemma keys_body: "map fst (sOutgoing (snd (snd (bodyStep env now ce i opts b s)))) = map fst (sOutgoing s)"
  using keys_chunk by (auto simp: bodyStep_def Let_def emitProgress_def split: option.split prod.split opResult.split) (metis snd_conv)+

lemma chat_ensure [chats]: "chat s (snd (EnsureAuthenticatedFor frame s))"
  unfolding EnsureAuthenticatedFor_def Let_def by (auto intro!: chat_op_seq chat_emit chat_ret)

lemma chat_validate [chats]: "chat s (snd (validateOutgoingTransfer opts r s))"
  unfolding validateOutgoingTransfer_def by (auto intro!: chat_op_try chat_ensure split: option.split)

lemma chat_sendTransfer: "chat s (snd (sendTransfer env i opts s))"
  unfolding sendTransfer_def by (auto intro!: chat_op_try chat_validate chat_with_result chat_send split: option.split)

lemma chat_sendResume: "chat s (snd (sendResume env ro s))"
  unfolding sendResume_def Let_def by (auto intro!: chat_op_try chat_validate chat_guarded split: option.split)

lemma chat_openResumed: "chat s (snd (openResumed env t ro rb nc s))"
  unfolding openResumed_def Let_def by (auto intro!: chat_guarded split: option.split sum.split)

lemma keys_end: "map fst (sOutgoing (snd (sendEnd env now i opts s))) = map fst (sOutgoing s)"
proof -
  let ?s = "case map_of (sOutgoing s) i of None \<Rightarrow> s
     | Some ot \<Rightarrow> putOutgoing i (ot\<lparr>otDoneSending := True, otEndFrame := endFrame i opts, otCommitSentAt := Some now\<rparr>) s"
  have "map fst (sOutgoing ?s) = map fst (sOutgoing s)" using keys_put by (auto split: option.split)
  moreover have "snd (sendEnd env now i opts s) = snd (send env (endFrame i opts) ?s)" by (simp only: sendEnd_def Let_def)
  ultimately show ?thesis using keys_chat [OF chat_send, of env "endFrame i opts" ?s] by simp
qed

lemma keys_wait: "map fst (sOutgoing (snd (waitOutgoingAcked i s))) = map fst (sOutgoing s)"
  using keys_put by (auto simp: waitOutgoingAcked_def Let_def split: option.split)

lemmas keys_ops = keys_chat [OF chat_sendTransfer] keys_chat [OF chat_sendResume] keys_chat [OF chat_openResumed] keys_end keys_wait keys_body

text \<open>A step of the goroutine other than its last: the map keeps its keys, the goroutine its identity, and nothing is reported yet.\<close>

definition sameTask :: "transferTask \<Rightarrow> transferTask \<Rightarrow> bool" where
  "sameTask t t' \<longleftrightarrow> tkId t' = tkId t \<and> tkRegisterErr t' = tkRegisterErr t \<and> tkResult t' = tkResult t \<and> tkClosed t' = tkClosed t
     \<and> (tkPhase t' = TaskReturned \<longleftrightarrow> tkPhase t = TaskReturned)"

lemma sameTask_holding: "sameTask t t' \<Longrightarrow> holding t' = holding t \<and> tkId t' = tkId t \<and> reported t' = reported t"
  by (auto simp: sameTask_def holding_def reported_def)

lemma sameTask_goto: "tkPhase t \<noteq> TaskReturned \<Longrightarrow> p \<noteq> TaskReturned \<Longrightarrow> sameTask t (t\<lparr>tkPhase := p\<rparr>)"
  by (simp add: sameTask_def)

lemma callEnds_phase [simp]: "callEnds t e \<noteq> TaskReturned"
  by (simp add: callEnds_def)

lemma callPhase_keeps:
  assumes "callPhase env now fault t s = (p, s')" "tkPhase t \<noteq> TaskReturned"
  shows "p \<noteq> TaskReturned" "map fst (sOutgoing s') = map fst (sOutgoing s)"
proof -
  have opened: "p \<noteq> TaskReturned \<and> map fst (sOutgoing s') = map fst (sOutgoing s)"
    if "openResumed env t ro rb nc s = (p, s')" for ro rb nc
    using that keys_ops(3) [of env t ro rb nc s] by (auto simp: openResumed_def Let_def split: option.splits sum.splits if_splits)
  have "p \<noteq> TaskReturned \<and> map fst (sOutgoing s') = map fst (sOutgoing s)"
  proof (cases "tkPhase t")
    case TaskSend
    show ?thesis
    proof (cases "tkResume t")
      case None
      with TaskSend assms(1) keys_ops(1) [of env "tkId t" "tkOpts t" s] show ?thesis
        by (auto simp: callPhase_def sendPhase_def split: option.splits prod.splits)
    next
      case (Some ro)
      with TaskSend assms(1) keys_ops(2) [of env ro s] show ?thesis
        by (auto simp: callPhase_def sendPhase_def split: option.splits prod.splits)
    qed
  next
    case (TaskResume w)
    with assms(1) opened show ?thesis
      by (auto simp: callPhase_def resumePhase_def split: if_splits option.splits sum.splits prod.splits)
  next
    case (TaskBody b w)
    with assms(1) keys_ops(6) [of env now "tkCtxErr t" "tkId t" "tkOpts t" b s] show ?thesis
      by (auto simp: callPhase_def bodyPhase_def split: if_splits prod.splits bodyResult.splits)
  next
    case (TaskEnd b)
    with assms(1) keys_ops(4) [of env now "tkId t" "tkOpts t" s] show ?thesis
      by (auto simp: callPhase_def endPhase_def split: option.splits prod.splits)
  next
    case (TaskWait b w)
    with assms(1) keys_ops(5) [of "tkId t" s] show ?thesis
      by (auto simp: callPhase_def waitPhase_def emitProgress_def split: if_splits prod.splits opResult.splits option.splits)
  qed (use assms in \<open>auto simp: callPhase_def\<close>)
  then show "p \<noteq> TaskReturned" "map fst (sOutgoing s') = map fst (sOutgoing s)" by simp_all
qed

lemma taskStep_same:
  assumes "taskStep env now fault t s = (t', s')" "\<And>e. tkPhase t \<noteq> TaskFinish e"
  shows "sameTask t t'" "map fst (sOutgoing s') = map fst (sOutgoing s)"
proof -
  obtain p s1 where c: "callPhase env now fault t s = (p, s1)" by force
  have "sameTask t t' \<and> map fst (sOutgoing s') = map fst (sOutgoing s)"
    using assms callPhase_keeps [OF c]
    by (cases "tkPhase t") (auto simp: taskStep_def c sameTask_def split: option.splits)
  then show "sameTask t t'" "map fst (sOutgoing s') = map fst (sOutgoing s)" by simp_all
qed

subsection \<open>Places are taken and given back\<close>

lemma registerOutgoing_keys:
  assumes "registerOutgoing i opts s = (e, s')"
  shows "e = None \<Longrightarrow> i \<notin> set (map fst (sOutgoing s)) \<and> map fst (sOutgoing s') = map fst (sOutgoing s) @ [i]"
    "e \<noteq> None \<Longrightarrow> map fst (sOutgoing s') = map fst (sOutgoing s)"
  using assms by (auto simp: registerOutgoing_def with_result_def ret_def AList.update_keys map_of_eq_None_iff split: sum.splits if_splits)

lemma unregisterOutgoing_keys:
  "distinct (map fst (sOutgoing s)) \<Longrightarrow>
   distinct (map fst (sOutgoing (unregisterOutgoing i s))) \<and> mset (map fst (sOutgoing (unregisterOutgoing i s))) = mset (map fst (sOutgoing s)) - {#i#}"
  by (simp add: unregisterOutgoing_def AList.delete_keys distinct_remove1_removeAll [symmetric] del: mset_map)

lemma filter_update:
  assumes "i < length xs"
  shows "P y = P (xs ! i) \<Longrightarrow> f y = f (xs ! i) \<Longrightarrow> map f (filter P (xs[i := y])) = map f (filter P xs)"
    "P (xs ! i) \<Longrightarrow> \<not> P y \<Longrightarrow> mset (map f (filter P (xs[i := y]))) = mset (map f (filter P xs)) - {#f (xs ! i)#}"
    "\<not> P (xs ! i) \<Longrightarrow> \<not> P y \<Longrightarrow> mset (map f (filter P (xs[i := y]))) = mset (map f (filter P xs))"
proof -
  have xs: "filter P xs = filter P (take i xs) @ filter P [xs ! i] @ filter P (drop (Suc i) xs)"
    using arg_cong [OF id_take_nth_drop [OF assms], of "filter P"] by simp
  have up: "filter P (xs[i := y]) = filter P (take i xs) @ filter P [y] @ filter P (drop (Suc i) xs)"
    by (simp add: upd_conv_take_nth_drop [OF assms])
  show "P y = P (xs ! i) \<Longrightarrow> f y = f (xs ! i) \<Longrightarrow> map f (filter P (xs[i := y])) = map f (filter P xs)"
    "P (xs ! i) \<Longrightarrow> \<not> P y \<Longrightarrow> mset (map f (filter P (xs[i := y]))) = mset (map f (filter P xs)) - {#f (xs ! i)#}"
    "\<not> P (xs ! i) \<Longrightarrow> \<not> P y \<Longrightarrow> mset (map f (filter P (xs[i := y]))) = mset (map f (filter P xs))"
    unfolding xs up by simp_all
qed

lemma launchInv_same:
  assumes "launchInv (s, ts)" "i < length ts" "sameTask (ts ! i) t" "map fst (sOutgoing s') = map fst (sOutgoing s)"
  shows "launchInv (s', ts[i := t])"
proof -
  note same = sameTask_holding [OF assms(3)]
  have "map tkId (filter holding (ts[i := t])) = map tkId (filter holding ts)"
    using assms(2) same by (intro filter_update) simp_all
  moreover have "reported t" using assms(1,2) same by (auto simp: launchInv_def)
  ultimately show ?thesis using assms(1,4) by (auto simp: launchInv_def simp del: mset_map dest: set_update_subset_insert [THEN subsetD])
qed

lemma launchInv_new:
  assumes "launchInv (s, ts)" "registerOutgoing i opts s1 = (e, s')" "sOutgoing s1 = sOutgoing s"
    and t: "tkId t = i" "tkRegisterErr t = e" "tkPhase t = TaskReady" "tkResult t = []" "\<not> tkClosed t"
  shows "launchInv (s', ts @ [t])"
proof (cases "e = None")
  case True
  with registerOutgoing_keys(1) [OF assms(2)] assms(1,3) t show ?thesis
    by (auto simp: launchInv_def holding_def reported_def simp del: mset_map)
next
  case False
  with registerOutgoing_keys(2) [OF assms(2)] assms(1,3) t show ?thesis
    by (auto simp: launchInv_def holding_def reported_def simp del: mset_map)
qed

lemma launchInv_finish:
  assumes "launchInv (s, ts)" "i < length ts" "tkPhase (ts ! i) = TaskFinish e" "finishTask e (ts ! i) s = (t, s')"
  shows "launchInv (s', ts[i := t])"
proof -
  have t: "tkPhase t = TaskReturned" "tkClosed t" "tkResult t = tkResult (ts ! i) @ [e]"
    and s': "s' = (if tkRegisterErr (ts ! i) = None then unregisterOutgoing (tkId (ts ! i)) s else s)"
    using assms(4) by (auto simp: finishTask_def)
  have "reported (ts ! i)" using assms(1,2) by (auto simp: launchInv_def)
  with t assms(3) have "reported t" by (simp add: reported_def)
  then have r: "\<forall>t' \<in> set (ts[i := t]). reported t'"
    using assms(1) by (auto simp: launchInv_def dest: set_update_subset_insert [THEN subsetD])
  have h: "\<not> holding t" "holding (ts ! i) = (tkRegisterErr (ts ! i) = None)" using t assms(3) by (simp_all add: holding_def)
  show ?thesis
  proof (cases "tkRegisterErr (ts ! i) = None")
    case True
    with h filter_update(2) [OF assms(2), of holding t tkId] unregisterOutgoing_keys [of s "tkId (ts ! i)"] assms(1) r show ?thesis
      by (simp add: launchInv_def s' del: mset_map)
  next
    case False
    with h filter_update(3) [OF assms(2), of holding t tkId] assms(1) r show ?thesis
      by (auto simp: launchInv_def s' simp del: mset_map)
  qed
qed

lemma launchInv_step: "launch_step env y y' \<Longrightarrow> launchInv y \<Longrightarrow> launchInv y'"
proof (induction rule: launch_step.induct)
  case (launches opts source cancelable parentDone s t s' ts)
  let ?opts = "normalizeTransferOptions s opts" and ?i = "sNextTransfer s + 1"
  obtain e s2 where r: "registerOutgoing ?i ?opts (s\<lparr>sNextTransfer := ?i\<rparr>) = (e, s2)" by force
  with launches(1) have "t = newTask ?i ?opts None source cancelable parentDone e" "s' = s2"
    by (simp_all add: launchTransfer_def Let_def)
  with launchInv_new [OF launches(2) r, of t] show ?case by (simp add: newTask_def)
next
  case (resumes ro parentDone s t s' ts)
  let ?opts = "normalizeTransferOptions s (roOptions ro)"
  let ?pre = "roTransferID ro = 0 \<or> roOpenReader ro = None"
  show ?case
  proof (cases ?pre)
    case True
    with resumes(1) have "holding t = False" "reported t" "s' = s"
      by (auto simp: ResumeTransfer_def Let_def newTask_def holding_def reported_def split: if_splits)
    with resumes(2) show ?thesis by (simp add: launchInv_def)
  next
    case False
    obtain e s2 where r: "registerOutgoing (roTransferID ro) ?opts s = (e, s2)" by force
    with resumes(1) False have t: "t = newTask (roTransferID ro) ?opts (Some (ro\<lparr>roOptions := ?opts\<rparr>)) [] True parentDone e"
      and s': "sOutgoing s' = sOutgoing s2"
      by (auto simp: ResumeTransfer_def Let_def bumpTransferID_def split: if_splits)
    with launchInv_new [OF resumes(2) r, of t] show ?thesis by (simp add: newTask_def launchInv_def)
  qed
next
  case (runs i ts now fault s t s')
  show ?case
  proof (cases "\<exists>e. tkPhase (ts ! i) = TaskFinish e")
    case True
    then obtain e where e: "tkPhase (ts ! i) = TaskFinish e" by blast
    with runs(2) have "finishTask e (ts ! i) s = (t, s')" by (simp add: taskStep_def)
    with launchInv_finish [OF runs(3,1) e] show ?thesis by simp
  next
    case False
    with launchInv_same [OF runs(3,1)] taskStep_same [OF runs(2)] show ?thesis by simp
  qed
next
  case (parent i ts s e)
  then show ?case by (intro launchInv_same [OF parent(2,1)]) (simp_all add: cancelParent_def sameTask_def)
next
  case (watch i ts s t s')
  then have "sameTask (ts ! i) t" "map fst (sOutgoing s') = map fst (sOutgoing s)"
    by (auto simp: watchFires_def sameTask_def keys_put split: option.splits)
  with launchInv_same [OF watch(4,1)] show ?case by simp
next
  case (handle i ts reason flags s r t s')
  have "sameTask (ts ! i) t" "map fst (sOutgoing s') = map fst (sOutgoing s)"
    using handle(3) keys_chat [OF chat_guarded(4), of env "tkId (ts ! i)" reason flags s]
    by (auto simp: CancelHandle_def sameTask_def Let_def split: if_splits prod.splits)
  with launchInv_same [OF handle(4,1)] show ?case by simp
next
  case (other s' s ts)
  then show ?case by (simp add: launchInv_def del: mset_map)
qed

lemma launch_run_inv: "launch_run env y \<Longrightarrow> launchInv y"
  by (induction rule: launch_run.induct) (simp add: launchInv_def, rule launchInv_step)


lemma registerOutgoing_state: "sState (snd (registerOutgoing i opts s)) = sState s"
  by (simp add: registerOutgoing_def with_result_def ret_def split: sum.split)


section \<open>A failed transfer lets its goroutine go\<close>

text \<open>The goroutine on its own, with the time and the state of the reader at each step.\<close>

fun runTask :: "SessionEnv \<Rightarrow> (int \<times> go_error option) list \<Rightarrow> transferTask \<Rightarrow> Session \<Rightarrow> transferTask \<times> Session" where
  "runTask env [] t s = (t, s)"
| "runTask env ((now, fault) # ticks) t s = (let (t, s) = taskStep env now fault t s in runTask env ticks t s)"

fun stepsLeft :: "taskPhase \<Rightarrow> nat" where
  "stepsLeft TaskReturned = 0" | "stepsLeft (TaskFinish _) = 1" | "stepsLeft (TaskWait _ _) = 2" | "stepsLeft (TaskEnd _) = 3"
| "stepsLeft (TaskBody _ _) = 4" | "stepsLeft (TaskResume _) = 2" | "stepsLeft TaskSend = 3" | "stepsLeft TaskReady = 4"

definition hasFailed :: "u64 \<Rightarrow> Session \<Rightarrow> bool" where
  "hasFailed i s \<longleftrightarrow> (\<exists>ot. map_of (sOutgoing s) i = Some ot \<and> otFailed ot \<noteq> None)"

lemma hasFailed_chat: "chat s s' \<Longrightarrow> hasFailed i s' = hasFailed i s"
  by (simp add: hasFailed_def chat_fields)

lemma hasFailed_failure: "hasFailed i s \<Longrightarrow> \<exists>e. outgoingFailure s i = Some e"
  by (auto simp: hasFailed_def outgoingFailure_def)

lemma sendTransfer_failed: "hasFailed i s \<Longrightarrow> \<exists>e s'. sendTransfer env i opts s = (Some e, s')"
proof -
  assume f: "hasFailed i s"
  obtain e s1 where v: "validateOutgoingTransfer opts True s = (e, s1)" by force
  then have "hasFailed i s1" using hasFailed_chat [OF chat_validate, of i opts True s] f by simp
  from hasFailed_failure [OF this] show ?thesis
    by (cases e) (auto simp: sendTransfer_def op_try_def v split: option.split)
qed

lemma body_failed:
  assumes "hasFailed i s" "bodyStep env now ce i opts b s = (r, b', s')"
  shows "(\<exists>e. r = BodyFailed e) \<or> r = BodyEnd \<and> s' = s"
proof -
  from assms(1) obtain ot e where "map_of (sOutgoing s) i = Some ot" "otFailed ot = Some e" by (auto simp: hasFailed_def)
  then have "sendReliableChunk env now i frame n s = (Done (Some e), s)" for frame n
    by (simp add: sendReliableChunk_def chunkBlocked_def)
  with assms(2) show ?thesis
    by (auto simp: bodyStep_def Let_def split: option.splits if_splits)
qed

lemma sendEnd_failed: "hasFailed i s \<Longrightarrow> hasFailed i (snd (sendEnd env now i opts s))"
proof -
  assume f: "hasFailed i s"
  then obtain ot where ot: "map_of (sOutgoing s) i = Some ot" "otFailed ot \<noteq> None" by (auto simp: hasFailed_def)
  let ?s = "putOutgoing i (ot\<lparr>otDoneSending := True, otEndFrame := endFrame i opts, otCommitSentAt := Some now\<rparr>) s"
  have "hasFailed i ?s" using ot by (simp add: hasFailed_def putOutgoing_def update_conv')
  moreover have "snd (sendEnd env now i opts s) = snd (send env (endFrame i opts) ?s)" by (simp add: sendEnd_def Let_def ot)
  ultimately show ?thesis using hasFailed_chat [OF chat_send] by simp
qed

definition ending :: "transferTask \<Rightarrow> Session \<Rightarrow> bool" where
  "ending t s \<longleftrightarrow> tkPhase t = TaskReturned \<or> (\<exists>e. tkPhase t = TaskFinish e) \<or> hasFailed (tkId t) s"

lemma callPhase_failed:
  assumes "hasFailed (tkId t) s" "callPhase env now fault t s = (p, s')" "stepsLeft (tkPhase t) > 1" "tkPhase t \<noteq> TaskReady"
  shows "stepsLeft p < stepsLeft (tkPhase t) \<and> ((\<exists>e. p = TaskFinish e) \<or> hasFailed (tkId t) s')"
proof -
  from assms(1) obtain ot e where ot: "map_of (sOutgoing s) (tkId t) = Some ot" "otFailed ot = Some e" by (auto simp: hasFailed_def)
  show ?thesis
  proof (cases "tkPhase t")
    case TaskSend
    show ?thesis
    proof (cases "tkResume t")
      case None
      with sendTransfer_failed [OF assms(1), of env "tkOpts t"] assms(2) TaskSend show ?thesis
        by (auto simp: callPhase_def sendPhase_def callEnds_def)
    next
      case (Some ro)
      then show ?thesis
        using hasFailed_chat [OF chat_sendResume, of "tkId t" env ro s] assms(1,2) TaskSend
        by (cases "sendResume env ro s") (auto simp: callPhase_def sendPhase_def callEnds_def split: option.splits)
    qed
  next
    case (TaskResume w)
    with assms(2) ot show ?thesis
      by (auto simp: callPhase_def resumePhase_def waitResumeDecision_def callEnds_def split: if_splits)
  next
    case (TaskBody b w)
    obtain r b' s1 where b: "bodyStep env now (tkCtxErr t) (tkId t) (tkOpts t) b s = (r, b', s1)" by (metis prod_cases3)
    from body_failed [OF assms(1) b] b assms(1,2) TaskBody show ?thesis
      by (auto simp: callPhase_def bodyPhase_def callEnds_def split: if_splits)
  next
    case (TaskEnd b)
    with assms(2) sendEnd_failed [OF assms(1), of env now "tkOpts t"] show ?thesis
      by (cases "sendEnd env now (tkId t) (tkOpts t) s") (auto simp: callPhase_def endPhase_def callEnds_def split: option.splits)
  next
    case (TaskWait b w)
    with assms(2) ot show ?thesis
      by (auto simp: callPhase_def waitPhase_def waitOutgoingAcked_def callEnds_def Let_def split: if_splits)
  qed (use assms in auto)
qed

lemma ending_step:
  assumes "ending t s" "tkPhase t \<noteq> TaskReturned" "taskStep env now fault t s = (t', s')"
  shows "stepsLeft (tkPhase t') < stepsLeft (tkPhase t) \<and> ending t' s'"
proof -
  obtain p s1 where c: "callPhase env now fault t s = (p, s1)" by force
  show ?thesis
  proof (cases "stepsLeft (tkPhase t) > 1 \<and> tkPhase t \<noteq> TaskReady")
    case True
    then have step: "taskStep env now fault t s = (t\<lparr>tkPhase := p\<rparr>, s1)"
      by (cases "tkPhase t") (simp_all add: taskStep_def c)
    have "hasFailed (tkId t) s" using assms(1) True by (auto simp: ending_def)
    from callPhase_failed [OF this c] True have "stepsLeft p < stepsLeft (tkPhase t) \<and> ((\<exists>e. p = TaskFinish e) \<or> hasFailed (tkId t) s1)"
      by simp
    with step assms(3) show ?thesis by (auto simp: ending_def)
  next
    case False
    with assms show ?thesis
      by (cases "tkPhase t") (auto simp: taskStep_def finishTask_def ending_def split: option.splits)
  qed
qed

lemma runTask_ends: "ending t s \<Longrightarrow> stepsLeft (tkPhase t) \<le> length ticks \<Longrightarrow> tkPhase (fst (runTask env ticks t s)) = TaskReturned"
proof (induction ticks arbitrary: t s)
  case Nil
  then show ?case by (cases "tkPhase t") auto
next
  case (Cons x ticks)
  obtain now fault where x: "x = (now, fault)" by force
  obtain t' s' where step: "taskStep env now fault t s = (t', s')" by force
  show ?case
  proof (cases "tkPhase t = TaskReturned")
    case True
    then have "taskStep env now fault t s = (t, s)" by (simp add: taskStep_def)
    with Cons.IH [OF Cons.prems(1)] True show ?thesis by (simp add: x)
  next
    case False
    from ending_step [OF Cons.prems(1) this step] Cons.prems(2) Cons.IH [of t' s'] show ?thesis by (simp add: x step)
  qed
qed

text \<open>C16: a transfer that has failed (the session ended, the peer refused it, the monitor gave up, the context of the caller was
  cancelled) does not keep its goroutine: from any phase the goroutine returns within four of its steps, without waiting for the window,
  for a decision or for acknowledgements, whatever the transport and the reader of the application report.\<close>

theorem failed_transfer_returns:
  assumes "outgoingFailure s (tkId t) = Some e" "length ticks \<ge> 4"
  shows "tkPhase (fst (runTask env ticks t s)) = TaskReturned"
proof (rule runTask_ends)
  show "ending t s" using assms(1) by (auto simp: ending_def hasFailed_def outgoingFailure_def split: option.splits)
  have "stepsLeft p \<le> 4" for p by (cases p) simp_all
  with assms(2) show "stepsLeft (tkPhase t) \<le> length ticks" by (meson order_trans)
qed

theorem failed_transfer_returns_witness:
  defines "t \<equiv> (newTask 7 sampleOptions None [] True True None)\<lparr>tkPhase := TaskBody \<lparr>bsWritten = 4, bsChunkID = 1, bsRest = [5, 6]\<rparr> True\<rparr>"
  shows "tkPhase (fst (runTask quietEnv [(0, None), (1, None), (2, None), (3, None)] t
    (failOutgoing None ((newDefault RoleClient)\<lparr>sOutgoing := [(7, sampleOutgoing)]\<rparr>)))) = TaskReturned"
  by (rule failed_transfer_returns [where e = ErrSessionClosed])
    (simp_all add: t_def newTask_def outgoingFailure_def failOutgoing_def fail_def)

section \<open>Announcements out of order\<close>

lemma send_writer: "send env frame s = (None, s') \<Longrightarrow> sHasWriter s \<Longrightarrow> sSent s' = sSent s @ [frame] \<and> sHasWriter s'"
  by (auto simp: send_def sendContext_def with_result_def ret_def handOver_def Let_def split: if_splits option.splits sum.splits)

lemma validate_sent: "sSent (snd (validateOutgoingTransfer opts r s)) = sSent s" "sHasWriter (snd (validateOutgoingTransfer opts r s)) = sHasWriter s"
  by (auto simp: validateOutgoingTransfer_def op_try_def EnsureAuthenticatedFor_def op_seq_def ret_def emitEvent_def Let_def
      split: option.split prod.split if_splits)

lemma sendTransfer_sent:
  assumes "sendTransfer env i opts s = (None, s')" "sHasWriter s"
  shows "\<exists>payload. sSent s' = sSent s @ [beginFrame i opts payload]" "sHasWriter s'"
proof -
  obtain e s1 where v: "validateOutgoingTransfer opts True s = (e, s1)" by force
  have s1: "sSent s1 = sSent s" "sHasWriter s1" using validate_sent [of opts True s] assms(2) by (simp_all add: v)
  from assms(1) obtain payload where "send env (beginFrame i opts payload) s1 = (None, s')"
    by (auto simp: sendTransfer_def op_try_def v with_result_def ret_def split: option.splits sum.splits)
  from send_writer [OF this s1(2)] s1(1) show "\<exists>payload. sSent s' = sSent s @ [beginFrame i opts payload]" "sHasWriter s'" by auto
qed

lemma launch_task:
  assumes "launchTransfer opts source c p s = (t, s')"
  shows "tkPhase t = TaskReady" "tkResume t = None" "tkId t = sNextTransfer s + 1" "sNextTransfer s' = sNextTransfer s + 1"
    "sSent s' = sSent s" "sHasWriter s' = sHasWriter s"
  using assms by (auto simp: launchTransfer_def newTask_def registerOutgoing_def with_result_def ret_def Let_def split: prod.splits sum.splits if_splits)

lemma announced:
  assumes "tkPhase t = TaskReady" "tkResume t = None" "runTask env [x, y] t s = (u, s')" "tkPhase u = TaskBody b w" "sHasWriter s"
  shows "\<exists>payload. sSent s' = sSent s @ [beginFrame (tkId t) (tkOpts t) payload]" "sHasWriter s'"
proof -
  obtain t1 where t1: "taskStep env (fst x) (snd x) t s = (t1, s)" "tkPhase t1 = (case tkRegisterErr t of None \<Rightarrow> TaskSend | Some e \<Rightarrow> TaskFinish (Some e))"
    "tkResume t1 = None" "tkId t1 = tkId t" "tkOpts t1 = tkOpts t"
    using assms(1,2) by (cases "tkRegisterErr t") (auto simp: taskStep_def)
  with assms(3) have u: "taskStep env (fst y) (snd y) t1 s = (u, s')" by (cases x; cases y) (simp split: prod.splits)
  have "tkRegisterErr t = None"
  proof (rule ccontr)
    assume "tkRegisterErr t \<noteq> None"
    with u t1(2) assms(4) show False by (auto simp: taskStep_def finishTask_def)
  qed
  with u t1 assms(4) have "sendTransfer env (tkId t) (tkOpts t) s = (None, s')"
    by (auto simp: taskStep_def callPhase_def sendPhase_def callEnds_def split: prod.splits option.splits)
  from sendTransfer_sent [OF this assms(5)] show "\<exists>payload. sSent s' = sSent s @ [beginFrame (tkId t) (tkOpts t) payload]" "sHasWriter s'" by auto
qed

text \<open>The receiver remembers the highest identifier it has accepted, and accepts only higher ones.\<close>

lemma window_last: "sLastIncoming (snd (sendIncomingWindow env i s)) = sLastIncoming s"
proof -
  have "sLastIncoming (snd (SendWindow env w s')) = sLastIncoming s'" for w s'
    using chat_fields [OF chat_guarded(1), of env w s'] by simp
  then show ?thesis
    by (auto simp: sendIncomingWindow_def Let_def putIncoming_def split: option.split)
qed

lemma begin_last:
  assumes "handleIncomingTransferBegin te frame s = (None, s')"
  shows "sLastIncoming s < hTransferID (fHeader frame) \<and> sLastIncoming s' = hTransferID (fHeader frame)"
proof -
  have opened: "sLastIncoming s2 = sLastIncoming s1" if o: "openIncomingTransfer te outcome info s1 = (None, s2)" for outcome info s1 s2
  proof (cases outcome)
    case OpenReady
    obtain e s3 where w: "sendIncomingWindow (sendEnv te) (iiTransferID info) (putIncoming (iiTransferID info)
      (newIncomingTransfer s1 (iiMeta info) (if tbFlags (iiMeta info) AND TransferFlagChecksumSHA256 \<noteq> 0 then Some [] else None))
      (removeOpening (iiTransferID info) s1)) = (e, s3)" by force
    from arg_cong [OF w, of snd, THEN arg_cong, of sLastIncoming] OpenReady o w show ?thesis
      by (cases e) (auto simp: openIncomingTransfer_def window_last putIncoming_def removeOpening_def Let_def split: if_splits)
  qed (use o in \<open>auto simp: openIncomingTransfer_def Let_def\<close>)
  show ?thesis
    using assms opened
    by (fastforce simp: handleIncomingTransferBegin_def checkSlot_def Let_def split: if_splits option.splits sum.splits)
qed

lemma HandleFrame_begin_last:
  assumes "HandleFrame te now frame s = (None, s')" "hFrameType (fHeader frame) = FrameTransferBegin"
  shows "sLastIncoming s < hTransferID (fHeader frame) \<and> sLastIncoming s' = hTransferID (fHeader frame)"
proof -
  obtain e1 s1 where 1: "checkRateLimit frame now s = (e1, s1)" by force
  obtain e2 s2 where 2: "EnsureAuthenticatedFor frame s1 = (e2, s2)" by force
  obtain e3 s3 where 3: "checkCapability (sendEnv te) frame s2 = (e3, s3)" by force
  have e: "e1 = None" "e2 = None" "e3 = None" "handleIncomingTransferBegin te frame s3 = (None, s')"
    using assms by (auto simp: HandleFrame_def 1 2 3 op_try_def dispatchFrame_def refuseFrame_def op_seq_def ret_def Let_def
      split: option.splits if_splits)
  have "sLastIncoming s1 = sLastIncoming s" using checkRateLimit_passed 1 e(1) by fastforce
  moreover have "sLastIncoming s2 = sLastIncoming s1" using chat_fields [OF chat_ensure [of s1 frame]] by (simp add: 2)
  moreover have "s3 = s2" using 3 e(3) by (auto simp: checkCapability_def split: prod.splits if_splits option.splits)
  ultimately show ?thesis using begin_last [OF e(4)] by simp
qed

lemma next_ids: "(n :: u64) < 2 ^ 63 \<Longrightarrow> n + 1 < n + 1 + 1"
proof -
  assume "n < 2 ^ 63"
  then have "unat n < 2 ^ 63" by (simp add: word_less_nat_alt)
  then have "unat (n + 1) = unat n + 1" "unat (n + 1 + 1) = unat n + 1 + 1" by (simp_all add: unat_word_ariths)
  then show ?thesis by (simp add: word_less_nat_alt)
qed

text \<open>C34: two transfers started one after the other can end the session of the peer. Their identifiers are taken in the order of the calls,
  but each announcement is sent by the goroutine of its transfer, and nothing orders these. When the second goroutine runs first and both
  announcements go out, the frames handed to the writer are the second announcement followed by the first; and a peer
  that accepts the former answers the latter with an error that makes its read loop return, with the transport closed and
  every outgoing and incoming transfer of the session lost.\<close>

theorem concurrent_starts_end_peer:
  assumes "sHasWriter s" "sNextTransfer s < 2 ^ 63"
    and start: "StartTransfer o1 d1 p1 s = (t1, s1)" "StartTransfer o2 d2 p2 s1 = (t2, s2)"
    and second: "runTask env [x2, y2] t2 s2 = (u2, s3)" "tkPhase u2 = TaskBody b2 w2"
    and first: "runTask env [x1, y1] t1 s3 = (u1, s4)" "tkPhase u1 = TaskBody b1 w1"
  shows "\<exists>f2 f1. sSent s4 = sSent s @ [f2, f1]
    \<and> (\<forall>te now2 now1 r r2. runTurn te now2 (ReadFrameResult f2) r = (None, r2) \<longrightarrow>
        (\<exists>e r1. runTurn te now1 (ReadFrameResult f1) r2 = (Some (Some e), r1) \<and> sTransportClosed r1
          \<and> (\<forall>(i, ot) \<in> set (sOutgoing r1). otFailed ot = Some e) \<and> sIncoming r1 = []))"
proof -
  note t1 = launch_task [OF start(1) [unfolded StartTransfer_def]] and t2 = launch_task [OF start(2) [unfolded StartTransfer_def]]
  from announced [OF t2(1,2) second] t1 t2 assms(1) obtain q2 where s3: "sSent s3 = sSent s @ [beginFrame (tkId t2) (tkOpts t2) q2]" "sHasWriter s3"
    by auto
  from announced [OF t1(1,2) first s3(2)] s3(1) obtain q1
    where s4: "sSent s4 = sSent s @ [beginFrame (tkId t2) (tkOpts t2) q2, beginFrame (tkId t1) (tkOpts t1) q1]" by auto
  let ?f2 = "beginFrame (tkId t2) (tkOpts t2) q2" and ?f1 = "beginFrame (tkId t1) (tkOpts t1) q1"
  have ids: "tkId t1 < tkId t2"
    unfolding t1(3) t2(3) t1(4) using next_ids [OF assms(2)] .
  have f: "hFrameType (fHeader (beginFrame i opts q)) = FrameTransferBegin" "hTransferID (fHeader (beginFrame i opts q)) = i" for i opts q
    by (simp_all add: beginFrame_def headed_def NewFrame_def Let_def)
  have "\<exists>e r1. runTurn te now1 (ReadFrameResult ?f1) r2 = (Some (Some e), r1) \<and> sTransportClosed r1
      \<and> (\<forall>(i, ot) \<in> set (sOutgoing r1). otFailed ot = Some e) \<and> sIncoming r1 = []"
    if "runTurn te now2 (ReadFrameResult ?f2) r = (None, r2)" for te now2 now1 r r2
  proof -
    from that have r2: "HandleFrame te now2 ?f2 r = (None, r2)" "sState r2 \<noteq> SessionClosed"
      by (auto simp: runTurn_def Let_def split: if_splits prod.splits option.splits)
    then have "sLastIncoming r2 = tkId t2" using HandleFrame_begin_last [OF r2(1)] f by simp
    then have "\<not> (\<exists>r3. HandleFrame te now1 ?f1 r2 = (None, r3))"
      using HandleFrame_begin_last [of te now1 ?f1 r2] f ids by fastforce
    then obtain e r3 where "HandleFrame te now1 ?f1 r2 = (Some e, r3)"
      by (cases "HandleFrame te now1 ?f1 r2"; cases "fst (HandleFrame te now1 ?f1 r2)") auto
    with r2(2) show ?thesis
      by (auto simp: runTurn_def Let_def closeTransport_def setState_def closeWriter_def failOutgoing_def cleanupIncoming_def fail_def)
  qed
  with s4 show ?thesis by blast
qed

definition plainOptions :: TransferOptions where
  "plainOptions = noOptions\<lparr>toHasReader := True, toTotalSize := 6, toChunkSize := 4\<rparr>"

definition sampleStarter :: Session where
  "sampleStarter = (newDefault RoleClient)\<lparr>sState := SessionEstablished, sRemoteCaps := DefaultCapabilities\<rparr>"

lemma sampleMeta_wf: "beginWf sampleMeta" "length (beginBytes sampleMeta) = 76"
  by (simp_all add: beginWf_def sampleMeta_def beginBytes_def beginHead_def partsBytes_def fieldsBytes_def bytes_of_string_def)

lemma sample_announce:
  assumes "sState s = SessionEstablished" "sConfig s = DefaultSessionConfig RoleClient" "sRemoteCaps s = DefaultCapabilities"
    "sRemoteHello s = None" "sRemoteFrame s = 0" "sHasTransport s" "sHasWriter s" "\<not> sWriterClosed s" "outgoingFailure s i = None"
  shows "sendTransfer quietEnv i plainOptions s = (None, handed (beginFrame i plainOptions (beginBytes sampleMeta)) s)"
proof -
  have v: "validateOutgoingTransfer plainOptions True s = (None, s)"
    using assms
    by (simp add: validateOutgoingTransfer_def validateBefore_def validateAfter_def firstError_def op_try_def EnsureAuthenticatedFor_def
        plainOptions_def noOptions_def requireRemoteCapability_def RemoteSupports_def transferRequired_def DefaultSessionConfig_def
        DefaultCapabilities_def checkParts_def remoteLimits_def remoteMaxFrameBytes_def chunkCountFor_eq chunksNeeded_def transferBeginPayloadSize64_def Let_def
        transferPartsPayloadSize64_def transferFieldsPayloadSize64_def)
  have e: "EncodeTransferBeginInto [] sampleMeta = Inr (beginBytes sampleMeta)"
    using sampleMeta_wf by (intro EncodeTransferBeginInto_eq) (simp_all add: beginWf_def)
  have "openSession quietEnv s" "sendable s (beginFrame i plainOptions (beginBytes sampleMeta))"
    using assms sampleMeta_wf(2)
    by (simp_all add: openSession_def sendable_def beginFrame_def frameEncodable_def headed_def NewFrame_def stampHeader_def validateHeaderValues_def emptyHeader_def Let_def
      plainOptions_def noOptions_def knownFrameFlags_def)
  from send_open(1) [OF this] v e assms(1,9) show ?thesis
    by (simp add: sendTransfer_def op_try_def requireEstablished_def with_result_def plainOptions_def noOptions_def chunkCountFor_eq chunksNeeded_def
        checksumFlag_def sampleMeta_def Let_def)
qed

definition plainTask :: "u64 \<Rightarrow> transferTask" where
  "plainTask i = newTask i plainOptions None [1, 2, 3, 4, 5, 6] True True None"

lemma update_fresh: "map_of al k = None \<Longrightarrow> AList.update k v al = al @ [(k, v)]"
  by (induction al) (auto split: if_splits)

lemma sample_launch:
  assumes "sConfig s = DefaultSessionConfig RoleClient" "sRemoteHello s = None" "sRemoteCaps s = DefaultCapabilities"
    "map_of (sOutgoing s) (sNextTransfer s + 1) = None" "length (sOutgoing s) < 8"
  shows "\<exists>ot. StartTransfer plainOptions [1, 2, 3, 4, 5, 6] True s
    = (plainTask (sNextTransfer s + 1), s\<lparr>sNextTransfer := sNextTransfer s + 1, sOutgoing := sOutgoing s @ [(sNextTransfer s + 1, ot)]\<rparr>) \<and> otFailed ot = None"
proof -
  let ?i = "sNextTransfer s + 1" and ?s = "s\<lparr>sNextTransfer := sNextTransfer s + 1\<rparr>"
  have n: "normalizeTransferOptions s plainOptions = plainOptions"
    using assms(1,2) by (simp add: normalizeTransferOptions_def plainOptions_def noOptions_def DefaultSessionConfig_def remoteLimits_def Let_def)
  obtain ot where o: "newOutgoing ?s ?i plainOptions = Inr ot" "otFailed ot = None"
    by (rule that [of "case newOutgoing ?s ?i plainOptions of Inr ot \<Rightarrow> ot"])
      (simp_all add: newOutgoing_def plainOptions_def noOptions_def chunkCountFor_eq chunksNeeded_def go_try_def Let_def)
  have u: "AList.update ?i ot (sOutgoing s) = sOutgoing s @ [(?i, ot)]"
    using assms(4) by (rule update_fresh)
  show ?thesis
    using assms(1,4,5) o u
    by (intro exI [of _ ot]) (simp add: StartTransfer_def launchTransfer_def n registerOutgoing_def with_result_def plainTask_def DefaultSessionConfig_def Let_def)
qed

lemma sample_run_task:
  assumes "sState s = SessionEstablished" "sConfig s = DefaultSessionConfig RoleClient" "sRemoteCaps s = DefaultCapabilities"
    "sRemoteHello s = None" "sRemoteFrame s = 0" "sHasTransport s" "sHasWriter s" "\<not> sWriterClosed s" "outgoingFailure s i = None"
  shows "\<exists>u b. runTask quietEnv [(0, None), (0, None)] (plainTask i) s
    = (u, handed (beginFrame i plainOptions (beginBytes sampleMeta)) s) \<and> tkPhase u = TaskBody b False"
  using sample_announce [OF assms]
  by (simp add: plainTask_def newTask_def taskStep_def callPhase_def sendPhase_def)

definition acceptingTransfers :: TransferEnv where
  "acceptingTransfers = quietTransfers\<lparr>teOpen := Some (\<lambda>_. OpenReady)\<rparr>"

definition samplePeer :: Session where
  "samplePeer = (newDefault RoleServer)\<lparr>sState := SessionEstablished, sRemoteCaps := DefaultCapabilities, sRunning := True,
     sRemoteHello := Some ((remoteLimits (newDefault RoleServer))\<lparr>helloMaxInFlightChunks := 4\<rparr>)\<rparr>"

lemma sample_accepts: "\<exists>r2. runTurn acceptingTransfers 0 (ReadFrameResult (beginFrame 7002 plainOptions (beginBytes sampleMeta))) samplePeer = (None, r2)"
proof -
  let ?f = "beginFrame 7002 plainOptions (beginBytes sampleMeta)"
  have f: "hFrameType (fHeader ?f) = FrameTransferBegin" "hTransferID (fHeader ?f) = 7002" "hRequestID (fHeader ?f) = 0" "fPayload ?f = beginBytes sampleMeta"
    "hSchemaID (fHeader ?f) = SchemaTransferBegin" "hPriority (fHeader ?f) = PriorityLow" "hChannelID (fHeader ?f) = ChannelBulk" "hFlags (fHeader ?f) = FlagFirst"
    by (simp_all add: beginFrame_def headed_def NewFrame_def plainOptions_def noOptions_def Let_def)
  define r1 where "r1 = samplePeer\<lparr>sRate := countFrame ?f 0 (sRate samplePeer)\<rparr>"
  have rate: "checkRateLimit ?f 0 samplePeer = (None, r1)"
    by (simp add: checkRateLimit_def r1_def countFrame_def samplePeer_def DefaultSessionConfig_def f sampleMeta_wf(2) Let_def)
  have ne: "beginBytes sampleMeta \<noteq> []" using sampleMeta_wf(2) by auto
  have env: "validateFrameEnvelope ?f = None"
    unfolding validateFrameEnvelope_def Let_def f expectedSchema_def using ne by simp
  have "HandleFrame acceptingTransfers 0 ?f samplePeer = dispatchFrame acceptingTransfers 0 ?f r1"
    by (rule handleFrame_established [OF _ rate env])
      (simp_all add: samplePeer_def f frameCapability_def requireCapability_def requireRemoteCapability_def RemoteSupports_def DefaultSessionConfig_def
        DefaultCapabilities_def Let_def)
  also have "\<dots> = handleIncomingTransferBegin acceptingTransfers ?f r1" by (simp add: dispatchFrame_def f Let_def)
  finally have h: "HandleFrame acceptingTransfers 0 ?f samplePeer = handleIncomingTransferBegin acceptingTransfers ?f r1" .
  have m: "tbTotalSize sampleMeta = 6" "tbChunkSize sampleMeta = 4" "tbChunkCount sampleMeta = 2" "tbFlags sampleMeta = 0"
    "tbParts sampleMeta = []" "tbEvent sampleMeta = []" by (simp_all add: sampleMeta_def)
  have r1: "sConfig r1 = DefaultSessionConfig RoleServer" "sRemoteCaps r1 = DefaultCapabilities" "sRunning r1" "sState r1 = SessionEstablished"
    "sLastIncoming r1 = 0" "sIncoming r1 = []" "sOpening r1 = []" "helloMaxInFlightChunks (remoteLimits r1) = 4"
    by (simp_all add: r1_def samplePeer_def remoteLimits_def)
  have "checkBegin r1 ?f sampleMeta True = None" "checkSlot r1 7002 = None"
    by (simp_all add: checkBegin_def checkSlot_def checkParts_def m r1 f DefaultSessionConfig_def chunkCountFor_eq chunksNeeded_def Let_def)
  then have "\<exists>r2. handleIncomingTransferBegin acceptingTransfers ?f r1 = (None, r2) \<and> sState r2 = SessionEstablished"
    unfolding handleIncomingTransferBegin_def f DecodeTransferBegin_bytes [OF sampleMeta_wf(1)] Let_def
    by (simp add: acceptingTransfers_def r1 remoteLimits_def [of "r1\<lparr>sLastIncoming := x, sOpening := y\<rparr>" for x y] RemoteSupports_def
      DefaultSessionConfig_def DefaultCapabilities_def r1(8) [unfolded remoteLimits_def])
  with h show ?thesis by (auto simp: runTurn_def samplePeer_def)
qed

theorem concurrent_starts_end_peer_witness:
  "\<exists>t1 s1 t2 s2 s3 u2 s4 u1 f2 f1 r2 r1 e. StartTransfer plainOptions [1, 2, 3, 4, 5, 6] True sampleStarter = (t1, s1)
    \<and> StartTransfer plainOptions [1, 2, 3, 4, 5, 6] True s1 = (t2, s2)
    \<and> runTask quietEnv [(0, None), (0, None)] t2 s2 = (u2, s3) \<and> runTask quietEnv [(0, None), (0, None)] t1 s3 = (u1, s4)
    \<and> sSent s4 = [f2, f1] \<and> runTurn acceptingTransfers 0 (ReadFrameResult f2) samplePeer = (None, r2)
    \<and> runTurn acceptingTransfers 0 (ReadFrameResult f1) r2 = (Some (Some e), r1) \<and> sTransportClosed r1"
proof -
  let ?b = "\<lambda>i. beginFrame i plainOptions (beginBytes sampleMeta)"
  have next_id: "sNextTransfer (newDefault RoleClient) = 7000" by (simp add: newDefault_def NewSessionWithConfig_def setState_def applyReceiveFrameLimit_def Let_def)
  obtain ot1 where 1: "StartTransfer plainOptions [1, 2, 3, 4, 5, 6] True sampleStarter = (plainTask 7001, sampleStarter\<lparr>sNextTransfer := 7001, sOutgoing := [(7001, ot1)]\<rparr>)"
    "otFailed ot1 = None"
    using sample_launch [of sampleStarter] by (auto simp: next_id sampleStarter_def)
  let ?s1 = "sampleStarter\<lparr>sNextTransfer := 7001, sOutgoing := [(7001, ot1)]\<rparr>"
  obtain ot2 where 2: "StartTransfer plainOptions [1, 2, 3, 4, 5, 6] True ?s1 = (plainTask 7002, ?s1\<lparr>sNextTransfer := 7002, sOutgoing := [(7001, ot1), (7002, ot2)]\<rparr>)"
    "otFailed ot2 = None"
    using sample_launch [of ?s1] by (auto simp: sampleStarter_def)
  let ?s2 = "?s1\<lparr>sNextTransfer := 7002, sOutgoing := [(7001, ot1), (7002, ot2)]\<rparr>"
  obtain u2 b2 where 3: "runTask quietEnv [(0, None), (0, None)] (plainTask 7002) ?s2 = (u2, handed (?b 7002) ?s2)" "tkPhase u2 = TaskBody b2 False"
    using sample_run_task [of ?s2 7002] 1(2) 2(2) by (auto simp: sampleStarter_def outgoingFailure_def)
  let ?s3 = "handed (?b 7002) ?s2"
  obtain u1 b1 where 4: "runTask quietEnv [(0, None), (0, None)] (plainTask 7001) ?s3 = (u1, handed (?b 7001) ?s3)" "tkPhase u1 = TaskBody b1 False"
    using sample_run_task [of ?s3 7001] 1(2) 2(2) by (auto simp: sampleStarter_def outgoingFailure_def handed_def)
  have "sHasWriter sampleStarter" "sNextTransfer sampleStarter < 2 ^ 63" by (simp_all add: sampleStarter_def next_id)
  from concurrent_starts_end_peer [OF this 1(1) 2(1) 3 4] obtain f2 f1 where f: "sSent (handed (?b 7001) ?s3) = sSent sampleStarter @ [f2, f1]"
    and "\<forall>te now2 now1 r r2. runTurn te now2 (ReadFrameResult f2) r = (None, r2) \<longrightarrow>
        (\<exists>e r1. runTurn te now1 (ReadFrameResult f1) r2 = (Some (Some e), r1) \<and> sTransportClosed r1
          \<and> (\<forall>(i, ot) \<in> set (sOutgoing r1). otFailed ot = Some e) \<and> sIncoming r1 = [])" by blast
  then have p: "\<exists>e r1. runTurn acceptingTransfers 0 (ReadFrameResult f1) r2 = (Some (Some e), r1) \<and> sTransportClosed r1"
    if "runTurn acceptingTransfers 0 (ReadFrameResult f2) r = (None, r2)" for r r2
    using that by blast
  from f have ff: "f2 = ?b 7002" "f1 = ?b 7001" "sSent sampleStarter = []" by (simp_all add: handed_def sampleStarter_def)
  obtain r2 where r2: "runTurn acceptingTransfers 0 (ReadFrameResult f2) samplePeer = (None, r2)" using sample_accepts ff by auto
  with p obtain e r1 where "runTurn acceptingTransfers 0 (ReadFrameResult f1) r2 = (Some (Some e), r1)" "sTransportClosed r1" by blast
  with 1(1) 2(1) 3(1) 4(1) f ff(3) r2 show ?thesis by fastforce
qed

section \<open>How a message travels\<close>

lemma normalize_keeps:
  "toRequestID (normalizeTransferOptions s o') = toRequestID o'" "toEvent (normalizeTransferOptions s o') = toEvent o'"
  "toFields (normalizeTransferOptions s o') = toFields o'" "toTotalSize (normalizeTransferOptions s o') = toTotalSize o'"
  "toUseData (normalizeTransferOptions s o') = toUseData o'" "toData (normalizeTransferOptions s o') = toData o'"
  by (simp_all add: normalizeTransferOptions_def Let_def)

lemma encodeSized:
  assumes "length (eventBytes v) \<le> maxPayload"
  shows "encodeEventMessageStringWithFieldsSizedInto [] (evEvent v) (evData v) (evFields v) (length (eventBytes v)) = Inr (eventBytes v)"
  using EncodeEventMessageStringWithFieldsInto_eq [OF assms, of "[]"] u64_small_le [OF assms]
  unfolding EncodeEventMessageStringWithFieldsInto_def eventMessagePayloadSize64_eq by (simp add: Let_def)

lemma sendEventFrame_sent:
  assumes "sendEventFrame env t i (evEvent v) (evData v) (evFields v) (of_nat (length (eventBytes v))) s = (None, s')"
    "sHasWriter s" "length (eventBytes v) < 2 ^ 64" "HeaderSize \<le> unat (plMaxFrameBytes (scPayload (sConfig s)))"
    "unat (plMaxFrameBytes (scPayload (sConfig s))) \<le> MaxFrameBytes"
  shows "\<exists>f. sSent s' = sSent s @ [f] \<and> hFrameType (fHeader f) = t \<and> hRequestID (fHeader f) = i \<and> hSchemaID (fHeader f) = SchemaEvent
    \<and> fPayload f = eventBytes v \<and> length (eventBytes v) \<le> maxPayload"
proof -
  let ?n = "length (eventBytes v)" and ?max = "plMaxFrameBytes (scPayload (sConfig s))"
  have n: "unat (of_nat ?n :: u64) = ?n" using assms(3) by (simp add: unat_of_nat)
  have "\<not> (of_nat ?n :: u64) > ucast (?max - of_nat HeaderSize)"
    using assms(1) by (auto simp: sendEventFrame_def split: if_splits)
  moreover have "unat (ucast (?max - of_nat HeaderSize) :: u64) = unat ?max - HeaderSize"
    using assms(4) by (simp add:  unat_sub word_le_nat_alt)
  ultimately have le: "?n \<le> unat ?max - HeaderSize" using n by (simp add: word_less_nat_alt)
  then have small: "?n \<le> maxPayload" using assms(5) by linarith
  from assms(1,2) show ?thesis
    using small n encodeSized [OF small]
    by (auto simp: sendEventFrame_def handOver_def with_result_def headed_def NewFrame_def Let_def split: if_splits option.splits)
qed

lemma chat_sendEvent: "chat s (snd (sendEventFrame env t i ev d fs n s))"
  unfolding sendEventFrame_def Let_def by (auto intro!: chat_with_result chat_handOver chat_send split: option.split)

lemma chat_sendRequest: "chat s (snd (sendRequestWithIDSize env i ev d fs n s))"
  unfolding sendRequestWithIDSize_def by (auto intro!: chat_op_try chat_ensure chat_sendEvent split: option.split)

lemma sendRequest_sent:
  assumes "sendRequestWithIDSize env i (evEvent v) (evData v) (evFields v) (of_nat (length (eventBytes v))) s = (e, s')"
    "sHasWriter s" "length (eventBytes v) < 2 ^ 64" "HeaderSize \<le> unat (plMaxFrameBytes (scPayload (sConfig s)))"
    "unat (plMaxFrameBytes (scPayload (sConfig s))) \<le> MaxFrameBytes"
  shows "sOutgoing s' = sOutgoing s"
    "e = None \<Longrightarrow> \<exists>f. sSent s' = sSent s @ [f] \<and> hFrameType (fHeader f) = FrameRequest \<and> hRequestID (fHeader f) = i
      \<and> hSchemaID (fHeader f) = SchemaEvent \<and> fPayload f = eventBytes v \<and> length (eventBytes v) \<le> maxPayload"
proof -
  obtain e1 s1 where 1: "EnsureAuthenticatedFor (NewFrame FrameRequest 0 []) s = (e1, s1)" by force
  have "chat s s1" using chat_ensure [of s "NewFrame FrameRequest 0 []"] unfolding 1 by simp
  from chat_fields [OF this] have s1: "sOutgoing s1 = sOutgoing s" "sHasWriter s1 = sHasWriter s" "sConfig s1 = sConfig s" by simp_all
  have sent1: "sSent s1 = sSent s"
    using 1 by (auto simp: EnsureAuthenticatedFor_def op_seq_def ret_def emitEvent_def Let_def split: if_splits)
  show "sOutgoing s' = sOutgoing s" using chat_fields [OF chat_sendRequest, of env i "evEvent v" "evData v" "evFields v"
    "of_nat (length (eventBytes v))" s] unfolding assms(1) by simp
  assume "e = None"
  with assms(1) have "sendEventFrame env FrameRequest i (evEvent v) (evData v) (evFields v) (of_nat (length (eventBytes v))) s1 = (None, s')"
    by (auto simp: sendRequestWithIDSize_def op_try_def 1 [simplified] split: option.splits if_splits)
  from sendEventFrame_sent [OF this] assms(2-5) s1 sent1
  show "\<exists>f. sSent s' = sSent s @ [f] \<and> hFrameType (fHeader f) = FrameRequest \<and> hRequestID (fHeader f) = i
      \<and> hSchemaID (fHeader f) = SchemaEvent \<and> fPayload f = eventBytes v \<and> length (eventBytes v) \<le> maxPayload" by auto
qed

text \<open>C17: a message travels whole, in one of two ways. A message without a reader whose encoding is within the limits for
  requests and inline bodies is one request frame, from which the peer decodes exactly its event, data and fields, under the
  identifier returned to the caller, and no transfer is started. Every other message sends nothing itself but starts one goroutine, for a transfer with the
  same identifier, event and fields, whose body is the data, or what the reader gives, at its announced size.\<close>

theorem message_travels_whole:
  fixes opts :: MessageOptions
  defines "v \<equiv> \<lparr>evEvent = mgEvent opts, evData = mgData opts, evFields = mgFields opts\<rparr>"
  defines "inline s \<equiv> \<not> mgHasReader opts \<and> length (eventBytes v) \<le> unat (plMaxRequestBytes (scPayload (sConfig s)))
     \<and> length (eventBytes v) \<le> unat (plMaxInlineBodyBytes (scPayload (sConfig s)))"
  assumes request: "Request env opts source parentDone s = (r, s')" "sHasWriter s"
    and fits: "length (eventBytes v) < 2 ^ 64" "length (mgFields opts) \<le> MaxTransferFields"
    and limits: "HeaderSize \<le> unat (plMaxFrameBytes (scPayload (sConfig s)))" "unat (plMaxFrameBytes (scPayload (sConfig s))) \<le> MaxFrameBytes"
    and ok: "soErr r = None"
  shows "mhRequestID (soHandle r) = sNextRequest s + 1
    \<and> (if inline s
       then soTask r = None \<and> sOutgoing s' = sOutgoing s
         \<and> (\<exists>f. sSent s' = sSent s @ [f] \<and> hFrameType (fHeader f) = FrameRequest \<and> hRequestID (fHeader f) = sNextRequest s + 1
              \<and> DecodeEventMessage (fPayload f) = Inr v)
       else sSent s' = sSent s
         \<and> (\<exists>t. soTask r = Some t \<and> tkPhase t = TaskReady \<and> toRequestID (tkOpts t) = sNextRequest s + 1
              \<and> toEvent (tkOpts t) = mgEvent opts \<and> toFields (tkOpts t) = mgFields opts
              \<and> tkSource t = (if mgHasReader opts then source else mgData opts)
              \<and> toTotalSize (tkOpts t) = (if mgHasReader opts then mgSize opts else of_nat (length (mgData opts)))))"
proof -
  let ?i = "sNextRequest s + 1" and ?n = "length (eventBytes v)"
  let ?s = "s\<lparr>sNextRequest := ?i\<rparr>"
  have n: "eventMessagePayloadSize64 (length (mgEvent opts)) (length (mgData opts)) (mgFields opts) = of_nat ?n"
    using eventMessagePayloadSize64_eq [of v] by (simp add: v_def)
  have inl: "snd (inlinePayloadSize ?s opts (plMaxRequestBytes (scPayload (sConfig s)))) = inline s"
    using fits(1) by (simp add: inlinePayloadSize_def inline_def n Let_def word_le_nat_alt  unat_of_nat)
  show ?thesis
  proof (cases "inline s")
    case True
    obtain e s1 where q: "sendRequestWithIDSize env ?i (evEvent v) (evData v) (evFields v) (of_nat ?n) ?s = (e, s1)" by force
    from True inl have size: "inlinePayloadSize ?s opts (plMaxRequestBytes (scPayload (sConfig s))) = (of_nat ?n, True)"
      by (simp add: inlinePayloadSize_def n inline_def Let_def)
    with request(1) q have r: "r = \<lparr>soHandle = \<lparr>mhRequestID = ?i, mhTransferID = 0\<rparr>, soErr = e, soTask = None\<rparr>" "s' = s1"
      by (simp_all add: Request_def v_def Let_def)
    have wf: "eventWf v" if "?n \<le> maxPayload" using that fits(2) by (simp add: eventWf_def v_def)
    from sendRequest_sent [OF q] r ok request(2) fits(1) limits True wf DecodeEventMessage_bytes [of v] show ?thesis by fastforce
  next
    case False
    with inl have "\<not> snd (inlinePayloadSize ?s opts (plMaxRequestBytes (scPayload (sConfig s))))" by simp
    with request(1) have start: "(r, s') = apfst messageOutcome (startMessageTransfer ?i opts source parentDone ?s)"
      by (simp add: Request_def Let_def split: prod.splits)
    obtain t s1 where l: "launchTransfer (messageTransferOptions ?i opts (if mgHasReader opts then mgSize opts else of_nat (length (mgData opts))))
      source False parentDone ?s = (t, s1)" by force
    have t: "tkOpts t = normalizeTransferOptions ?s (messageTransferOptions ?i opts (if mgHasReader opts then mgSize opts else of_nat (length (mgData opts))))"
      "tkSource t = (if mgHasReader opts then source else mgData opts)"
      using l by (auto simp: launchTransfer_def newTask_def normalize_keeps messageTransferOptions_def Let_def split: prod.splits)
    from start l ok have "s' = s1" "soTask r = Some t" "mhRequestID (soHandle r) = ?i"
      by (auto simp: startMessageTransfer_def messageOutcome_def Let_def split: if_splits)
    with launch_task [OF l] t False show ?thesis
      by (simp add: normalize_keeps messageTransferOptions_def)
  qed
qed

definition sampleMessage :: MessageOptions where
  "sampleMessage = \<lparr>mgEvent = ''ping'', mgData = [1, 2, 3], mgFields = [], mgHasReader = False, mgSize = 0, mgName = [], mgField = [],
     mgIndex = 0, mgContentType = 0, mgChunkSize = 0, mgAckTimeout = 0, mgRetryLimit = 0\<rparr>"

lemma sample_request:
  "length (eventBytes \<lparr>evEvent = mgEvent sampleMessage, evData = mgData sampleMessage, evFields = mgFields sampleMessage\<rparr>) = 15"
  "\<exists>r s'. Request quietEnv sampleMessage [] True sampleStarter = (r, s') \<and> soErr r = None"
proof -
  let ?v = "\<lparr>evEvent = mgEvent sampleMessage, evData = mgData sampleMessage, evFields = mgFields sampleMessage\<rparr>"
  show n: "length (eventBytes ?v) = 15"
    by (simp add: sampleMessage_def eventBytes_def eventHead_def fieldsBytes_def bytes_of_string_def)
  have e: "encodeEventMessageStringWithFieldsSizedInto [] (mgEvent sampleMessage) (mgData sampleMessage) (mgFields sampleMessage) 15 = Inr (eventBytes ?v)"
    using encodeSized [of ?v] n by simp
  have size: "inlinePayloadSize (sampleStarter\<lparr>sNextRequest := i\<rparr>) sampleMessage (plMaxRequestBytes (scPayload (sConfig sampleStarter))) = (15, True)" for i
    by (simp add: inlinePayloadSize_def sampleMessage_def sampleStarter_def eventMessagePayloadSize64_def transferFieldsPayloadSize64_def
        DefaultSessionConfig_def Let_def)
  have ok: "fst (sendRequestWithIDSize quietEnv i (mgEvent sampleMessage) (mgData sampleMessage) (mgFields sampleMessage) 15 (sampleStarter\<lparr>sNextRequest := i\<rparr>)) = None" for i
    by (simp add: sendRequestWithIDSize_def sampleStarter_def requireEstablished_def requireCapability_def requireRemoteCapability_def RemoteSupports_def
        DefaultCapabilities_def DefaultSessionConfig_def op_try_def EnsureAuthenticatedFor_def sendEventFrame_def checkRemoteFrameSize_def remoteMaxFrameBytes_def
        e with_result_def handOver_def Let_def)
  obtain r s' where r: "Request quietEnv sampleMessage [] True sampleStarter = (r, s')" by force
  have "soErr r = None" using r ok size by (auto simp: Request_def Let_def split: prod.splits) (metis fst_conv)
  with r show "\<exists>r s'. Request quietEnv sampleMessage [] True sampleStarter = (r, s') \<and> soErr r = None" by blast
qed

theorem message_travels_whole_witness:
  "\<exists>r s' f. Request quietEnv sampleMessage [] True sampleStarter = (r, s') \<and> soTask r = None \<and> sSent s' = [f]
    \<and> DecodeEventMessage (fPayload f) = Inr \<lparr>evEvent = ''ping'', evData = [1, 2, 3], evFields = []\<rparr>"
proof -
  let ?v = "\<lparr>evEvent = mgEvent sampleMessage, evData = mgData sampleMessage, evFields = mgFields sampleMessage\<rparr>"
  obtain r s' where r: "Request quietEnv sampleMessage [] True sampleStarter = (r, s')" "soErr r = None" using sample_request(2) by blast
  have st: "sHasWriter sampleStarter" "sConfig sampleStarter = DefaultSessionConfig RoleClient" "sSent sampleStarter = []"
    by (simp_all add: sampleStarter_def)
  have "\<not> mgHasReader sampleMessage" by (simp add: sampleMessage_def)
  with message_travels_whole [OF r(1) st(1) _ _ _ _ r(2)] sample_request(1)
  have "soTask r = None" "\<exists>f. sSent s' = [f] \<and> DecodeEventMessage (fPayload f) = Inr ?v"
    by (auto simp: st DefaultSessionConfig_def sampleMessage_def)
  with r(1) show ?thesis by (simp add: sampleMessage_def)
qed

end
