(* ===== verification/Etp_App.thy ===== *)
theory Etp_App
  imports Etp_Launch Etp_Router Etp_Body
begin

text \<open>
  The application (\<open>src/app.go\<close>, and the peer and context of \<open>src/types.go\<close>): its configuration, the registration of routes and of
  callbacks, the sessions it serves and what their handlers do with a message, and sending from a peer or a context. The section after the model
  composes the whole path of a request: the call of one side, the frame it sends, the turn of the read loop of the other side, and the handler
  that its router finds. The last one follows the state machine of a session to show when the application hears of a connection
  and of its end. Parameters: the callbacks of the application, and \<open>world\<close>, the part of the environment of a
  session that is not the application's.
\<close>

section \<open>The application\<close>

text \<open>A handler of the application is a function of the context it is called with. Of the other callbacks the model keeps what they return for
  a connection, or only that they are set.\<close>

type_synonym appHandler = "Context \<Rightarrow> go_error option"

record AppConfig =
  apSession :: SessionConfig
  apMaxMemoryBody :: int
  apMaxPooledBodyBytes :: int
  apHasOnError :: bool

record App =
  aRouter :: "appHandler routers"
  aConfig :: AppConfig
  aOnAuth :: "(AuthRequest \<Rightarrow> authOutcome) option"
  aOnConnect :: "go_error option option"
  aOnDisconnect :: bool
  aOnNotFound :: "appHandler option"
  aOnProtocolEvent :: bool
  aOnProgress :: bool

definition defaultMaxMemoryBody :: int where [simp]: "defaultMaxMemoryBody = push_bit 20 8"
definition defaultMaxPooledBody :: int where [simp]: "defaultMaxPooledBody = push_bit 10 64"
definition ErrNilFrameTransport :: go_error where "ErrNilFrameTransport = Err ''transport: nil frame transport''"

definition NewApp :: "AppConfig \<Rightarrow> App" where
  "NewApp config =
     (let session = apSession config;
          session = (if scRole session = '''' then session\<lparr>scRole := RoleServer\<rparr> else session);
          maxMemory = (if apMaxMemoryBody config \<le> 0 then defaultMaxMemoryBody else apMaxMemoryBody config);
          maxPooled = (if apMaxPooledBodyBytes config = 0 then defaultMaxPooledBody
                       else if apMaxPooledBodyBytes config < 0 then 0 else apMaxPooledBodyBytes config)
      in \<lparr>aRouter = NewRouter,
          aConfig = config\<lparr>apSession := NormalizeSessionConfig session, apMaxMemoryBody := maxMemory, apMaxPooledBodyBytes := maxPooled\<rparr>,
          aOnAuth = None, aOnConnect = None, aOnDisconnect = False, aOnNotFound = None, aOnProtocolEvent = False, aOnProgress = False\<rparr>)"

subsection \<open>Registration\<close>

definition appCompiled :: "App \<Rightarrow> bool" where
  "appCompiled a = rIsCompiled (aRouter a ! 0)"

definition UseApp :: "string \<Rightarrow> (appHandler \<Rightarrow> appHandler) option \<Rightarrow> App \<Rightarrow> App go" where
  "UseApp pattern middleware a = go_try (Use (aRouter a) 0 pattern middleware) (\<lambda>rs. Inr (a\<lparr>aRouter := rs\<rparr>))"

definition OnApp :: "string \<Rightarrow> appHandler option \<Rightarrow> App \<Rightarrow> App go" where
  "OnApp pattern handler a = go_try (On (aRouter a) 0 pattern handler) (\<lambda>rs. Inr (a\<lparr>aRouter := rs\<rparr>))"

text \<open>A group is a node of the route tree.\<close>

definition GroupApp :: "string list \<Rightarrow> App \<Rightarrow> (App \<times> nat) go" where
  "GroupApp prefix a = go_try (Group (aRouter a) 0 prefix) (\<lambda>(rs, g). Inr (a\<lparr>aRouter := rs\<rparr>, g))"

definition GroupUse :: "nat \<Rightarrow> string \<Rightarrow> (appHandler \<Rightarrow> appHandler) option \<Rightarrow> App \<Rightarrow> App go" where
  "GroupUse g pattern middleware a = go_try (Use (aRouter a) g pattern middleware) (\<lambda>rs. Inr (a\<lparr>aRouter := rs\<rparr>))"

definition GroupOn :: "nat \<Rightarrow> string \<Rightarrow> appHandler option \<Rightarrow> App \<Rightarrow> App go" where
  "GroupOn g pattern handler a = go_try (On (aRouter a) g pattern handler) (\<lambda>rs. Inr (a\<lparr>aRouter := rs\<rparr>))"

definition GroupGroup :: "nat \<Rightarrow> string list \<Rightarrow> App \<Rightarrow> (App \<times> nat) go" where
  "GroupGroup g prefix a = go_try (Group (aRouter a) g prefix) (\<lambda>(rs, h). Inr (a\<lparr>aRouter := rs\<rparr>, h))"

text \<open>The guards of every \<open>On...\<close> method: not after \<open>Compile\<close>, and not nil.\<close>

definition registering :: "'f option \<Rightarrow> ('f \<Rightarrow> App \<Rightarrow> App) \<Rightarrow> App \<Rightarrow> App go" where
  "registering handler set_handler a =
     (if appCompiled a then Inl ErrRouterCompiled
      else case handler of None \<Rightarrow> Inl ErrHandlerNil | Some h \<Rightarrow> Inr (set_handler h a))"

definition OnAuth :: "(AuthRequest \<Rightarrow> authOutcome) option \<Rightarrow> App \<Rightarrow> App go" where
  "OnAuth handler = registering handler (\<lambda>h a.
     let config = aConfig a; session = apSession config
     in a\<lparr>aConfig := config\<lparr>apSession := session\<lparr>scAuth := (scAuth session)\<lparr>acRequired := True\<rparr>\<rparr>\<rparr>, aOnAuth := Some h\<rparr>)"

definition OnError :: "unit option \<Rightarrow> App \<Rightarrow> App go" where
  "OnError handler = registering handler (\<lambda>_ a. a\<lparr>aConfig := (aConfig a)\<lparr>apHasOnError := True\<rparr>\<rparr>)"

definition OnProtocolEvent :: "unit option \<Rightarrow> App \<Rightarrow> App go" where
  "OnProtocolEvent handler = registering handler (\<lambda>_ a. a\<lparr>aOnProtocolEvent := True\<rparr>)"

definition OnProgress :: "unit option \<Rightarrow> App \<Rightarrow> App go" where
  "OnProgress handler = registering handler (\<lambda>_ a. a\<lparr>aOnProgress := True\<rparr>)"

definition OnConnect :: "go_error option option \<Rightarrow> App \<Rightarrow> App go" where
  "OnConnect handler = registering handler (\<lambda>h a. a\<lparr>aOnConnect := Some h\<rparr>)"

definition OnDisconnect :: "unit option \<Rightarrow> App \<Rightarrow> App go" where
  "OnDisconnect handler = registering handler (\<lambda>_ a. a\<lparr>aOnDisconnect := True\<rparr>)"

definition OnNotFound :: "appHandler option \<Rightarrow> App \<Rightarrow> App go" where
  "OnNotFound handler = registering handler (\<lambda>h a. a\<lparr>aOnNotFound := Some h\<rparr>)"

definition CompileApp :: "App \<Rightarrow> App" where
  "CompileApp a = a\<lparr>aRouter := Compile (aRouter a) 0\<rparr>"

definition AppMaxFrameBytes :: "App \<Rightarrow> u32" where
  "AppMaxFrameBytes a = plMaxFrameBytes (scPayload (apSession (aConfig a)))"

subsection \<open>Events\<close>

definition emitApp :: "App \<Rightarrow> Context \<Rightarrow> go_error option" where
  "emitApp a ctx = fst (emit (aOnNotFound a) (apHasOnError (aConfig a)) (aRouter a) 0 (cxEvent ctx) ctx)"

text \<open>The context comes from a pool and goes back to it cleared.\<close>

definition releaseContext :: "Context \<Rightarrow> Context" where
  "releaseContext ctx = ctx\<lparr>cxEvent := '''', cxRequestID := 0, cxTransferID := 0, cxFields := [], cxBody := None\<rparr>"

definition bytesToStringView :: "bytes \<Rightarrow> string" where
  "bytesToStringView value = (if value = [] then '''' else string_of_bytes value)"

definition dispatchEvent :: "App \<Rightarrow> Context \<Rightarrow> Frame \<Rightarrow> EventMessageView \<Rightarrow> go_error option \<times> Context" where
  "dispatchEvent a pooled frame message =
     (let request = pooled\<lparr>cxEvent := bytesToStringView (evvEvent message), cxRequestID := hRequestID (fHeader frame),
            cxFields := evvFields message, cxBody := Some (inlineBody (evvData message))\<rparr>
      in (emitApp a request, releaseContext request))"

text \<open>\<open>handleRequest\<close> and \<open>handleResponse\<close> as the handlers of a session.\<close>

definition handleRequest :: "App \<Rightarrow> Context \<Rightarrow> Frame \<Rightarrow> EventMessageView \<Rightarrow> go_error option" where
  "handleRequest a pooled frame message = fst (dispatchEvent a pooled frame message)"

definition handleResponse :: "App \<Rightarrow> Context \<Rightarrow> Frame \<Rightarrow> EventMessageView \<Rightarrow> go_error option" where
  "handleResponse a pooled frame message = fst (dispatchEvent a pooled frame message)"

subsection \<open>Serving a connection\<close>

text \<open>The configuration of the session of a peer: its handlers are the application's. \<open>world\<close> is the rest of the environment.\<close>

definition peerEnv :: "App \<Rightarrow> Context \<Rightarrow> TransferEnv \<Rightarrow> TransferEnv" where
  "peerEnv a pooled world =
     world\<lparr>envAuth := aOnAuth a, envRequest := Some (handleRequest a pooled), envResponse := Some (handleResponse a pooled),
       teOpen := Some (\<lambda>_. OpenReady), envEstablished := (case aOnConnect a of None \<Rightarrow> None | Some r \<Rightarrow> r)\<rparr>"

definition peerSession :: "App \<Rightarrow> u64 option \<Rightarrow> Session" where
  "peerSession a negotiated = NewSessionWithConfig True negotiated (apSession (aConfig a))"

text \<open>What \<open>ServeTransportWithRemote\<close> observes: whether the session called its \<open>OnEstablished\<close> callback with success, that is, whether the
  variable \<open>connected\<close> is set. A session becomes established during a turn only through that callback.\<close>

definition becomesEstablished :: "Session \<Rightarrow> Session \<Rightarrow> bool" where
  "becomesEstablished s s' \<longleftrightarrow> sState s \<noteq> SessionEstablished \<and> sState s' = SessionEstablished"

text \<open>The read loop on the results of its reads, with the variable \<open>connected\<close>; \<open>None\<close> while it has not returned.\<close>

fun runTurns :: "TransferEnv \<Rightarrow> (int \<times> readResult) list \<Rightarrow> bool \<times> Session \<Rightarrow> go_error option option \<times> bool \<times> Session" where
  "runTurns te [] (connected, s) = (None, connected, s)"
| "runTurns te ((now, r) # rs) (connected, s) =
     (case runTurn te now r s of
        (Some result, s') \<Rightarrow> (Some result, connected, s')
      | (None, s') \<Rightarrow> runTurns te rs (connected \<or> becomesEstablished s s', s'))"

text \<open>The calls of the disconnect handler.\<close>

definition ServeTransportWithRemote :: "App \<Rightarrow> bool \<Rightarrow> u64 option \<Rightarrow> Context \<Rightarrow> TransferEnv \<Rightarrow> (int \<times> readResult) list
    \<Rightarrow> go_error option option \<times> go_error option list \<times> Session option" where
  "ServeTransportWithRemote a hasTransport negotiated pooled world reads =
     (if \<not> hasTransport then (Some (Some ErrNilFrameTransport), [], None)
      else
      let a = CompileApp a in
      case runTurns (peerEnv a pooled world) reads (False, (peerSession a negotiated)\<lparr>sRunning := True, sStarted := True\<rparr>) of
        (None, connected, s) \<Rightarrow> (None, [], Some s)
      | (Some err, connected, s) \<Rightarrow>
          (Some err, if connected \<and> aOnDisconnect a then [err] else [], Some (s\<lparr>sRunning := False\<rparr>)))"

definition ServeTransport :: "App \<Rightarrow> bool \<Rightarrow> u64 option \<Rightarrow> Context \<Rightarrow> TransferEnv \<Rightarrow> (int \<times> readResult) list
    \<Rightarrow> go_error option option \<times> go_error option list \<times> Session option" where
  "ServeTransport = ServeTransportWithRemote"

definition ioEOF :: go_error where "ioEOF = Err ''EOF''"

text \<open>\<open>FrameTransportAdapter\<close>: the end of the stream is not an error.\<close>

definition adapterName :: "string \<Rightarrow> string" where
  "adapterName name = (if name = '''' then ''frame'' else name)"

definition Serve :: "App \<Rightarrow> bool \<Rightarrow> u64 option \<Rightarrow> Context \<Rightarrow> TransferEnv \<Rightarrow> (int \<times> readResult) list \<Rightarrow> go_error option option" where
  "Serve a hasTransport negotiated pooled world reads =
     (case fst (ServeTransport a hasTransport negotiated pooled world reads) of
        Some (Some e) \<Rightarrow> Some (if e = ioEOF then None else Some e)
      | r \<Rightarrow> r)"

subsection \<open>Sending from a handler\<close>

record SendOptions =
  soEvent :: string
  soData :: bytes
  soFields :: "TransferField list"
  soHasReader :: bool
  soSize :: u64
  soName :: string
  soField :: string
  soIndex :: u32
  soContentType :: u32
  soChunkSize :: int
  soAckTimeout :: int
  soRetryLimit :: int

definition toETPMessageOptions :: "SendOptions \<Rightarrow> MessageOptions" where
  "toETPMessageOptions opts =
     \<lparr>mgEvent = soEvent opts, mgData = soData opts, mgFields = soFields opts, mgHasReader = soHasReader opts, mgSize = soSize opts,
      mgName = soName opts, mgField = soField opts, mgIndex = soIndex opts, mgContentType = soContentType opts,
      mgChunkSize = soChunkSize opts, mgAckTimeout = soAckTimeout opts, mgRetryLimit = soRetryLimit opts\<rparr>"

definition PeerSend :: "SessionEnv \<Rightarrow> SendOptions \<Rightarrow> bytes \<Rightarrow> bool \<Rightarrow> Session \<Rightarrow> sendOutcome \<times> Session" where
  "PeerSend env opts = SendMessage env (toETPMessageOptions opts)"

definition PeerRequest :: "SessionEnv \<Rightarrow> SendOptions \<Rightarrow> bytes \<Rightarrow> bool \<Rightarrow> Session \<Rightarrow> sendOutcome \<times> Session" where
  "PeerRequest env opts = Request env (toETPMessageOptions opts)"

definition PeerRespond :: "SessionEnv \<Rightarrow> u64 \<Rightarrow> SendOptions \<Rightarrow> bytes \<Rightarrow> bool \<Rightarrow> Session \<Rightarrow> sendOutcome \<times> Session" where
  "PeerRespond env requestID opts = Respond env requestID (toETPMessageOptions opts)"

definition PeerClose :: "SessionEnv \<Rightarrow> go_error option \<Rightarrow> Session \<Rightarrow> closeStep \<times> Session" where
  "PeerClose env peerDone = Close env peerDone"

text \<open>\<open>Context.Respond\<close> answers under the identifier of the request.\<close>

definition contextRespond :: "SessionEnv \<Rightarrow> Context \<Rightarrow> SendOptions \<Rightarrow> bytes \<Rightarrow> bool \<Rightarrow> Session \<Rightarrow> sendOutcome \<times> Session" where
  "contextRespond env ctx opts = PeerRespond env (cxRequestID ctx) opts"

section \<open>From a caller to a handler\<close>

lemma DecodeView_bytes:
  assumes "eventWf v"
  shows "DecodeEventMessageView (eventBytes v) = Inr \<lparr>evvEvent = bytes_of_string (evEvent v), evvData = evData v, evvFields = evFields v\<rparr>"
proof -
  have "decodeTransferFields (fieldsBytes (evFields v)) = Inr (evFields v)"
    using assms by (intro decodeTransferFields_fieldsBytes fieldsWf_small) (simp_all add: eventWf_def eventBytes_def)
  with assms show ?thesis
    by (cases v) (simp add: DecodeEventMessageView_def eventBytes_def eventHead_def tailBytes_def eventWf_def unat_small_length)
qed

lemma bytesToStringView_of [simp]: "bytesToStringView (bytes_of_string s) = s"
  by (simp add: bytesToStringView_def)

lemma handleRequest_context:
  fixes frame :: Frame and message :: EventMessageView
  assumes "pooled = releaseContext p" "built rs" "aRouter a = Compile rs 0" "j < length rs" "ep \<in> set (rEndpoints (rs ! j))"
    "evvEvent message = bytes_of_string (epPattern ep)"
  defines "ctx \<equiv> \<lparr>cxEvent = epPattern ep, cxRequestID = hRequestID (fHeader frame), cxTransferID = 0, cxFields = evvFields message,
    cxBody = Some (inlineBody (evvData message))\<rparr>"
    and "h \<equiv> foldr (\<lambda>m h. if matchPattern (mwPattern m) (epPattern ep) then mwFn m h else h) (inForce rs j) (epFn ep)"
  shows "handleRequest a pooled frame message
    = (case aOnNotFound a of Some g \<Rightarrow> if h ctx = Some ErrRouteNotFound then g ctx else h ctx | None \<Rightarrow> h ctx)"
proof -
  have inv: "routersInv rs" by (rule built_inv [OF assms(2)])
  have "Emit (aRouter a) 0 (epPattern ep) = Inr h"
    using assms(4) compiled_registered [OF inv assms(4,5)] unfolding assms(3) h_def
    by (subst Emit_Compile [OF inv]) (auto simp: wrapHandler_foldr)
  moreover have "pooled\<lparr>cxEvent := epPattern ep, cxRequestID := hRequestID (fHeader frame),
      cxFields := evvFields message, cxBody := Some (inlineBody (evvData message))\<rparr> = ctx"
    by (simp add: assms(1) ctx_def releaseContext_def)
  ultimately show ?thesis
    by (simp add: handleRequest_def dispatchEvent_def emitApp_def emit_def assms(6) Let_def ctx_def split: option.split)
qed

text \<open>C4: a request reaches its handler whole. A caller sends a message that is small enough to travel inline; the frame that leaves its session, read by an
  established session of a server application whose router has a route for the event, is queued for the handler goroutines as one
  call; and that call runs the handler of the route, wrapped by the matching middlewares of its group and the groups above, on a context with exactly the event, the
  fields and the data of the caller, the identifier the caller was given, no transfer, and nothing left over from an earlier use of the
  pooled context.\<close>

theorem request_reaches_handler:
  fixes opts :: MessageOptions and rs :: "appHandler routers"
  defines "v \<equiv> \<lparr>evEvent = mgEvent opts, evData = mgData opts, evFields = mgFields opts\<rparr>"
  defines "n \<equiv> length (eventBytes v)"
  assumes caller: "Request env opts source parentDone s = (r, s')" "soErr r = None" "sHasWriter s" "sNextRequest s + 1 \<noteq> 0"
    and caller_limits: "HeaderSize \<le> unat (plMaxFrameBytes (scPayload (sConfig s)))" "unat (plMaxFrameBytes (scPayload (sConfig s))) \<le> MaxFrameBytes"
    and inline: "\<not> mgHasReader opts" "n \<le> unat (plMaxRequestBytes (scPayload (sConfig s)))" "n \<le> unat (plMaxInlineBodyBytes (scPayload (sConfig s)))"
      "length (mgFields opts) \<le> MaxTransferFields"
    and app: "built rs" "aRouter a = Compile rs 0" "j < length rs" "ep \<in> set (rEndpoints (rs ! j))" "epPattern ep = mgEvent opts" "mgEvent opts \<noteq> []"
    and pool: "pooled = releaseContext p"
    and peer: "sState w = SessionEstablished" "sRunning w" "int (length (sHandlerJobs w)) < hcQueue (scHandlers (sConfig w))"
      "requireCapability w CapabilityRequestResponse ''request/response'' = None" "n \<le> unat (plMaxRequestBytes (scPayload (sConfig w)))"
      "\<And>f. length (fPayload f) = n \<Longrightarrow> fst (checkRateLimit f now w) = None"
  shows "\<exists>f view w'. sSent s' = sSent s @ [f] \<and> runTurn (peerEnv a pooled world) now (ReadFrameResult f) w = (None, w')
    \<and> sHandlerJobs w' = sHandlerJobs w @ [RequestCall f view]
    \<and> handleRequest a pooled f view =
        (let ctx = \<lparr>cxEvent = mgEvent opts, cxRequestID = mhRequestID (soHandle r), cxTransferID = 0, cxFields = mgFields opts,
                    cxBody = Some (inlineBody (mgData opts))\<rparr>;
             h = foldr (\<lambda>m h. if matchPattern (mwPattern m) (epPattern ep) then mwFn m h else h) (inForce rs j) (epFn ep)
         in case aOnNotFound a of Some g \<Rightarrow> if h ctx = Some ErrRouteNotFound then g ctx else h ctx | None \<Rightarrow> h ctx)"
proof -
  let ?i = "sNextRequest s + 1" and ?s = "s\<lparr>sNextRequest := sNextRequest s + 1\<rparr>"
  have small: "n < 2 ^ 64" using inline(2) unsigned_less [of "plMaxRequestBytes (scPayload (sConfig s))", where 'a = nat] by simp
  have size: "inlinePayloadSize ?s opts (plMaxRequestBytes (scPayload (sConfig s))) = (of_nat n, True)"
    using eventMessagePayloadSize64_eq [of v] inline small
    by (simp add: inlinePayloadSize_def v_def n_def Let_def word_le_nat_alt unat_of_nat)
  obtain e s1 where q: "sendRequestWithIDSize env ?i (evEvent v) (evData v) (evFields v) (of_nat n) ?s = (e, s1)" by force
  with caller(1,2) size have r: "soHandle r = \<lparr>mhRequestID = ?i, mhTransferID = 0\<rparr>" "s' = s1" "e = None"
    by (simp_all add: Request_def v_def Let_def split: prod.splits) (auto simp: v_def)
  obtain f where f: "sSent s' = sSent s @ [f]" "hFrameType (fHeader f) = FrameRequest" "hRequestID (fHeader f) = ?i" "fPayload f = eventBytes v" "n \<le> maxPayload"
    "hSchemaID (fHeader f) = SchemaEvent"
    using sendRequest_sent(2) [OF q [unfolded n_def]] r caller(3) caller_limits small unfolding n_def by auto
  let ?view = "\<lparr>evvEvent = bytes_of_string (mgEvent opts), evvData = mgData opts, evvFields = mgFields opts\<rparr>"
  have view: "DecodeEventMessageView (fPayload f) = Inr ?view"
    using DecodeView_bytes [of v] f(4,5) inline(4) by (simp add: eventWf_def v_def n_def)
  obtain w1 where rate: "checkRateLimit f now w = (None, w1)" using peer(6) [of f] f(4) by (cases "checkRateLimit f now w") (auto simp: n_def)
  note w1 = checkRateLimit_passed [OF rate]
  have ne: "eventBytes v \<noteq> []" by (simp add: eventBytes_def eventHead_def tailBytes_def be32_def)
  have "HandleFrame (peerEnv a pooled world) now f w = dispatchFrame (peerEnv a pooled world) now f w1"
    by (rule handleFrame_established [OF peer(1) rate])
      (use f ne peer(4) in \<open>simp_all add: validateFrameEnvelope_def expectedSchema_def frameCapability_def Let_def\<close>)
  also have "\<dots> = (None, w1\<lparr>sHandlerJobs := sHandlerJobs w1 @ [RequestCall f ?view]\<rparr>)"
    using f caller(4) peer(2,3,5) view app(6)
    by (simp add: dispatchFrame_def handleIncomingRequest_def invokeApplicationHandler_def peerEnv_def n_def w1 SessionEnv.defs Let_def)
  finally have turn: "runTurn (peerEnv a pooled world) now (ReadFrameResult f) w = (None, w1\<lparr>sHandlerJobs := sHandlerJobs w1 @ [RequestCall f ?view]\<rparr>)"
    using peer(1) by (simp add: runTurn_def w1)
  have "handleRequest a pooled f ?view = (let ctx = \<lparr>cxEvent = mgEvent opts, cxRequestID = mhRequestID (soHandle r), cxTransferID = 0, cxFields = mgFields opts,
                    cxBody = Some (inlineBody (mgData opts))\<rparr>;
             h = foldr (\<lambda>m h. if matchPattern (mwPattern m) (epPattern ep) then mwFn m h else h) (inForce rs j) (epFn ep)
         in case aOnNotFound a of Some g \<Rightarrow> if h ctx = Some ErrRouteNotFound then g ctx else h ctx | None \<Rightarrow> h ctx)"
    using handleRequest_context [OF pool app(1-4), of ?view f] app(5) f(3) r(1) by (cases "aOnNotFound a") (simp_all add: Let_def)
  with f(1) turn show ?thesis by (intro exI [of _ f] exI [of _ ?view]
      exI [of _ "w1\<lparr>sHandlerJobs := sHandlerJobs w1 @ [RequestCall f ?view]\<rparr>"]) (simp add: w1)
qed

text \<open>An application with one route, whose handler answers with an error that shows it ran on the body of the message.\<close>

definition sampleHandler :: appHandler where
  "sampleHandler ctx = (if contextBodyView ctx = ([1, 2, 3], True) then Some ioEOF else None)"

definition sampleApp :: App where
  "sampleApp = (case OnApp ''ping'' (Some sampleHandler) (NewApp \<lparr>apSession = DefaultSessionConfig RoleServer, apMaxMemoryBody = 0,
     apMaxPooledBodyBytes = 0, apHasOnError = False\<rparr>) of Inr a \<Rightarrow> CompileApp a)"

theorem request_reaches_handler_witness:
  "\<exists>r s' f view w'. Request quietEnv sampleMessage [] True sampleStarter = (r, s') \<and> sSent s' = [f]
    \<and> runTurn (peerEnv sampleApp emptyContext quietTransfers) 0 (ReadFrameResult f) samplePeer = (None, w')
    \<and> sHandlerJobs w' = [RequestCall f view] \<and> handleRequest sampleApp emptyContext f view = Some ioEOF"
proof -
  obtain r s' where r: "Request quietEnv sampleMessage [] True sampleStarter = (r, s')" "soErr r = None" using sample_request(2) by blast
  let ?ep = "\<lparr>epPattern = ''ping'', epFn = sampleHandler\<rparr>"
  let ?rs = "[(newNode '''' None)\<lparr>rRegistered := [''ping''], rEndpoints := [?ep]\<rparr>]"
  have on: "On NewRouter 0 ''ping'' (Some sampleHandler) = Inr ?rs"
    by (simp add: On_def NewRouter_def newNode_def Let_def fullPrefix_def root_def ancestry.simps joinPattern_def trimDots_def)
  then have rs: "built ?rs" by (intro built_on [OF built_new]) (simp_all add: NewRouter_def)
  have a: "aRouter sampleApp = Compile ?rs 0" "aOnNotFound sampleApp = None"
    using on by (simp_all add: sampleApp_def OnApp_def NewApp_def CompileApp_def Let_def)
  have m: "mgEvent sampleMessage = ''ping''" "mgFields sampleMessage = []" "mgData sampleMessage = [1, 2, 3]" "\<not> mgHasReader sampleMessage"
    by (simp_all add: sampleMessage_def)
  have st: "sHasWriter sampleStarter" "sConfig sampleStarter = DefaultSessionConfig RoleClient" "sSent sampleStarter = []"
    by (simp_all add: sampleStarter_def)
  have ids: "sNextRequest sampleStarter + 1 \<noteq> 0"
    by (simp add: sampleStarter_def newDefault_def NewSessionWithConfig_def setState_def applyReceiveFrameLimit_def Let_def)
  have w: "sState samplePeer = SessionEstablished" "sRunning samplePeer" "sHandlerJobs samplePeer = []" "sConfig samplePeer = DefaultSessionConfig RoleServer"
    "requireCapability samplePeer CapabilityRequestResponse ''request/response'' = None"
    by (simp_all add: samplePeer_def requireCapability_def
        requireRemoteCapability_def RemoteSupports_def DefaultSessionConfig_def DefaultCapabilities_def Let_def)
  have rate: "fst (checkRateLimit f 0 samplePeer) = None" if "length (fPayload f) = 15" for f
    using that by (simp add: checkRateLimit_def countFrame_def samplePeer_def DefaultSessionConfig_def Let_def)
  have pool: "emptyContext = releaseContext emptyContext" by (simp add: emptyContext_def releaseContext_def)
  have "\<exists>f view w'. sSent s' = sSent sampleStarter @ [f] \<and> runTurn (peerEnv sampleApp emptyContext quietTransfers) 0 (ReadFrameResult f) samplePeer = (None, w')
    \<and> sHandlerJobs w' = sHandlerJobs samplePeer @ [RequestCall f view]
    \<and> handleRequest sampleApp emptyContext f view = sampleHandler \<lparr>cxEvent = ''ping'', cxRequestID = mhRequestID (soHandle r), cxTransferID = 0,
        cxFields = [], cxBody = Some (inlineBody [1, 2, 3])\<rparr>"
    using request_reaches_handler [OF r st(1) ids _ _ m(4) _ _ _ rs a(1), of 0 ?ep emptyContext emptyContext samplePeer 0 quietTransfers]
      sample_request(1) rate
    by (simp add: st w w(5) [simplified] m a pool [symmetric] DefaultSessionConfig_def inForce_def ancestry.simps newNode_def)
  then show ?thesis using r(1) by (simp add: st w sampleHandler_def contextBodyView_def) 
qed

section \<open>Connecting and disconnecting\<close>

text \<open>\<open>onward s s'\<close>: the state of the session is the same, or one that the end of a session goes through.\<close>

definition onward :: "Session \<Rightarrow> Session \<Rightarrow> bool" where
  "onward s s' \<longleftrightarrow> sState s' = sState s
     \<or> sState s' \<in> {SessionDraining, SessionClosing, SessionClosed, SessionFailed, SessionAuthRejected}"

named_theorems onwards "operations that keep the state of a session or end it"

lemma onward_refl [simp, onwards]: "onward s s"
  by (simp add: onward_def)

lemma onward_trans: "onward s s' \<Longrightarrow> onward s' s'' \<Longrightarrow> onward s s''"
  by (auto simp: onward_def)

lemma onward_chat: "chat s s' \<Longrightarrow> onward s s'"
  by (simp add: onward_def chat_fields)

lemma onward_with [onwards]: "(\<And>x. onward s (snd (k x s))) \<Longrightarrow> onward s (snd (with_result r k s))"
  by (simp add: with_result_def ret_def split: sum.split)

lemma onward_try [onwards]: "onward s (snd (m s)) \<Longrightarrow> (\<And>s'. onward s' (snd (k s'))) \<Longrightarrow> onward s (snd (op_try m k s))"
  by (auto simp: op_try_def split: prod.split option.split intro: onward_trans)

lemma onward_seq [onwards]: "onward s (snd (m s)) \<Longrightarrow> (\<And>s'. onward s' (snd (k s'))) \<Longrightarrow> onward s (snd (op_seq m k s))"
  by (auto simp: op_seq_def intro: onward_trans)

lemma state_sent [simp]:
  "sState (snd (sendAck env i a b r s)) = sState s" "sState (snd (sendNack env i a b rr s)) = sState s"
  "sState (snd (SendTransferState env st s)) = sState s" "sState (snd (SendError env code frame message s)) = sState s"
  "sState (snd (emitEvent e s)) = sState s" "sState (snd (emitProgress p s)) = sState s"
  "sState (snd (markBadFrame frame message s)) = sState s" "sState (snd (send env frame s)) = sState s"
  "sState (snd (SendPong env s)) = sState s" "sState (snd (sendIncomingWindow env i s)) = sState s"
  "sState (notifyBlockedWindows env i s) = sState s"
  by (simp_all add: chat_fields [OF chat_messages(1)] chat_fields [OF chat_messages(2)] chat_fields [OF chat_messages(3)]
      chat_fields [OF chat_SendError] chat_fields [OF chat_emit(1)] chat_fields [OF chat_emit(2)] chat_fields [OF chat_emit(3)]
      chat_fields [OF chat_send] chat_fields [OF chat_guarded(3)] flowed_fields [OF flowed_sendIncomingWindow] flowed_fields [OF flowed_notify])

lemma state_kept [simp]:
  "sState (putIncoming i tr s) = sState s" "sState (removeIncoming i s) = sState s" "sState (removeOpening i s) = sState s"
  "sState (logWriter i e s) = sState s" "sState (storeTransfer g tr s) = sState s" "sState (putOutgoing i ot s) = sState s"
  "sState (releaseReceiveBytes n s) = sState s" "sState (releaseIncomingChunk chunk s) = sState s" "sState (snd (reserveReceiveBytes n s)) = sState s"
  "sState (takeChunk g s) = sState s" "sState (rememberTransferState now st s) = sState s" "sState (snd (lookupCompleted now i s)) = sState s"
  "sState (cleanupIncoming reason b s) = sState s" "sState (failOutgoing err s) = sState s" "sState (closeWriter s) = sState s"
  "sState (snd (closeTransport env s)) = sState s"
  by (auto simp: putIncoming_def removeIncoming_def removeOpening_def logWriter_def releaseReceiveBytes_def releaseIncomingChunk_def
      reserveReceiveBytes_def takeChunk_def rememberTransferState_def lookupCompleted_def removeCompletedIDLocked_def cleanupIncoming_def
      failOutgoing_def closeWriter_def closeTransport_def putOutgoing_def Let_def split: option.split prod.split list.split)
    (cases g; simp add: putIncoming_def)+

lemma state_set [simp]: "sState (setState st s) = st"
  by (simp add: setState_def Let_def)

lemma state_write [simp]: "sState (writeIncomingChunk te g s) = sState s"
  by (simp add: writeIncomingChunk_def Let_def split: option.split prod.split)

lemma state_finish [simp]: "sState (finishTransfer g s) = sState s"
  by (simp add: finishTransfer_def Let_def split: option.split goroutine.split)

lemma state_drain [simp]: "sState (drainTransfer te i n s) = sState s"
  by (induction n arbitrary: s) simp_all

lemma state_endFailed [simp]: "sState (snd (endFailed env now i tr reason s)) = sState s"
  by (simp add: endFailed_def sendTransferFailed_def Let_def)

lemma state_commit [simp]: "sState (snd (commitTransfer te now frame tr s)) = sState s"
  by (simp add: commitTransfer_def Let_def split: closeOutcome.split option.split)

lemma state_end [simp]: "sState (snd (handleIncomingTransferEnd te now frame s)) = sState s"
proof -
  have look: "sState s1 = sState s" if "lookupCompleted now i s = (r, s1)" for i r s1
    using that by (metis state_kept(12) snd_conv)
  show ?thesis
    by (auto simp: handleIncomingTransferEnd_def Let_def look split: option.split prod.split)
qed

lemma state_open [simp]: "sState (snd (openIncomingTransfer te outcome info s)) = sState s"
proof -
  have window: "sState s1 = sState s'" if "sendIncomingWindow env i s' = (r, s1)" for env i s' r s1
    using that by (metis state_sent(10) snd_conv)
  show ?thesis
    by (auto simp: openIncomingTransfer_def Let_def split: openOutcome.split prod.split option.split dest!: window)
qed

lemma state_begin [simp]: "sState (snd (handleIncomingTransferBegin te frame s)) = sState s"
  by (simp add: handleIncomingTransferBegin_def Let_def split: sum.split option.split)

lemma state_data [simp]: "sState (snd (handleIncomingTransferData env frame s)) = sState s"
proof -
  have "sState s1 = sState s" if "reserveReceiveBytes n s = (r, s1)" for n r s1
    using that by (metis state_kept(9) snd_conv)
  then show ?thesis
    by (auto simp: handleIncomingTransferData_def Let_def split: option.split dataVerdict.split prod.split)
qed

lemma state_cancel [simp]: "sState (snd (handleIncomingCancel env frame s)) = sState s"
  by (auto simp: handleIncomingCancel_def with_result_def ret_def Let_def split: sum.split option.split prod.split)

lemma state_startResumed [simp]: "sState (snd (startResumed env i d s)) = sState s"
proof -
  have sent: "sState s1 = sState s'" if "SendTransferState env st s' = (r, s1)" for st s' r s1
    using that by (metis state_sent(3) snd_conv)
  have "sState (snd (op_try (SendTransferState env st) (sendIncomingWindow env i) s')) = sState s'" for st s'
    by (auto simp: op_try_def dest: sent split: prod.split option.split)
  then have "sState s1 = sState s'" if "op_try (SendTransferState env st) (sendIncomingWindow env i) s' = (r, s1)" for st s' r s1
    using that by (metis snd_conv)
  then show ?thesis
    by (auto simp: startResumed_def Let_def split: prod.split option.split) 
qed

lemma state_resume [simp]: "sState (snd (handleIncomingTransferResume te frame s)) = sState s"
  by (auto simp: handleIncomingTransferResume_def with_result_def ret_def op_seq_def Let_def split: sum.split option.split resumeOutcome.split prod.split)

lemma state_sendFrames [simp]: "sState (snd (sendFrames env frames s)) = sState s"
proof (induction frames arbitrary: s)
  case (Cons frame frames)
  have "sState s1 = sState s" if "send env frame s = (r, s1)" for r s1
    using that by (metis state_sent(8) snd_conv)
  with Cons show ?case by (auto simp: op_try_def split: prod.split option.split)
qed simp

lemma state_nack [simp]: "sState (snd (applyNack env now nack s)) = sState s"
proof -
  have "sState s1 = sState s'" if "sendFrames env frames s' = (r, s1)" for frames s' r s1
    using that by (metis state_sendFrames snd_conv)
  then show ?thesis
    by (auto simp: applyNack_def Let_def split: option.split prod.split)
qed

lemma state_ack [simp]: "sState (snd (applyAck ack s)) = sState s"
  by (simp add: applyAck_def split: option.split)

lemma state_transferState [simp]: "sState (snd (handleIncomingTransferState frame s)) = sState s"
  by (simp add: handleIncomingTransferState_def with_result_def ret_def Let_def split: sum.split option.split)

lemma onward_states: "sState s' = sState s \<Longrightarrow> onward s s'"
  by (simp add: onward_def)

lemmas onward_kept [onwards] = state_sent [THEN onward_states] state_kept [THEN onward_states] state_end [THEN onward_states]
  state_begin [THEN onward_states] state_data [THEN onward_states] state_cancel [THEN onward_states] state_resume [THEN onward_states]
  state_nack [THEN onward_states] state_ack [THEN onward_states] state_transferState [THEN onward_states]

lemma onward_controls [onwards]:
  "onward s (snd (HandleAck frame s))" "onward s (snd (HandleNack env now frame s))" "onward s (snd (HandleWindow frame s))"
  "onward s (snd (handleIncomingCancelAck frame s))" "onward s (snd (handleIncomingCloseAck frame s))"
  unfolding HandleAck_def HandleNack_def HandleWindow_def handleIncomingCancelAck_def handleIncomingCloseAck_def
  by (auto simp: Let_def split: option.split prod.split intro!: onwards) (simp add: onward_def)

lemma onward_refusals [onwards]:
  "onward s (snd (refuseFrame env code frame message e s))" "onward s (snd (reportFrame env code frame message e s))"
  "onward s (snd (badPayload frame message e s))"
  by (simp_all add: refuseFrame_def reportFrame_def badPayload_def onward_def op_seq_def ret_def)

lemma onward_invoke [onwards]: "onward s (snd (invokeApplicationHandler env frame call outcome s))"
  by (simp add: onward_def invokeApplicationHandler_def)

lemma onward_messages [onwards]:
  "onward s (snd (handleIncomingData env frame s))" "onward s (snd (handleIncomingRequest env frame s))"
  "onward s (snd (handleIncomingResponse env frame s))"
  unfolding handleIncomingData_def handleIncomingRequest_def handleIncomingResponse_def
  by (auto intro: onwards split: sum.split option.split)

lemma onward_requireDrain [onwards]: "onward s (snd (requireDrain env flags frame s))"
  by (simp add: requireDrain_def onward_def split: option.split)

lemma onward_endings [onwards]:
  "onward s (snd (handleIncomingError frame s))" "onward s (snd (handleIncomingGoAway env frame s))"
  "onward s (snd (handleIncomingClose env frame s))"
  unfolding handleIncomingError_def handleIncomingGoAway_def handleIncomingClose_def
  by (auto simp: beginPeerClose_def Let_def intro!: onward_with onward_try onward_requireDrain split: prod.split) (auto simp: onward_def)

lemma onward_dispatch:
  assumes "hFrameType (fHeader frame) \<noteq> FrameHello" "hFrameType (fHeader frame) \<noteq> FrameHelloAck"
  shows "onward s (snd (dispatchFrame te now frame s))"
  using assms by (auto simp: dispatchFrame_def Let_def ret_def intro: onwards)

lemma state_checks [simp]:
  "sState (snd (checkRateLimit frame now s)) = sState s" "sState (snd (EnsureAuthenticatedFor frame s)) = sState s"
  "sState (snd (checkCapability env frame s)) = sState s"
  by (auto simp: checkRateLimit_def EnsureAuthenticatedFor_def checkCapability_def op_seq_def ret_def Let_def split: option.split prod.split)

lemma onward_reject [onwards]: "onward s (snd (RejectAuth env a b message s))"
  unfolding RejectAuth_def by (auto simp: Let_def intro!: onwards) (auto simp: onward_def)

text \<open>The states in which no authentication and no hello is accepted any more.\<close>

definition settled :: "Session \<Rightarrow> bool" where
  "settled s \<longleftrightarrow> sState s \<in> {SessionEstablished, SessionDraining, SessionClosing, SessionClosed, SessionFailed, SessionAuthRejected}"

lemma onward_settled: "settled s \<Longrightarrow> onward s s' \<Longrightarrow> settled s' \<and> \<not> becomesEstablished s s'"
  by (auto simp: settled_def onward_def becomesEstablished_def)

lemma onward_frame:
  assumes "settled s"
  shows "onward s (snd (HandleFrame te now frame s))"
proof -
  obtain e1 s1 where 1: "checkRateLimit frame now s = (e1, s1)" by force
  obtain e2 s2 where 2: "EnsureAuthenticatedFor frame s1 = (e2, s2)" by force
  have st: "sState s1 = sState s" "sState s2 = sState s"
    using state_checks(1) [of frame now s] state_checks(2) [of frame s1] unfolding 1 2 by simp_all
  then have to: "onward s1 s' \<Longrightarrow> onward s s'" "onward s2 s' \<Longrightarrow> onward s s'" for s' by (simp_all add: onward_def)
  have auth: "snd (handleAuthFrame (sendEnv te) frame s1) = s1"
    using assms st by (auto simp: handleAuthFrame_def settled_def Let_def)
  have "onward s2 (snd (op_try (checkCapability (sendEnv te) frame) (dispatchFrame te now frame) s2))"
    if "ensureIncomingState s2 (hFrameType (fHeader frame)) = None"
  proof -
    have "hFrameType (fHeader frame) \<noteq> FrameHello" "hFrameType (fHeader frame) \<noteq> FrameHelloAck"
      using that assms st by (auto simp: ensureIncomingState_def stateAllows_def settled_def)
    from onward_dispatch [OF this] show ?thesis by (intro onward_try) (simp_all add: onward_states)
  qed
  with auth show ?thesis
    by (auto simp: HandleFrame_def 1 2 Let_def intro: to onwards split: option.split)
qed

lemma onward_turn: "settled s \<Longrightarrow> onward s (snd (runTurn te now r s))"
proof (cases r)
  case (ReadFrameResult frame)
  assume "settled s"
  from onward_frame [OF this, of te now frame] ReadFrameResult show ?thesis
    by (cases "HandleFrame te now frame s") (auto simp: runTurn_def Let_def onward_def split: option.split)
qed (auto simp: runTurn_def runFailed_def onward_def Let_def split: readKind.split)

text \<open>How often the turns of a run establish the session, that is, run the \<open>OnEstablished\<close> callback with success.\<close>

fun connects :: "TransferEnv \<Rightarrow> (int \<times> readResult) list \<Rightarrow> Session \<Rightarrow> nat" where
  "connects te [] s = 0"
| "connects te ((now, r) # rs) s =
     (case runTurn te now r s of (Some result, s') \<Rightarrow> 0
      | (None, s') \<Rightarrow> (if becomesEstablished s s' then 1 else 0) + connects te rs s')"

lemma settled_connects: "settled s \<Longrightarrow> connects te rs s = 0"
proof (induction te rs s rule: connects.induct)
  case (2 te now r rs s)
  with onward_settled [OF 2(2) onward_turn [OF 2(2), of te now r]] show ?case
    by (cases "runTurn te now r s") (auto split: option.split)
qed simp

lemma connects_once: "connects te rs s \<le> 1"
proof (induction te rs s rule: connects.induct)
  case (2 te now r rs s)
  then show ?case
    by (cases "runTurn te now r s") (auto simp: settled_connects settled_def becomesEstablished_def split: option.split)
qed simp

lemma runTurns_connected: "fst (snd (runTurns te rs (connected, s))) \<longleftrightarrow> connected \<or> connects te rs s > 0"
proof (induction rs arbitrary: connected s)
  case (Cons x rs)
  then show ?case by (cases x; cases "runTurn te (fst x) (snd x) s") (auto split: option.split)
qed simp

text \<open>C12: the application hears of the end of a connection exactly once, and only of one whose beginning it heard of. Whatever the peer sends, the
  session of a served connection becomes established at most once, the state machine never leads back from an established, closing or failed session
  to the handshake; when \<open>ServeTransportWithRemote\<close> returns, the disconnect handler was called exactly as often as the connection was
  announced through \<open>OnEstablished\<close>, with the result of the run as its cause. A session that its transport brings up
  established is never announced, so for it no handler ever runs.\<close>

theorem disconnect_matches_connect:
  fixes a :: App and negotiated :: "u64 option" and pooled :: Context and world :: TransferEnv and reads :: "(int \<times> readResult) list"
  defines "start \<equiv> (peerSession (CompileApp a) negotiated)\<lparr>sRunning := True, sStarted := True\<rparr>"
  defines "c \<equiv> connects (peerEnv (CompileApp a) pooled world) reads start"
  assumes "ServeTransportWithRemote a True negotiated pooled world reads = (Some err, calls, s)"
  shows "c \<le> 1 \<and> calls = (if aOnDisconnect a then replicate c err else []) \<and> (sState start = SessionEstablished \<longrightarrow> calls = [])"
proof -
  obtain r connected s1 where run: "runTurns (peerEnv (CompileApp a) pooled world) reads (False, start) = (r, connected, s1)"
    by (cases "runTurns (peerEnv (CompileApp a) pooled world) reads (False, start)") auto
  have disconnect: "aOnDisconnect (CompileApp a) = aOnDisconnect a" by (simp add: CompileApp_def)
  have "connected \<longleftrightarrow> c > 0" using runTurns_connected [of "peerEnv (CompileApp a) pooled world" reads False start] run by (simp add: c_def)
  moreover have le: "c \<le> 1" unfolding c_def by (rule connects_once)
  ultimately have "calls = (if aOnDisconnect a then replicate c err else [])"
    using assms(3) run disconnect by (cases c) (auto simp: ServeTransportWithRemote_def start_def [symmetric] Let_def split: option.splits)
  moreover have "sState start = SessionEstablished \<Longrightarrow> c = 0"
    unfolding c_def by (rule settled_connects) (simp add: settled_def)
  ultimately show ?thesis using le by auto
qed

theorem disconnect_matches_connect_witness:
  "\<exists>a s. OnDisconnect (Some ()) (NewApp \<lparr>apSession = DefaultSessionConfig RoleServer, apMaxMemoryBody = 0, apMaxPooledBodyBytes = 0, apHasOnError = False\<rparr>) = Inr a
    \<and> ServeTransportWithRemote a True (Some DefaultCapabilities) emptyContext quietTransfers [(0, ReadFailed ReadOther ioEOF)] = (Some (Some ioEOF), [], Some s)
    \<and> sState (peerSession (CompileApp a) (Some DefaultCapabilities)) = SessionEstablished"
proof -
  let ?app = "NewApp \<lparr>apSession = DefaultSessionConfig RoleServer, apMaxMemoryBody = 0, apMaxPooledBodyBytes = 0, apHasOnError = False\<rparr>"
  let ?a = "?app\<lparr>aOnDisconnect := True\<rparr>"
  have on: "OnDisconnect (Some ()) ?app = Inr ?a"
    by (simp add: OnDisconnect_def registering_def appCompiled_def NewApp_def NewRouter_def newNode_def Let_def)
  have conf: "apSession (aConfig (CompileApp ?a)) = DefaultSessionConfig RoleServer"
    by (simp add: CompileApp_def NewApp_def NormalizeSessionConfig_def default_normalized Let_def) (simp add: DefaultSessionConfig_def RoleServer_def)
  have st: "sState (peerSession (CompileApp ?a) (Some DefaultCapabilities)) = SessionEstablished"
    unfolding peerSession_def conf
    by (simp add: NewSessionWithConfig_def default_normalized setState_def applyReceiveFrameLimit_def Let_def)
      (simp add: DefaultSessionConfig_def DefaultCapabilities_def AllCapabilities_def)
  obtain r calls s where serve: "ServeTransportWithRemote ?a True (Some DefaultCapabilities) emptyContext quietTransfers [(0, ReadFailed ReadOther ioEOF)] = (r, calls, s)"
    by (metis prod_cases3)
  obtain s' where s': "r = Some (Some ioEOF)" "s = Some s'"
    using serve st by (auto simp: ServeTransportWithRemote_def runTurn_def Let_def)
  have "sState ((peerSession (CompileApp ?a) (Some DefaultCapabilities))\<lparr>sRunning := True, sStarted := True\<rparr>) = SessionEstablished"
    using st by simp
  with disconnect_matches_connect [OF serve [unfolded s']] have "calls = []" by blast
  with serve s' on st show ?thesis by blast
qed

end
