(* ===== verification/Spec2Isabelle.thy ===== *)
theory Spec2Isabelle
  imports Etp_Frame Etp_Lease Etp_Control Etp_Messages Etp_TransferMeta Etp_Scheduler Etp_Writer Etp_Router Etp_Config Etp_Handshake Etp_Gate
    Etp_Stream Etp_MultiStream Etp_Body Etp_Monitor Etp_Launch Etp_App
begin

text \<open>
  A verification library for go-etp, the Go implementation of the ETP protocol: framed messages and large transfers with acknowledgements,
  flow control and resumption over one connection.

  \<^bold>\<open>The program and its parts.\<close> Bytes of a connection become frames in a transport
  (\<open>src/internal/etp/transport.go\<close>, \<open>multistream_transport.go\<close>). A frame is a fixed header and a payload
  (\<open>frame.go\<close>), the payload of a control frame one of the messages of \<open>payload.go\<close>. A session
  (\<open>session.go\<close>, \<open>incoming.go\<close>, \<open>state.go\<close>) runs a read loop that checks each frame and dispatches it: handshake and authentication,
  acknowledgements of its outgoing transfers, chunks of its incoming ones, requests for the application. What it sends goes through a writer goroutine with one queue
  per priority (\<open>writer.go\<close>), or a frame scheduler (\<open>scheduler.go\<close>). A monitor goroutine resends chunks that time
  out. An application (\<open>src/app.go\<close>, \<open>types.go\<close>) serves connections: it wires a session to its router (\<open>router.go\<close>),
  runs handlers on contexts, and keeps bodies of transfers in memory or in files (\<open>body.go\<close>).

  \<^bold>\<open>Theories, definitions and sources.\<close> A Go function has the definition of its name, in the theory of its file; where a
  name occurs twice in the program the receiver is part of it (\<open>CloseBody\<close>, \<open>SendFrameMulti\<close>, \<open>PeerSend\<close>). A long handler is cut into
  definitions at the points where other goroutines can run.
  \<^item> \<open>Etp_Prelude\<close>: words, Go strings, error values (a panic is one of them), big-endian fields, buffers, and the locales
    \<open>wire_codec\<close>, \<open>canonical_codec\<close> and \<open>framed_codec\<close> for an encoder and its decoder.
  \<^item> \<open>Etp_Frame\<close>, \<open>Etp_Lease\<close>: \<open>frame.go\<close>. Header checks, encoders, decoders; buffer pools and the reference count of
    a frame lease, as a step relation cut at its atomic operations.
  \<^item> \<open>Etp_Control\<close>, \<open>Etp_Messages\<close>, \<open>Etp_TransferMeta\<close>: \<open>payload.go\<close>. Fixed-size messages; messages that end in a text; events
    and announcements with repeated fields.
  \<^item> \<open>Etp_Scheduler\<close>, \<open>Etp_Writer\<close>: \<open>scheduler.go\<close> and \<open>writer.go\<close>. Operations under a mutex are functions; the writer with
    its blocked callers and its goroutine is a step relation.
  \<^item> \<open>Etp_Router\<close>: \<open>router.go\<close>, a store of nodes whose indices are the pointers of the source.
  \<^item> \<open>Etp_Config\<close>: the configuration records of \<open>session.go\<close>, defaults and normalization.
  \<^item> \<open>Etp_State\<close>, \<open>Etp_Outgoing\<close>, \<open>Etp_Incoming\<close>, \<open>Etp_Session\<close>: the session. An operation maps the record \<open>Session\<close> to
    the error it returns and the session after it; frames handed to the writer, events and calls of the application are appended to logs of the
    record. \<open>HandleFrame\<close> and \<open>runTurn\<close> are the whole handler of a frame and one turn of the read loop.
  \<^item> \<open>Etp_Launch\<close>: the goroutine of an outgoing transfer and the calls that start one. \<open>Etp_Monitor\<close>: the timer of the
    monitor goroutine. Both are step relations over atomic actions.
  \<^item> \<open>Etp_Stream\<close>, \<open>Etp_MultiStream\<close>: \<open>transport.go\<close> and \<open>multistream_transport.go\<close>, over a connection with the documented behaviour of
    Go's network connections.
  \<^item> \<open>Etp_Body\<close>, \<open>Etp_App\<close>: \<open>body.go\<close>, \<open>app.go\<close>, \<open>types.go\<close>, \<open>string_view.go\<close>.
  \<^item> \<open>Etp_Samples\<close>: concrete sessions at which theorems are evaluated. \<open>Etp_Window\<close>, \<open>Etp_Reassembly\<close>, \<open>Etp_Handshake\<close>, \<open>Etp_Gate\<close>: lemmas about
    the session, below.

  \<^bold>\<open>What the lemmas show.\<close>
  \<^item> Codecs: the frame decoder and every payload decoder accept exactly the encodings of well-formed messages, never panic, and give
    back what was encoded, for any reused buffer. Shown once in the locales, which are interpreted for all eighteen codecs; the loops over
    repeated items share the locale \<open>item_loop\<close>.
  \<^item> Transports: frames sent over a stream that cuts and shortens as it likes are read as the same frames in order; a peer that sends slowly is cut off within
    a bound; the multi-stream transport loses and leaks no lease and no stream in any interleaving.
  \<^item> Writer and scheduler: the ring buffers are queues (locale \<open>fifo_queue\<close>), counters are exact and bounded, every item is released once, no priority starves; the
    scheduler is a stable sort. Leases are returned once, under every interleaving.
  \<^item> Outgoing transfers: the bytes in flight are exactly those of the unacknowledged chunks and within the limits; an acknowledgement is a filter; chunks are
    resent as often as allowed and then the transfer fails; the monitor never sleeps through a deadline and its passes cover all
    deadlines; each goroutine reports once, gives its place back, and returns once its transfer failed.
  \<^item> Incoming transfers: the locale \<open>transfer_invariant\<close> lifts a property of one transfer to every operation of a session; its interpretation
    shows that the writer of the application has a prefix of the body whatever arrives, and it is closed only with the whole body and a matching checksum.
  \<^item> Session: two sessions agree after the handshake; nothing is served before authentication; the state machine never leads back.
  \<^item> Application: a compiled router runs the registered handler under the middlewares in force; spooling a body is invisible and
    leaves nothing behind; a request of one side reaches the handler of the other whole; the disconnect handler runs as often as the
    connection was announced.
  \<^item> Error behaviour, where the code does not do what it means to: identifiers of concurrent transfers may be announced out of order and end the peer's session; a
    late acknowledgement ends the session; an answer to a hello that overtakes the change of state ends it; draining gets around the
    authentication of a negotiated transport; frames of a channel may be reordered between two streams; a frame limit may miss a new stream;
    a route added to a group after compilation is lost; a group wildcard may not cover the group.

  \<^bold>\<open>Bounds and fuel.\<close> Loops of the source are structural recursion, or have a termination proof (reading and
  writing until the bytes are done, compiling the tree of groups by its depth, at most the number of nodes). Waiting for the goroutine of an incoming transfer (\<open>drainTransfer\<close>) runs as
  many rounds as there are queued chunks and one more, which is shown to finish it. A failed outgoing transfer returns within four
  steps. Loops of goroutines have no bound: they are steps of a relation, and invariants hold of every reachable state.

  \<^bold>\<open>Parameters.\<close> Code outside the repository and the outcome of waits are arguments: what a hand-over to the writer returns, what the application's handlers, readers,
  writers and stores return, when contexts end, what system calls and the connection do, the hash function. No property of a hash function is assumed.

  \<^bold>\<open>Not modelled.\<close> The adapters under \<open>src/adapters\<close> bind third-party socket libraries and have no logic of the protocol. \<open>src/protocol.go\<close> only
  re-exports names. Of the session: registration of callbacks, plain getters, how \<open>Run\<close> starts its goroutines and stops its timers, the wrappers that turn a
  panic of a callback into an error (their outcome is part of the parameter), the pools of transfer records and the reference counts that delay
  their reuse. Memory order of the Go runtime beyond atomic steps and critical sections, and time except where a bound depends on it.
\<close>

end
